(* ===== verification/Prelude.thy ===== *)
theory Prelude
  imports Main "HOL-Library.Word"
begin

text \<open>
  Shared vocabulary of the development.  Byte strings (\<open>std::string\<close>, \<open>char *\<close> with a length)
  are lists of characters; \<open>int\<close> results are HOL integers; a \<open>size_t\<close> that only indexes a
  buffer is a natural number.  The theory fixes the numeric status codes of
  \<open>qkpack_common.h\<close>, the fact collections the components feed, and the generic list lemmas on
  scanning and splitting that several components rely on.
\<close>

named_theorems codes \<open>numeric status codes and constants of the headers\<close>
named_theorems frames \<open>components of a state an operation leaves alone\<close>

type_synonym bytes = string
type_synonym u8 = "8 word"
type_synonym u16 = "16 word"
type_synonym u32 = "32 word"
type_synonym u64 = "64 word"

unbundle bit_operations_syntax


section \<open>Status codes\<close>

definition QKPACK_OK :: int where [codes]: "QKPACK_OK = 0"
definition QKPACK_ERROR :: int where [codes]: "QKPACK_ERROR = - 1"
definition QKPACK_AGAIN :: int where [codes]: "QKPACK_AGAIN = - 2"
definition QKPACK_UPSTREAM_INVALID_HEADER :: int where [codes]: "QKPACK_UPSTREAM_INVALID_HEADER = 40"
definition REDIS_MOVED :: int where [codes]: "REDIS_MOVED = 2"
definition REDIS_ASK :: int where [codes]: "REDIS_ASK = 3"
definition REDIS_ASKING :: int where [codes]: "REDIS_ASKING = 4"
definition REDIS_ASKING_END :: int where [codes]: "REDIS_ASKING_END = 5"
definition REDIS_TRYAGAIN :: int where [codes]: "REDIS_TRYAGAIN = 6"


section \<open>Scanning a buffer for the first match\<close>

text \<open>The index a \<open>for (i = 0; i < len; i++) if (P(buf[i])) break;\<close> loop stops at; the length
  when nothing matches.\<close>

fun scan :: "('a \<Rightarrow> bool) \<Rightarrow> 'a list \<Rightarrow> nat" where
  "scan P [] = 0"
| "scan P (x # xs) = (if P x then 0 else Suc (scan P xs))"


section \<open>Exclusive-or spans\<close>

text \<open>All exclusive-or combinations of the words of a list, in the order that puts the combination
  selected by the bits of \<open>i\<close> at index \<open>i\<close>; lookup tables of checksums have this shape.\<close>

fun xor_span :: "'a::len word list \<Rightarrow> 'a word list" where
  "xor_span [] = [0]"
| "xor_span (b # bs) = xor_span bs @ map (\<lambda>x. b XOR x) (xor_span bs)"


section \<open>Lemmas\<close>

lemma scan_le_length [simp]: "scan P xs \<le> length xs"
  by (induction xs) auto

lemma scan_eq_length_iff: "scan P xs = length xs \<longleftrightarrow> (\<forall>x\<in>set xs. \<not> P x)"
  by (induction xs) auto

lemma scan_nth: "scan P xs < length xs \<Longrightarrow> P (xs ! scan P xs)"
  by (induction xs) (auto split: if_splits)

lemma scan_before: "i < scan P xs \<Longrightarrow> \<not> P (xs ! i)"
  by (induction xs arbitrary: i) (auto simp: nth_Cons' split: if_splits)

lemma take_scan: "take (scan P xs) xs = takeWhile (\<lambda>x. \<not> P x) xs"
  by (induction xs) auto

lemma drop_scan: "drop (scan P xs) xs = dropWhile (\<lambda>x. \<not> P x) xs"
  by (induction xs) auto

lemma scan_append:
  "scan P (xs @ ys) = (if \<exists>x\<in>set xs. P x then scan P xs else length xs + scan P ys)"
  by (induction xs) auto

lemma scan_skip [simp]: "\<forall>x\<in>set xs. \<not> P x \<Longrightarrow> P y \<Longrightarrow> scan P (xs @ y # ys) = length xs"
  by (induction xs) auto

lemma length_xor_span [simp]: "length (xor_span bs) = 2 ^ length bs"
  by (induction bs) simp_all

lemma word_of_nat_power_plus:
  assumes "j < 2 ^ k"
  shows "(word_of_nat (2 ^ k + j) :: 'a::len word) = 2 ^ k XOR word_of_nat j"
proof -
  have "((2 :: 'a word) ^ k) AND word_of_nat j = 0"
  proof (rule bit_word_eqI)
    fix n assume "n < LENGTH('a)"
    have "\<not> bit j k" using assms by (simp add: bit_iff_odd)
    then show "bit (((2 :: 'a word) ^ k) AND word_of_nat j) n = bit (0 :: 'a word) n"
      by (auto simp: bit_and_iff bit_exp_iff bit_of_nat_iff)
  qed
  then show ?thesis
    using disjunctive_xor_eq_or disjunctive_add_eq_xor by (metis of_nat_add of_nat_power of_nat_numeral)
qed

lemma xor_span_nth:
  assumes lin: "\<And>x y. f (x XOR y) = f x XOR f y" and "i < 2 ^ k"
  shows "xor_span (map (\<lambda>b. f (2 ^ b)) (rev [0..<k])) ! i = f (word_of_nat i)"
  using \<open>i < 2 ^ k\<close>
proof (induction k arbitrary: i)
  case 0
  then show ?case using lin [of 0 0] by simp
next
  case (Suc k)
  show ?case
  proof (cases "i < 2 ^ k")
    case True
    then show ?thesis using Suc by (simp add: nth_append)
  next
    case False
    then obtain j where j: "i = 2 ^ k + j" "j < 2 ^ k"
      using Suc.prems by (metis add_less_cancel_left le_Suc_ex linorder_not_less mult_2 power_Suc)
    have "f (word_of_nat i) = f (2 ^ k) XOR f (word_of_nat j)"
      by (simp only: j(1) word_of_nat_power_plus [OF j(2)] lin)
    then show ?thesis
      using Suc j by (simp add: nth_append)
  qed
qed

lemma funpow_8: "(f ^^ 8) x = f (f (f (f (f (f (f (f x)))))))"
  by (simp add: eval_nat_numeral)

lemma bit_of_char:
  "bit (of_char c :: 'a::len word) n \<longleftrightarrow> n < LENGTH('a) \<and> n < 8 \<and> bit (of_char c :: nat) n"
proof -
  have "(of_char c :: nat) < 2 ^ 8" using nat_of_char_less_256 [of c] by simp
  then have "bit (of_char c :: nat) n \<Longrightarrow> n < 8"
    by (metis bit_take_bit_iff take_bit_nat_eq_self)
  moreover have "(of_char c :: 'a word) = word_of_nat (of_char c)" by (simp add: of_nat_of_char)
  ultimately show ?thesis
    by (simp only: bit_of_nat_iff possible_bit_word) blast
qed

lemma and_255_take_bit: "(w :: 'a::len word) AND 0xFF = take_bit 8 w"
proof -
  have "(0xFF :: 'a word) = mask 8" by (simp add: mask_eq_exp_minus_1)
  then show ?thesis by (simp only: take_bit_eq_mask)
qed

lemma unat_take_bit_8: "unat (take_bit 8 (w :: 'a::len word)) < 256"
  using take_bit_nat_less_exp [of 8 "unat w"] by (simp only: unsigned_take_bit_eq) simp

lemma find_upt_Some: "find P [a..<b] = Some x \<Longrightarrow> a \<le> x \<and> x < b \<and> P x \<and> (\<forall>y. a \<le> y \<and> y < x \<longrightarrow> \<not> P y)"
proof -
  assume "find P [a..<b] = Some x"
  then obtain i where i: "i < b - a" "P (a + i)" "x = a + i" "\<forall>j<i. \<not> P (a + j)"
    by (auto simp: find_Some_iff)
  then have "\<not> P y" if "a \<le> y" "y < x" for y
    using that by (metis add_less_cancel_left le_Suc_ex)
  then show ?thesis using i by auto
qed

end
