(* ===== verification/StdMap.thy ===== *)
theory StdMap
  imports Prelude "HOL-Library.List_Lexorder" "HOL-Library.Char_ord"
begin

text \<open>
  The C++ standard library's \<open>std::map\<close> as the code uses it: an association list in strictly increasing
  key order, which is the order its iterators visit.  Byte strings are ordered as
  \<open>std::string::compare\<close> orders them (bytes as unsigned numbers, a prefix before its extensions),
  which is the lexicographic order of the library theories.  The interface the clients rely on is the
  locale \<open>sorted_map\<close>, interpreted on these operations.
\<close>


section \<open>Definitions\<close>

type_synonym ('k, 'v) smap = "('k \<times> 'v) list"

text \<open>\<open>find\<close>: the mapped value, if any.\<close>

fun smap_get :: "('k, 'v) smap \<Rightarrow> 'k \<Rightarrow> 'v option" where
  "smap_get [] k = None"
| "smap_get ((a, b) # m) k = (if k = a then Some b else smap_get m k)"

text \<open>\<open>m[k] = v\<close>.\<close>

fun smap_put :: "'k::linorder \<Rightarrow> 'v \<Rightarrow> ('k, 'v) smap \<Rightarrow> ('k, 'v) smap" where
  "smap_put k v [] = [(k, v)]"
| "smap_put k v ((a, b) # m) =
    (if k < a then (k, v) # (a, b) # m
     else if k = a then (k, v) # m
     else (a, b) # smap_put k v m)"

text \<open>\<open>m.insert(std::make_pair(k, v))\<close>: keeps the present value when the key is already mapped.\<close>

definition smap_insert :: "'k::linorder \<Rightarrow> 'v \<Rightarrow> ('k, 'v) smap \<Rightarrow> ('k, 'v) smap" where
  "smap_insert k v m = (case smap_get m k of None \<Rightarrow> smap_put k v m | Some _ \<Rightarrow> m)"

text \<open>\<open>m.erase(k)\<close>.\<close>

definition smap_erase :: "'k \<Rightarrow> ('k, 'v) smap \<Rightarrow> ('k, 'v) smap" where
  "smap_erase k m = filter (\<lambda>p. fst p \<noteq> k) m"

text \<open>\<open>m[k]\<close> read as a value of a type with default value \<open>d\<close>.\<close>

definition smap_at :: "'v \<Rightarrow> ('k, 'v) smap \<Rightarrow> 'k \<Rightarrow> 'v" where
  "smap_at d m k = (case smap_get m k of None \<Rightarrow> d | Some v \<Rightarrow> v)"

text \<open>\<open>m[k].push_back(v)\<close> on a map of vectors.\<close>

definition smap_push :: "'k::linorder \<Rightarrow> 'v \<Rightarrow> ('k, 'v list) smap \<Rightarrow> ('k, 'v list) smap" where
  "smap_push k v m = smap_put k (smap_at [] m k @ [v]) m"

definition smap_ok :: "('k::linorder, 'v) smap \<Rightarrow> bool" where
  "smap_ok m \<longleftrightarrow> sorted_wrt (<) (map fst m)"

definition smap_keys :: "('k, 'v) smap \<Rightarrow> 'k list" where
  "smap_keys m = map fst m"


section \<open>The interface of an ordered map\<close>

locale sorted_map =
  fixes get :: "'m \<Rightarrow> 'k::linorder \<Rightarrow> 'v option"
    and put :: "'k \<Rightarrow> 'v \<Rightarrow> 'm \<Rightarrow> 'm"
    and erase :: "'k \<Rightarrow> 'm \<Rightarrow> 'm"
    and keys :: "'m \<Rightarrow> 'k list"
    and ok :: "'m \<Rightarrow> bool"
  assumes get_put: "get (put k v m) a = (if a = k then Some v else get m a)"
    and get_erase: "get (erase k m) a = (if a = k then None else get m a)"
    and ok_put: "ok m \<Longrightarrow> ok (put k v m)"
    and ok_erase: "ok m \<Longrightarrow> ok (erase k m)"
    and keys_get: "set (keys m) = {k. get m k \<noteq> None}"
    and keys_sorted: "ok m \<Longrightarrow> sorted_wrt (<) (keys m)"
begin

lemma get_put_same: "get (put k v m) k = Some v"
  by (simp add: get_put)

lemma put_put_get: "get (put k v (put k w m)) = get (put k v m)"
  by (auto simp: get_put fun_eq_iff)

lemma keys_put: "set (keys (put k v m)) = insert k (set (keys m))"
  by (auto simp: keys_get get_put)

lemma keys_erase: "set (keys (erase k m)) = set (keys m) - {k}"
  by (auto simp: keys_get get_erase)

lemma keys_put_known:
  assumes "ok m" "get m k = Some w"
  shows "keys (put k v m) = keys m"
proof (rule sorted_distinct_set_unique)
  show "set (keys (put k v m)) = set (keys m)" using assms by (auto simp: keys_get get_put)
qed (use keys_sorted [OF \<open>ok m\<close>] keys_sorted [OF ok_put [OF \<open>ok m\<close>]] in \<open>simp_all add: strict_sorted_iff\<close>)

end


section \<open>The association list meets it\<close>

lemma smap_get_put: "smap_get (smap_put k v m) a = (if a = k then Some v else smap_get m a)"
  by (induction m) auto

lemma smap_get_erase: "smap_get (smap_erase k m) a = (if a = k then None else smap_get m a)"
  by (induction m) (auto simp: smap_erase_def)

lemma fst_smap_put: "fst ` set (smap_put k v m) = insert k (fst ` set m)"
proof (induction m)
  case (Cons p m)
  then show ?case by (cases p) (auto simp: image_iff)
qed simp

lemma smap_ok_put: "smap_ok m \<Longrightarrow> smap_ok (smap_put k v m)"
proof (induction m)
  case (Cons p m)
  obtain a b where p: "p = (a, b)" by force
  have m: "smap_ok m" and a: "\<forall>x\<in>fst ` set m. a < x" using Cons.prems by (auto simp: smap_ok_def p)
  have "\<forall>x\<in>fst ` set (smap_put k v m). a < x" if "a < k" using a that by (simp add: fst_smap_put)
  then show ?case using Cons.IH [OF m] m a by (auto simp: smap_ok_def p)
qed (simp add: smap_ok_def)

lemma smap_ok_erase: "smap_ok m \<Longrightarrow> smap_ok (smap_erase k m)"
  unfolding smap_ok_def smap_erase_def
  by (induction m) (auto split: if_splits)

lemma smap_keys_get: "set (smap_keys m) = {k. smap_get m k \<noteq> None}"
  by (induction m) (auto simp: smap_keys_def)

interpretation smap: sorted_map smap_get smap_put smap_erase smap_keys smap_ok
proof unfold_locales
  show "smap_ok m \<Longrightarrow> sorted_wrt (<) (smap_keys m)" for m :: "('a, 'b) smap"
    by (simp add: smap_ok_def smap_keys_def)
qed (simp_all add: smap_get_put smap_get_erase smap_ok_put smap_ok_erase smap_keys_get)

lemma smap_ok_Nil [simp]: "smap_ok []"
  by (simp add: smap_ok_def)

lemma smap_ok_insert: "smap_ok m \<Longrightarrow> smap_ok (smap_insert k v m)"
  by (simp add: smap_insert_def smap_ok_put split: option.split)

lemma smap_get_insert:
  "smap_get (smap_insert k v m) a =
    (if a = k \<and> smap_get m k = None then Some v else smap_get m a)"
  by (auto simp: smap_insert_def smap_get_put split: option.split)

lemma smap_ok_push: "smap_ok m \<Longrightarrow> smap_ok (smap_push k v m)"
  by (simp add: smap_push_def smap_ok_put)

lemma smap_get_push:
  "smap_get (smap_push k v m) a =
    (if a = k then Some (smap_at [] m k @ [v]) else smap_get m a)"
  by (simp add: smap_push_def smap_get_put)

lemma smap_at_push:
  "smap_at [] (smap_push k v m) a = (if a = k then smap_at [] m a @ [v] else smap_at [] m a)"
  by (simp add: smap_at_def smap_get_push)

lemma smap_get_in_set: "smap_get m k = Some v \<Longrightarrow> (k, v) \<in> set m"
  by (induction m) (auto split: if_splits)

lemma smap_get_of_mem: "smap_ok m \<Longrightarrow> (k, v) \<in> set m \<Longrightarrow> smap_get m k = Some v"
  by (induction m) (force simp: smap_ok_def)+

end
