(* ===== verification/CString.thy ===== *)
theory CString
  imports Prelude "HOL-Library.Sublist"
begin

text \<open>
  The parts of the C library the sources call on character data: number parsing with its end pointer
  (\<open>strtol\<close>, \<open>atoi\<close>, \<open>atol\<close>), decimal printing (\<open>%d\<close>, \<open>%lu\<close>), prefix and case-blind comparison, and
  substring search of \<open>std::string\<close>.  A C string is the list of its characters without the terminator;
  a pointer into it is the list of the characters from there on, so the empty list points at the
  terminator.  Faults of the language (reading past a buffer, a \<open>std::string\<close> of negative length, an
  uncaught exception, a null pointer, memory released twice or used after its release, a loop that does not end) are values of the type \<open>fault\<close>.
\<close>


section \<open>Faults\<close>

datatype fault =
    Out_of_bounds
  | Length_error
  | Null_deref
  | Uninitialised
  | Bad_magic
  | Out_of_range
  | Diverges
  | Double_free
  | Use_after_free

type_synonym 'a result = "fault + 'a"

fun bindR :: "'a result \<Rightarrow> ('a \<Rightarrow> 'b result) \<Rightarrow> 'b result" where
  "bindR (Inl e) f = Inl e"
| "bindR (Inr a) f = f a"


section \<open>Reading numbers\<close>

definition is_space :: "char \<Rightarrow> bool" where
  "is_space c \<longleftrightarrow> c = CHR '' '' \<or> (9 \<le> (of_char c :: nat) \<and> (of_char c :: nat) \<le> 13)"

definition digit_val :: "char \<Rightarrow> nat option" where
  "digit_val c =
    (let n = (of_char c :: nat) in
     if 48 \<le> n \<and> n \<le> 57 then Some (n - 48)
     else if 97 \<le> n \<and> n \<le> 122 then Some (n - 87)
     else if 65 \<le> n \<and> n \<le> 90 then Some (n - 55)
     else None)"

definition is_digit :: "nat \<Rightarrow> char \<Rightarrow> bool" where
  "is_digit b c = (case digit_val c of None \<Rightarrow> False | Some d \<Rightarrow> d < b)"

fun read_digits :: "nat \<Rightarrow> bytes \<Rightarrow> nat \<Rightarrow> nat \<times> bytes" where
  "read_digits b [] acc = (acc, [])"
| "read_digits b (c # cs) acc =
    (if is_digit b c then read_digits b cs (acc * b + the (digit_val c)) else (acc, c # cs))"

fun read_sign :: "bytes \<Rightarrow> bool \<times> bytes" where
  "read_sign [] = (False, [])"
| "read_sign (c # cs) =
    (if c = CHR ''-'' then (True, cs) else if c = CHR ''+'' then (False, cs) else (False, c # cs))"

fun starts_digit :: "nat \<Rightarrow> bytes \<Rightarrow> bool" where
  "starts_digit b [] = False"
| "starts_digit b (c # cs) = is_digit b c"

fun hex_prefix :: "bytes \<Rightarrow> bool" where
  "hex_prefix (z # x # h # cs) =
    (z = CHR ''0'' \<and> (x = CHR ''x'' \<or> x = CHR ''X'') \<and> is_digit 16 h)"
| "hex_prefix _ = False"

fun number_base :: "nat \<Rightarrow> bytes \<Rightarrow> nat \<times> bytes" where
  "number_base base u =
    (if base \<noteq> 0 then (base, u)
     else if hex_prefix u then (16, drop 2 u)
     else case u of [] \<Rightarrow> (10, u) | c # _ \<Rightarrow> if c = CHR ''0'' then (8, u) else (10, u))"

text \<open>The value before it is clipped to a \<open>long\<close>, and the end pointer; no conversion gives 0 and the start.\<close>

definition strtol_raw :: "nat \<Rightarrow> bytes \<Rightarrow> int \<times> bytes" where
  "strtol_raw base s =
    (let (neg, u) = read_sign (dropWhile is_space s); (b, v) = number_base base u in
     if starts_digit b v
     then let (n, rest) = read_digits b v 0 in (if neg then - int n else int n, rest)
     else (0, s))"

definition clip64 :: "int \<Rightarrow> int" where
  "clip64 v = (if v < - (2 ^ 63) then - (2 ^ 63) else if v > 2 ^ 63 - 1 then 2 ^ 63 - 1 else v)"

definition strtol :: "nat \<Rightarrow> bytes \<Rightarrow> int \<times> bytes" where
  "strtol base s = (let (v, rest) = strtol_raw base s in (clip64 v, rest))"

definition strtol_erange :: "nat \<Rightarrow> bytes \<Rightarrow> bool" where
  "strtol_erange base s \<longleftrightarrow> (let (v, _) = strtol_raw base s in clip64 v \<noteq> v)"

text \<open>Conversion of a \<open>long\<close> to \<open>int\<close> keeps 32 bits.\<close>

definition to_int :: "int \<Rightarrow> int" where
  "to_int v = (v + 2 ^ 31) mod 2 ^ 32 - 2 ^ 31"

definition atol :: "bytes \<Rightarrow> int" where
  "atol s = fst (strtol 10 s)"

definition atoi :: "bytes \<Rightarrow> int" where
  "atoi s = to_int (atol s)"


section \<open>Printing numbers\<close>

definition dec_digit :: "nat \<Rightarrow> char" where
  "dec_digit d = char_of (48 + d)"

fun dec_nat :: "nat \<Rightarrow> bytes" where
  "dec_nat n = (if n < 10 then [dec_digit n] else dec_nat (n div 10) @ [dec_digit (n mod 10)])"

declare dec_nat.simps [simp del]

definition dec_int :: "int \<Rightarrow> bytes" where
  "dec_int v = (if v < 0 then CHR ''-'' # dec_nat (nat (- v)) else dec_nat (nat v))"


section \<open>Comparing and searching\<close>

definition CR :: char where "CR = CHR 0x0D"
definition LF :: char where "LF = CHR 0x0A"
definition NUL :: char where "NUL = CHR 0x00"

abbreviation CRLF :: bytes where "CRLF \<equiv> [CR, LF]"

text \<open>\<open>strncmp(p, lit, strlen(lit)) == 0\<close>.\<close>

definition starts_with :: "bytes \<Rightarrow> bytes \<Rightarrow> bool" where
  "starts_with lit p \<longleftrightarrow> take (length lit) p = lit"

definition lower :: "char \<Rightarrow> char" where
  "lower c = (let n = (of_char c :: nat) in if 65 \<le> n \<and> n \<le> 90 then char_of (n + 32) else c)"

text \<open>\<open>strcasecmp(a, b) == 0\<close>.\<close>

definition strcaseeq :: "bytes \<Rightarrow> bytes \<Rightarrow> bool" where
  "strcaseeq a b \<longleftrightarrow> map lower a = map lower b"

text \<open>\<open>s.find(pat, pos)\<close>, with \<open>None\<close> for \<open>npos\<close>.\<close>

fun find_at :: "bytes \<Rightarrow> bytes \<Rightarrow> nat option" where
  "find_at pat [] = (if pat = [] then Some 0 else None)"
| "find_at pat (c # cs) =
    (if starts_with pat (c # cs) then Some 0 else map_option Suc (find_at pat cs))"

definition find_from :: "bytes \<Rightarrow> bytes \<Rightarrow> nat \<Rightarrow> nat option" where
  "find_from s pat pos =
    (if pos > length s then None else map_option (\<lambda>i. pos + i) (find_at pat (drop pos s)))"


section \<open>Lemmas\<close>

lemma bindR_Inr_iff: "bindR m f = Inr b \<longleftrightarrow> (\<exists>a. m = Inr a \<and> f a = Inr b)"
  by (cases m) auto

lemma to_int_id [simp]: "- (2 ^ 31) \<le> v \<Longrightarrow> v < 2 ^ 31 \<Longrightarrow> to_int v = v"
  by (simp add: to_int_def)

lemma to_int_range: "- (2 ^ 31) \<le> to_int v \<and> to_int v < 2 ^ 31"
  by (simp add: to_int_def)

lemma clip64_id [simp]: "- (2 ^ 63) \<le> v \<Longrightarrow> v < 2 ^ 63 \<Longrightarrow> clip64 v = v"
  by (simp add: clip64_def)

lemma of_char_dec_digit [simp]: "d < 10 \<Longrightarrow> of_char (dec_digit d) = 48 + d"
  by (simp add: dec_digit_def)

lemma digit_val_dec_digit [simp]: "d < 10 \<Longrightarrow> digit_val (dec_digit d) = Some d"
  by (simp add: digit_val_def)

lemma is_digit_dec_digit [simp]: "d < 10 \<Longrightarrow> is_digit 10 (dec_digit d)"
  by (simp add: is_digit_def)

lemma dec_digit_0: "dec_digit 0 = CHR ''0''"
  by code_simp

lemma dec_digit_neq [simp]:
  assumes "d < 10"
  shows "dec_digit d \<noteq> CHR ''-''" "dec_digit d \<noteq> CHR ''+''" "\<not> is_space (dec_digit d)"
    "dec_digit d = CHR ''0'' \<longleftrightarrow> d = 0"
proof -
  have n: "of_char (dec_digit d) = 48 + d" using assms by simp
  show "dec_digit d \<noteq> CHR ''-''" "dec_digit d \<noteq> CHR ''+''" using n by auto
  show "\<not> is_space (dec_digit d)" using n by (auto simp: is_space_def)
  show "dec_digit d = CHR ''0'' \<longleftrightarrow> d = 0"
  proof
    assume "dec_digit d = CHR ''0''"
    then show "d = 0" using n by simp
  qed (simp add: dec_digit_0)
qed

lemma dec_nat_digits: "c \<in> set (dec_nat n) \<Longrightarrow> \<exists>d<10. c = dec_digit d"
proof (induction n rule: dec_nat.induct)
  case (1 n)
  then show ?case
    by (subst (asm) (2) dec_nat.simps) (auto split: if_splits intro: exI [of _ "n mod 10"])
qed

lemma dec_nat_no: "c \<notin> set (dec_nat n)" if "\<not> is_digit 10 c"
  using that dec_nat_digits [of c n] by auto

lemma dec_nat_not_Nil [simp]: "dec_nat n \<noteq> []"
  by (subst dec_nat.simps) simp

lemma read_digits_append:
  "\<forall>c\<in>set xs. is_digit b c \<Longrightarrow> read_digits b (xs @ ys) acc = read_digits b ys (fst (read_digits b xs acc))"
  by (induction xs arbitrary: acc) auto

lemma read_digits_dec_nat: "fst (read_digits 10 (dec_nat n) 0) = n"
proof (induction n rule: dec_nat.induct)
  case (1 n)
  show ?case
  proof (cases "n < 10")
    case True
    then show ?thesis by (simp add: dec_nat.simps)
  next
    case False
    have "\<forall>c\<in>set (dec_nat (n div 10)). is_digit 10 c"
      using dec_nat_digits by fastforce
    then show ?thesis using False 1 by (subst dec_nat.simps) (simp add: read_digits_append)
  qed
qed

lemma read_digits_stop: "\<not> starts_digit b s \<Longrightarrow> read_digits b s acc = (acc, s)"
  by (cases s) auto

lemma read_dec_nat:
  assumes "\<not> starts_digit 10 rest"
  shows "read_digits 10 (dec_nat n @ rest) 0 = (n, rest)"
proof -
  have "\<forall>c\<in>set (dec_nat n). is_digit 10 c"
    using dec_nat_digits by fastforce
  then show ?thesis
    using assms by (simp add: read_digits_append read_digits_dec_nat read_digits_stop)
qed

lemma hd_dec_nat: "\<exists>d ds. dec_nat n = dec_digit d # ds \<and> d < 10 \<and> (d = 0 \<longrightarrow> n = 0 \<and> ds = [])"
proof (induction n rule: dec_nat.induct)
  case (1 n)
  show ?case
  proof (cases "n < 10")
    case True
    then show ?thesis by (intro exI [of _ n] exI [of _ "[]"]) (simp add: dec_nat.simps)
  next
    case False
    then obtain d ds where "dec_nat (n div 10) = dec_digit d # ds" "d < 10" "d = 0 \<longrightarrow> n div 10 = 0"
      using 1 by blast
    then show ?thesis using False by (subst dec_nat.simps) auto
  qed
qed

text \<open>Base 0 would read a leading zero as octal; a printed number has none unless it is 0 itself.\<close>

lemma strtol_raw_dec_nat:
  assumes rest: "\<not> starts_digit 10 rest" "\<not> hex_prefix (CHR ''0'' # rest)" and base: "base = 0 \<or> base = 10"
  shows "strtol_raw base (dec_nat n @ rest) = (int n, rest)"
proof -
  obtain d ds where d: "dec_nat n = dec_digit d # ds" "d < 10" "d = 0 \<longrightarrow> n = 0 \<and> ds = []"
    using hd_dec_nat by blast
  have sign: "read_sign (dropWhile is_space (dec_nat n @ rest)) = (False, dec_nat n @ rest)"
    using d by simp
  show ?thesis
  proof (cases "base = 0 \<and> d = 0")
    case True
    have oct: "is_digit 8 (dec_digit 0)" "digit_val (dec_digit 0) = Some 0"
      by (simp_all add: is_digit_def)
    have "\<not> starts_digit 8 rest" using rest(1) by (cases rest) (auto simp: is_digit_def split: option.splits)
    then show ?thesis
      unfolding strtol_raw_def Let_def sign
      using True d rest oct by (simp add: dec_digit_0 read_digits_stop)
  next
    case False
    have nz: "\<not> hex_prefix (dec_digit d # ds @ rest)" if "d \<noteq> 0"
      using that d(2) by (cases "ds @ rest"; cases "tl (ds @ rest)") auto
    have "number_base base (dec_nat n @ rest) = (10, dec_nat n @ rest)"
      using False base d nz by auto
    moreover have "starts_digit 10 (dec_nat n @ rest)" using d by simp
    ultimately show ?thesis
      unfolding strtol_raw_def Let_def sign using read_dec_nat [OF rest(1)] by simp
  qed
qed

lemma CR_props [simp]: "\<not> is_digit b CR" "CR \<noteq> LF" "CR \<noteq> CHR ''x''" "CR \<noteq> CHR ''X''"
  by (auto simp: is_digit_def digit_val_def CR_def LF_def)

lemma hex_prefix_0_CR [simp]: "\<not> hex_prefix (CHR ''0'' # CR # s)"
  by (cases s) auto

lemma strtol_dec_CR:
  assumes "n < 2 ^ 63"
  shows "strtol 0 (dec_nat n @ CR # s) = (int n, CR # s)" "strtol 10 (dec_nat n @ CR # s) = (int n, CR # s)"
  using assms by (simp_all add: strtol_def strtol_raw_dec_nat)

lemma starts_with_append [simp]: "starts_with lit (lit @ s)"
  by (simp add: starts_with_def)

lemma starts_with_prefix: "starts_with lit p \<longleftrightarrow> prefix lit p"
  by (metis append_eq_conv_conj append_take_drop_id prefix_def starts_with_def)

lemma find_at_Some:
  "find_at pat s = Some i \<Longrightarrow> starts_with pat (drop i s) \<and> (\<forall>j<i. \<not> starts_with pat (drop j s))"
proof (induction s arbitrary: i)
  case (Cons c cs)
  then show ?case
    by (auto simp: less_Suc_eq_0_disj split: if_splits)
qed (auto simp: starts_with_def split: if_splits)

lemma all_less_Suc_split: "(\<forall>j<Suc n. P j) \<longleftrightarrow> P 0 \<and> (\<forall>j<n. P (Suc j))"
  using less_Suc_eq_0_disj by auto

lemma find_at_None: "find_at pat s = None \<longleftrightarrow> (\<forall>j\<le>length s. \<not> starts_with pat (drop j s))"
proof (induction s)
  case (Cons c cs)
  have "(\<forall>j<Suc (length (c # cs)). \<not> starts_with pat (drop j (c # cs))) \<longleftrightarrow>
     \<not> starts_with pat (c # cs) \<and> (\<forall>j<Suc (length cs). \<not> starts_with pat (drop j cs))"
    by (subst all_less_Suc_split) simp
  then show ?case using Cons by (simp add: less_Suc_eq_le)
qed (simp add: starts_with_def)

end
