(* ===== verification/CDouble.thy ===== *)
theory CDouble
  imports CString
begin

text \<open>
  The C type \<open>double\<close> as the code uses it for scores: the 64 bit IEEE 754 pattern, printed with \<open>%lf\<close>
  (the exact value rounded to six decimals, ties to even), truncated to \<open>int64_t\<close>, and read with
  \<open>strtod\<close> in decimal notation with correct rounding.  Hexadecimal floating literals are not read: the
  text comes from a Redis server, which prints scores in decimal.
\<close>


section \<open>Definitions\<close>

type_synonym dbl = u64

definition dbl_neg :: "dbl \<Rightarrow> bool" where
  "dbl_neg x = bit x 63"

definition dbl_exp :: "dbl \<Rightarrow> nat" where
  "dbl_exp x = unat (take_bit 11 (drop_bit 52 x))"

definition dbl_man :: "dbl \<Rightarrow> nat" where
  "dbl_man x = unat (take_bit 52 x)"

definition dbl_finite :: "dbl \<Rightarrow> bool" where
  "dbl_finite x \<longleftrightarrow> dbl_exp x \<noteq> 2047"

text \<open>The magnitude of a finite value as a fraction.\<close>

definition dbl_num :: "dbl \<Rightarrow> nat" where
  "dbl_num x = (if dbl_exp x = 0 then dbl_man x else (2 ^ 52 + dbl_man x) * 2 ^ (dbl_exp x - 1075))"

definition dbl_den :: "dbl \<Rightarrow> nat" where
  "dbl_den x = (if dbl_exp x = 0 then 2 ^ 1074 else 2 ^ (1075 - dbl_exp x))"

definition round_half_even :: "nat \<Rightarrow> nat \<Rightarrow> nat" where
  "round_half_even n d =
    (let q = n div d; r = n mod d in if 2 * r > d \<or> (2 * r = d \<and> odd q) then q + 1 else q)"

fun pad_left :: "nat \<Rightarrow> bytes \<Rightarrow> bytes" where
  "pad_left n s = replicate (n - length s) (CHR ''0'') @ s"

definition fmt_lf :: "dbl \<Rightarrow> bytes" where
  "fmt_lf x =
    (let sgn = (if dbl_neg x then ''-'' else '''') in
     if \<not> dbl_finite x then sgn @ (if dbl_man x = 0 then ''inf'' else ''nan'')
     else
       let s = round_half_even (dbl_num x * 10 ^ 6) (dbl_den x) in
       sgn @ dec_nat (s div 10 ^ 6) @ ''.'' @ pad_left 6 (dec_nat (s mod 10 ^ 6)))"

text \<open>\<open>(int64_t) x\<close> truncates; out of range it is undefined.\<close>

definition dbl_to_int64 :: "dbl \<Rightarrow> int result" where
  "dbl_to_int64 x =
    (if \<not> dbl_finite x then Inl Out_of_range
     else
       let q = int (dbl_num x div dbl_den x); v = (if dbl_neg x then - q else q) in
       if - (2 ^ 63) \<le> v \<and> v < 2 ^ 63 then Inr v else Inl Out_of_range)"

fun bit_len :: "nat \<Rightarrow> nat" where
  "bit_len n = (if n = 0 then 0 else Suc (bit_len (n div 2)))"

declare bit_len.simps [simp del]

text \<open>The double nearest to the fraction \<open>n / d\<close>, and whether it leaves the range.\<close>

definition dbl_of_ratio :: "nat \<Rightarrow> nat \<Rightarrow> dbl \<times> bool" where
  "dbl_of_ratio n d =
    (if n = 0 then (0, False)
     else
       let scale = (\<lambda>e :: int. (n * 2 ^ nat (- e), d * 2 ^ nat e));
           e0 = max (- 1074) (int (bit_len n) - int (bit_len d) - 53);
           e1 = (case scale e0 of (a, b) \<Rightarrow> if a div b \<ge> 2 ^ 53 then e0 + 1 else e0);
           m1 = (case scale e1 of (a, b) \<Rightarrow> round_half_even a b);
           exact = (case scale e1 of (a, b) \<Rightarrow> a mod b = 0);
           (m, e) = (if m1 = 2 ^ 53 then (2 ^ 52, e1 + 1) else (m1, e1)) in
       if m < 2 ^ 52 then (word_of_nat m, \<not> exact)
       else if e + 1075 \<ge> 2047 then (word_of_nat (2047 * 2 ^ 52), True)
       else (word_of_nat (nat (e + 1075) * 2 ^ 52 + (m - 2 ^ 52)), False))"

fun lower_prefix :: "bytes \<Rightarrow> bytes \<Rightarrow> bool" where
  "lower_prefix lit s = starts_with lit (map lower (take (length lit) s))"

text \<open>The exponent part, read only when a digit follows the letter and the sign.\<close>

definition read_exponent :: "bytes \<Rightarrow> int \<times> bytes" where
  "read_exponent s =
    (case s of [] \<Rightarrow> (0, s)
     | c # cs \<Rightarrow>
       if c = CHR ''e'' \<or> c = CHR ''E'' then
         let (neg, u) = read_sign cs in
         if starts_digit 10 u
         then let (n, rest) = read_digits 10 u 0 in (if neg then - int n else int n, rest)
         else (0, s)
       else (0, s))"

text \<open>\<open>strtod\<close>: the value, the end pointer and whether \<open>errno\<close> is set to \<open>ERANGE\<close>.\<close>

definition strtod :: "bytes \<Rightarrow> dbl \<times> bytes \<times> bool" where
  "strtod s =
    (let (neg, u) = read_sign (dropWhile is_space s);
         sgn = (if neg then 2 ^ 63 else 0 :: dbl) in
     if lower_prefix ''infinity'' u then (sgn OR word_of_nat (2047 * 2 ^ 52), drop 8 u, False)
     else if lower_prefix ''inf'' u then (sgn OR word_of_nat (2047 * 2 ^ 52), drop 3 u, False)
     else if lower_prefix ''nan'' u then (sgn OR word_of_nat (4095 * 2 ^ 51), drop 3 u, False)
     else
       let (ip, r1) = read_digits 10 u 0;
           (fp, r2) = (case r1 of
               [] \<Rightarrow> (ip, r1)
             | c # cs \<Rightarrow>
                 if c = CHR ''.'' \<and> (starts_digit 10 u \<or> starts_digit 10 cs)
                 then read_digits 10 cs ip else (ip, r1));
           fracs = (if length r1 > length r2 then length r1 - length r2 - 1 else 0) in
       if length u = length r2 then (0, s, False)
       else
         let (ex, r3) = read_exponent r2; k = ex - int fracs;
             (x, erange) = dbl_of_ratio (fp * 10 ^ nat k) (10 ^ nat (- k)) in
         (sgn OR x, r3, erange))"


section \<open>Lemmas\<close>

lemma dbl_den_pos [simp]: "dbl_den x > 0"
  by (simp add: dbl_den_def)

lemma round_half_even_exact [simp]: "d > 0 \<Longrightarrow> round_half_even (n * d) d = n"
  by (simp add: round_half_even_def)

lemma round_half_even_bounds:
  assumes "d > 0"
  shows "2 * (round_half_even n d * d) \<le> 2 * n + d \<and> 2 * n \<le> 2 * (round_half_even n d * d) + d"
proof -
  define q r where "q = n div d" and "r = n mod d"
  have n: "n = q * d + r" and r: "r < d" using assms by (simp_all add: q_def r_def)
  have "round_half_even n d = (if 2 * r > d \<or> (2 * r = d \<and> odd q) then q + 1 else q)"
    by (simp add: round_half_even_def q_def r_def Let_def)
  then show ?thesis using n r by (auto simp: algebra_simps)
qed

end
