(* ===== verification/QkTypes.thy ===== *)
theory QkTypes
  imports StdMap CDouble
begin

text \<open>
  The data of the proxy: the structures of \<open>src/common/common.h\<close> and the constants of
  \<open>qkpack_common.h\<close>.  Structure members become record fields with a short prefix (\<open>kv_\<close>, \<open>zq_\<close>,
  \<open>zm_\<close>, \<open>sr_\<close>, \<open>rq_\<close>, \<open>acl_\<close> and so on).  Three choices are explicit.  The \<open>parent\<close> pointer is
  not a field: operations that follow it take the parent request as a separate, optional argument.
  The pointers \<open>kvpair_t *\<close> stored in \<open>map_slots_kv\<close> point into \<open>vector_kv\<close> or into a vector of
  \<open>map_kv\<close> of the same request; they are references \<open>kvref\<close>, resolved through that request, so the
  aliasing is kept.  \<open>kvpair_t::limit\<close> and \<open>kvpair_t::compress_threshold\<close> have no initialiser and are
  read in places where they may be unset, so they are optional; the other members the constructors leave
  indeterminate are written before they are read and start from a fixed value.
\<close>

named_theorems uris \<open>request paths\<close>

section \<open>Constants\<close>

definition REDIS_TTL :: int where [codes]: "REDIS_TTL = 2"
definition REDIS_GET :: int where [codes]: "REDIS_GET = 5"
definition REDIS_SCARD :: int where [codes]: "REDIS_SCARD = 19"
definition REDIS_SISMEMBER :: int where [codes]: "REDIS_SISMEMBER = 20"
definition REDIS_SMEMBERS :: int where [codes]: "REDIS_SMEMBERS = 21"
definition REDIS_ZRANGE :: int where [codes]: "REDIS_ZRANGE = 25"
definition REDIS_ZRANGEBYSCORE :: int where [codes]: "REDIS_ZRANGEBYSCORE = 26"
definition REDIS_BATCHZRANGEBYSCORE :: int where [codes]: "REDIS_BATCHZRANGEBYSCORE = 27"
definition REDIS_DEL :: int where [codes]: "REDIS_DEL = 32"
definition REDIS_INCR :: int where [codes]: "REDIS_INCR = 41"
definition REDIS_INCRBY :: int where [codes]: "REDIS_INCRBY = 42"
definition REDIS_SET :: int where [codes]: "REDIS_SET = 45"
definition REDIS_SADD :: int where [codes]: "REDIS_SADD = 65"
definition REDIS_SREM :: int where [codes]: "REDIS_SREM = 67"
definition REDIS_ZADD :: int where [codes]: "REDIS_ZADD = 68"
definition REDIS_ZBATCHADD :: int where [codes]: "REDIS_ZBATCHADD = 69"
definition REDIS_MGET :: int where [codes]: "REDIS_MGET = 75"
definition REDIS_MSET :: int where [codes]: "REDIS_MSET = 76"
definition REDIS_UNKNOWN :: int where [codes]: "REDIS_UNKNOWN = 78"

definition QKPACK_OPERATION_READ :: int where [codes]: "QKPACK_OPERATION_READ = 1"
definition QKPACK_OPERATION_WRITE :: int where [codes]: "QKPACK_OPERATION_WRITE = 2"

definition QKPACK_SUBREQUEST_START :: int where [codes]: "QKPACK_SUBREQUEST_START = 0"
definition QKPACK_SUBREQUEST_MGET :: int where [codes]: "QKPACK_SUBREQUEST_MGET = 1"
definition QKPACK_SUBREQUEST_MSET :: int where [codes]: "QKPACK_SUBREQUEST_MSET = 2"
definition QKPACK_SUBREQUEST_ZFIXEDSET_ADD :: int where [codes]: "QKPACK_SUBREQUEST_ZFIXEDSET_ADD = 3"
definition QKPACK_SUBREQUEST_ZFIXEDSET_BATCHADD :: int where [codes]: "QKPACK_SUBREQUEST_ZFIXEDSET_BATCHADD = 4"
definition QKPACK_SUBREQUEST_ZFIXEDSET_GETBYSCORE :: int where [codes]: "QKPACK_SUBREQUEST_ZFIXEDSET_GETBYSCORE = 5"
definition QKPACK_SUBREQUEST_ZFIXEDSET_BATCHGETBYSCORE :: int where [codes]: "QKPACK_SUBREQUEST_ZFIXEDSET_BATCHGETBYSCORE = 6"
definition QKPACK_SUBREQUEST_DONE :: int where [codes]: "QKPACK_SUBREQUEST_DONE = 7"

definition QKPACK_RESPONSE_CODE_OK :: int where [codes]: "QKPACK_RESPONSE_CODE_OK = 0"
definition QKPACK_RESPONSE_CODE_UNKNOWN :: int where [codes]: "QKPACK_RESPONSE_CODE_UNKNOWN = 1000"
definition QKPACK_RESPONSE_CODE_PARSE_ERROR :: int where [codes]: "QKPACK_RESPONSE_CODE_PARSE_ERROR = 2000"
definition QKPACK_RESPONSE_CODE_ILLEGAL_RIGHT :: int where [codes]: "QKPACK_RESPONSE_CODE_ILLEGAL_RIGHT = 3000"
definition QKPACK_RESPONSE_CODE_5XX_TIMEOUT :: int where [codes]: "QKPACK_RESPONSE_CODE_5XX_TIMEOUT = 4000"
definition QKPACK_RESPONSE_CODE_REDIS_STORAGE_ERROR :: int where [codes]: "QKPACK_RESPONSE_CODE_REDIS_STORAGE_ERROR = 5000"

definition QKPACK_URI_GET :: bytes where [uris]: "QKPACK_URI_GET = ''/hdp/kvstore/kv/get''"
definition QKPACK_URI_SET :: bytes where [uris]: "QKPACK_URI_SET = ''/hdp/kvstore/kv/set''"
definition QKPACK_URI_DEL :: bytes where [uris]: "QKPACK_URI_DEL = ''/hdp/kvstore/kv/del''"
definition QKPACK_URI_TTL :: bytes where [uris]: "QKPACK_URI_TTL = ''/hdp/kvstore/kv/ttl''"
definition QKPACK_URI_INCR :: bytes where [uris]: "QKPACK_URI_INCR = ''/hdp/kvstore/kv/incr''"
definition QKPACK_URI_INCRBY :: bytes where [uris]: "QKPACK_URI_INCRBY = ''/hdp/kvstore/kv/incrby''"
definition QKPACK_URI_MGET :: bytes where [uris]: "QKPACK_URI_MGET = ''/hdp/kvstore/kv/mget''"
definition QKPACK_URI_MSET :: bytes where [uris]: "QKPACK_URI_MSET = ''/hdp/kvstore/kv/mset''"
definition QKPACK_URI_SET_SADD :: bytes where [uris]: "QKPACK_URI_SET_SADD = ''/hdp/kvstore/set/sadd''"
definition QKPACK_URI_SET_SREM :: bytes where [uris]: "QKPACK_URI_SET_SREM = ''/hdp/kvstore/set/srem''"
definition QKPACK_URI_SET_SCARD :: bytes where [uris]: "QKPACK_URI_SET_SCARD = ''/hdp/kvstore/set/scard''"
definition QKPACK_URI_SET_SMEMBERS :: bytes where [uris]: "QKPACK_URI_SET_SMEMBERS = ''/hdp/kvstore/set/smembers''"
definition QKPACK_URI_SET_SISMEMBER :: bytes where [uris]: "QKPACK_URI_SET_SISMEMBER = ''/hdp/kvstore/set/sismember''"
definition QKPACK_URI_ZFIXEDSET_ADD :: bytes where [uris]: "QKPACK_URI_ZFIXEDSET_ADD = ''/hdp/kvstore/zfixedset/add''"
definition QKPACK_URI_ZFIXEDSET_BATCHADD :: bytes where [uris]: "QKPACK_URI_ZFIXEDSET_BATCHADD = ''/hdp/kvstore/zfixedset/batchadd''"
definition QKPACK_URI_ZFIXEDSET_GETBYSCORE :: bytes where [uris]: "QKPACK_URI_ZFIXEDSET_GETBYSCORE = ''/hdp/kvstore/zfixedset/getbyscore''"
definition QKPACK_URI_ZFIXEDSET_GETBYRANK :: bytes where [uris]: "QKPACK_URI_ZFIXEDSET_GETBYRANK = ''/hdp/kvstore/zfixedset/getbyrank''"
definition QKPACK_URI_ZFIXEDSET_BATCHGETBYSCORE :: bytes where [uris]: "QKPACK_URI_ZFIXEDSET_BATCHGETBYSCORE = ''/hdp/kvstore/zfixedset/batchgetbyscore''"


section \<open>Structures\<close>

record qkpack_conf_t =
  conf_str :: bytes
  conf_add_zset_script :: bytes
  conf_add_multikv_script :: bytes
  conf_incrby_script :: bytes
  conf_add_rset_script :: bytes
  conf_acl_url :: bytes
  conf_timeout :: int

record zset_member_t =
  zm_member :: bytes
  zm_value :: bytes
  zm_score :: dbl

record zset_query_t =
  zq_min :: dbl
  zq_max :: dbl
  zq_ws :: bool
  zq_asc :: bool

record kvpair_t =
  kv_exptime :: int
  kv_slot_id :: int
  kv_num :: int
  kv_moved_ask :: int
  kv_command_type :: int
  kv_operation_type :: int
  kv_compress_threshold :: "int option"
  kv_limit :: "int option"
  kv_key :: bytes
  kv_value :: bytes
  kv_score :: dbl
  kv_proto_str :: bytes
  kv_command :: bytes
  kv_script_name :: bytes
  kv_metrics_command :: bytes
  kv_namespaces :: bytes
  kv_uri_id :: bytes

definition new_zset_query :: zset_query_t where
  "new_zset_query = \<lparr>zq_min = 0, zq_max = 0, zq_ws = False, zq_asc = False\<rparr>"

definition new_kvpair :: kvpair_t where
  "new_kvpair = \<lparr>kv_exptime = 604800, kv_slot_id = - 1, kv_num = 0, kv_moved_ask = 0,
     kv_command_type = REDIS_UNKNOWN, kv_operation_type = 0, kv_compress_threshold = None,
     kv_limit = None, kv_key = [], kv_value = [], kv_score = 0, kv_proto_str = [], kv_command = [],
     kv_script_name = [], kv_metrics_command = [], kv_namespaces = ''null'', kv_uri_id = ''null''\<rparr>"

record route_t =
  route_defaults :: bytes
  route_map_client :: "(bytes, bytes) smap"
  route_map_server :: "(bytes, bytes) smap"
  route_is_match_ip :: bool

record limit_policies_t =
  lp_min :: int
  lp_max :: int
  lp_limit :: int

record timeouts_t =
  to_interface_name :: bytes
  to_timeout :: int
  to_tries :: int

record limits_length_t =
  ll_interface_name :: bytes
  ll_keylen :: int
  ll_vallen :: int
  ll_datalen :: int

record quotation_t =
  quo_expire :: int
  quo_compress_threshold :: int
  quo_vector_policies :: "limit_policies_t list"
  quo_vector_timeouts :: "timeouts_t list"
  quo_vector_limits_length :: "limits_length_t list"
  quo_limit :: int

record qkpack_acl_t =
  acl_uri_id :: bytes
  acl_operation :: int
  acl_quotation :: quotation_t
  acl_route :: route_t

text \<open>The elements of \<open>subrequest\<close> and \<open>vector_sub\<close>: requests of which only the members
  \<open>SetSubRequest\<close> writes are used.\<close>

record subrequest_t =
  sr_is_subrequest :: bool
  sr_request_uri :: bytes
  sr_args :: bytes
  sr_ak :: bytes
  sr_uri :: bytes
  sr_status :: int

datatype kvref = InVec nat | InMap bytes nat

text \<open>A request.  The process number and the time stamps, which only the metrics use, are left out; the parent is an
  argument of the operations that follow the pointer.\<close>

record qkpack_request_t =
  rq_vector_sub :: "subrequest_t list"
  rq_subrequest :: "subrequest_t list"
  rq_is_subrequest :: bool
  rq_slot_id :: int
  rq_request_uri :: bytes
  rq_args :: bytes
  rq_uri :: bytes
  rq_ak :: bytes
  rq_host :: bytes
  rq_x_real_ip :: bytes
  rq_request_buffer :: bytes
  rq_response_buffer :: bytes
  rq_node_ip :: bytes
  rq_cluster_name :: bytes
  rq_status :: int
  rq_timeout :: int
  rq_tries :: int
  rq_now_tries :: int
  rq_code :: int
  rq_desc :: bytes
  rq_cost :: int
  rq_phase :: int
  rq_kvpair :: kvpair_t
  rq_map_kv :: "(bytes, kvpair_t list) smap"
  rq_map_slots_kv :: "(int, kvref list) smap"
  rq_vector_kv :: "kvpair_t list"
  rq_map_query :: "(bytes, zset_query_t) smap"
  rq_vector_mbs :: "zset_member_t list"

definition new_subrequest :: subrequest_t where
  "new_subrequest = \<lparr>sr_is_subrequest = False, sr_request_uri = [], sr_args = [], sr_ak = ''null'', sr_uri = [], sr_status = 0\<rparr>"

definition new_request :: qkpack_request_t where
  "new_request = \<lparr>rq_vector_sub = [], rq_subrequest = [], rq_is_subrequest = False, rq_slot_id = - 1,
     rq_request_uri = [], rq_args = [], rq_uri = [], rq_ak = ''null'', rq_host = [], rq_x_real_ip = [],
     rq_request_buffer = [], rq_response_buffer = [], rq_node_ip = [], rq_cluster_name = [],
     rq_status = 0, rq_timeout = 0, rq_tries = 0, rq_now_tries = 0, rq_code = 0, rq_desc = [],
     rq_cost = 0, rq_phase = 0, rq_kvpair = new_kvpair, rq_map_kv = [], rq_map_slots_kv = [],
     rq_vector_kv = [], rq_map_query = [], rq_vector_mbs = []\<rparr>"

text \<open>Following a \<open>kvpair_t *\<close> and assigning the \<open>value\<close> of what it points to.\<close>

fun kv_deref :: "qkpack_request_t \<Rightarrow> kvref \<Rightarrow> kvpair_t option" where
  "kv_deref r (InVec i) = (if i < length (rq_vector_kv r) then Some (rq_vector_kv r ! i) else None)"
| "kv_deref r (InMap k i) =
    (case smap_get (rq_map_kv r) k of None \<Rightarrow> None
     | Some kvs \<Rightarrow> if i < length kvs then Some (kvs ! i) else None)"

fun kv_set_value :: "bytes \<Rightarrow> kvref \<Rightarrow> qkpack_request_t \<Rightarrow> qkpack_request_t" where
  "kv_set_value v (InVec i) r =
    r\<lparr>rq_vector_kv := (rq_vector_kv r)[i := (rq_vector_kv r ! i)\<lparr>kv_value := v\<rparr>]\<rparr>"
| "kv_set_value v (InMap k i) r =
    (case smap_get (rq_map_kv r) k of None \<Rightarrow> r
     | Some kvs \<Rightarrow> r\<lparr>rq_map_kv := smap_put k (kvs[i := (kvs ! i)\<lparr>kv_value := v\<rparr>]) (rq_map_kv r)\<rparr>)"

abbreviation upd_kv :: "(kvpair_t \<Rightarrow> kvpair_t) \<Rightarrow> qkpack_request_t \<Rightarrow> qkpack_request_t" where
  "upd_kv f r \<equiv> r\<lparr>rq_kvpair := f (rq_kvpair r)\<rparr>"


section \<open>References\<close>

lemma kv_deref_set_value:
  assumes "kv_deref r p \<noteq> None"
  shows "kv_deref (kv_set_value v p r) q =
    (if p = q then map_option (\<lambda>k. k\<lparr>kv_value := v\<rparr>) (kv_deref r q) else kv_deref r q)"
  using assms
  by (cases p; cases q) (auto simp: smap_get_put nth_list_update split: option.splits if_splits)

lemma kv_set_value_frame [frames]:
  "rq_map_slots_kv (kv_set_value v p r) = rq_map_slots_kv r"
  "rq_kvpair (kv_set_value v p r) = rq_kvpair r"
  "rq_code (kv_set_value v p r) = rq_code r"
  "length (rq_vector_kv (kv_set_value v p r)) = length (rq_vector_kv r)"
  by (cases p; simp split: option.split)+

end
