(* ===== verification/QkNames.thy ===== *)
theory QkNames
  imports QkTypes
begin

text \<open>
  The string constants of \<open>qkpack_common.h\<close>: keys of the configuration file, of the response of the
  authority service and of the interface bodies, and the texts of the errors sent back to clients.
  Their defining equations are collected in \<open>names\<close>.
\<close>

named_theorems names \<open>string constants of the headers\<close>


section \<open>Keys of the configuration file\<close>

definition QKPACK_CONF_ACL_URL :: bytes where [names]: "QKPACK_CONF_ACL_URL = ''aclUrl''"
definition QKPACK_CONF_TIMEOUT :: bytes where [names]: "QKPACK_CONF_TIMEOUT = ''timeout''"
definition QKPACK_CONF_ADD_ZSET_SCRIPT :: bytes where [names]: "QKPACK_CONF_ADD_ZSET_SCRIPT = ''addZSetScript''"
definition QKPACK_CONF_ADD_MULTIKV_SCRIPT :: bytes where [names]: "QKPACK_CONF_ADD_MULTIKV_SCRIPT = ''addMultiKVScript''"
definition QKPACK_CONF_INCRBY_SCRIPT :: bytes where [names]: "QKPACK_CONF_INCRBY_SCRIPT = ''incrByScript''"
definition QKPACK_CONF_ADD_RSET_SCRIPT :: bytes where [names]: "QKPACK_CONF_ADD_RSET_SCRIPT = ''addRSetScript''"

section \<open>Keys of the authority response\<close>

definition QKPACK_ACL_URI_FORMAT :: bytes where [names]: "QKPACK_ACL_URI_FORMAT = ''qkd://''"
definition QKPACK_ACL_URI_ID :: bytes where [names]: "QKPACK_ACL_URI_ID = ''uri_id''"
definition QKPACK_ACL_OPERATION :: bytes where [names]: "QKPACK_ACL_OPERATION = ''operation''"
definition QKPACK_ACL_QUOTATION :: bytes where [names]: "QKPACK_ACL_QUOTATION = ''quotation''"
definition QKPACK_ACL_QUOTATION_EXPIRE :: bytes where [names]: "QKPACK_ACL_QUOTATION_EXPIRE = ''expire''"
definition QKPACK_ACL_QUOTATION_COMMPRESSTHRESHOLD :: bytes where [names]: "QKPACK_ACL_QUOTATION_COMMPRESSTHRESHOLD = ''compressThreshold''"
definition QKPACK_ACL_QUOTATION_LIMITPOLICIES :: bytes where [names]: "QKPACK_ACL_QUOTATION_LIMITPOLICIES = ''limitPolicies''"
definition QKPACK_ACL_QUOTATION_LIMITPOLICIES_MIN :: bytes where [names]: "QKPACK_ACL_QUOTATION_LIMITPOLICIES_MIN = ''min''"
definition QKPACK_ACL_QUOTATION_LIMITPOLICIES_MAX :: bytes where [names]: "QKPACK_ACL_QUOTATION_LIMITPOLICIES_MAX = ''max''"
definition QKPACK_ACL_QUOTATION_LIMITPOLICIES_LIMIT :: bytes where [names]: "QKPACK_ACL_QUOTATION_LIMITPOLICIES_LIMIT = ''limit''"
definition QKPACK_ACL_QUOTATION_TIMEOUTS :: bytes where [names]: "QKPACK_ACL_QUOTATION_TIMEOUTS = ''timeouts''"
definition QKPACK_ACL_QUOTATION_TIMEOUTS_INTERFACENAME :: bytes where [names]: "QKPACK_ACL_QUOTATION_TIMEOUTS_INTERFACENAME = ''interfaceName''"
definition QKPACK_ACL_QUOTATION_TIMEOUTS_TIMEOUT :: bytes where [names]: "QKPACK_ACL_QUOTATION_TIMEOUTS_TIMEOUT = ''timeout''"
definition QKPACK_ACL_QUOTATION_TIMEOUTS_TRIES :: bytes where [names]: "QKPACK_ACL_QUOTATION_TIMEOUTS_TRIES = ''tries''"
definition QKPACK_ACL_QUOTATION_LIMITSLENGTH :: bytes where [names]: "QKPACK_ACL_QUOTATION_LIMITSLENGTH = ''limitsLength''"
definition QKPACK_ACL_QUOTATION_LIMITSLENGTH_INTERFACENAME :: bytes where [names]: "QKPACK_ACL_QUOTATION_LIMITSLENGTH_INTERFACENAME = ''interfaceName''"
definition QKPACK_ACL_QUOTATION_LIMITSLENGTH_KEYLEN :: bytes where [names]: "QKPACK_ACL_QUOTATION_LIMITSLENGTH_KEYLEN = ''keylen''"
definition QKPACK_ACL_QUOTATION_LIMITSLENGTH_VALLEN :: bytes where [names]: "QKPACK_ACL_QUOTATION_LIMITSLENGTH_VALLEN = ''vallen''"
definition QKPACK_ACL_QUOTATION_LIMITSLENGTH_DATALEN :: bytes where [names]: "QKPACK_ACL_QUOTATION_LIMITSLENGTH_DATALEN = ''datalen''"
definition QKPACK_ACL_ROUTE :: bytes where [names]: "QKPACK_ACL_ROUTE = ''route''"
definition QKPACK_ACL_ROUTE_DEFAULT :: bytes where [names]: "QKPACK_ACL_ROUTE_DEFAULT = ''default''"
definition QKPACK_ACL_ROUTE_CLIENT :: bytes where [names]: "QKPACK_ACL_ROUTE_CLIENT = ''client''"
definition QKPACK_ACL_ROUTE_SERVER :: bytes where [names]: "QKPACK_ACL_ROUTE_SERVER = ''server''"
definition QKPACK_ACL_NAMESPACE_LENGTH :: nat where [codes]: "QKPACK_ACL_NAMESPACE_LENGTH = 2"

section \<open>Keys of requests and responses\<close>

definition QKPACK_JSON_URI :: bytes where [names]: "QKPACK_JSON_URI = ''uri''"
definition QKPACK_JSON_AK :: bytes where [names]: "QKPACK_JSON_AK = ''ak''"
definition QKPACK_JSON_KEY :: bytes where [names]: "QKPACK_JSON_KEY = ''k''"
definition QKPACK_JSON_VALUE :: bytes where [names]: "QKPACK_JSON_VALUE = ''v''"
definition QKPACK_JSON_KEYS :: bytes where [names]: "QKPACK_JSON_KEYS = ''ks''"
definition QKPACK_JSON_MBS :: bytes where [names]: "QKPACK_JSON_MBS = ''mbs''"
definition QKPACK_JSON_MB :: bytes where [names]: "QKPACK_JSON_MB = ''mb''"
definition QKPACK_JSON_SC :: bytes where [names]: "QKPACK_JSON_SC = ''sc''"
definition QKPACK_JSON_V :: bytes where [names]: "QKPACK_JSON_V = ''v''"
definition QKPACK_JSON_MIN :: bytes where [names]: "QKPACK_JSON_MIN = ''min''"
definition QKPACK_JSON_MAX :: bytes where [names]: "QKPACK_JSON_MAX = ''max''"
definition QKPACK_JSON_WS :: bytes where [names]: "QKPACK_JSON_WS = ''ws''"
definition QKPACK_JSON_ASC :: bytes where [names]: "QKPACK_JSON_ASC = ''asc''"
definition QKPACK_JSON_DATA :: bytes where [names]: "QKPACK_JSON_DATA = ''data''"
definition QKPACK_JSON_CODE :: bytes where [names]: "QKPACK_JSON_CODE = ''code''"
definition QKPACK_JSON_DESC :: bytes where [names]: "QKPACK_JSON_DESC = ''desc''"
definition QKPACK_JSON_E :: bytes where [names]: "QKPACK_JSON_E = ''e''"
definition QKPACK_JSON_COST :: bytes where [names]: "QKPACK_JSON_COST = ''cost''"
definition QKPACK_JSON_MC :: bytes where [names]: "QKPACK_JSON_MC = ''mc''"
definition QKPACK_JSON_KC :: bytes where [names]: "QKPACK_JSON_KC = ''kc''"

section \<open>Error texts\<close>

definition QKPACK_ERROR_JSON_FORMAT :: bytes where [names]: "QKPACK_ERROR_JSON_FORMAT = ''json format is illegal''"
definition QKPACK_ERROR_INTERFACE_OPERATION_READ :: bytes where [names]: "QKPACK_ERROR_INTERFACE_OPERATION_READ = ''interface operation to read''"
definition QKPACK_ERROR_INTERFACE_OPERATION_WRITE :: bytes where [names]: "QKPACK_ERROR_INTERFACE_OPERATION_WRITE = ''interface operation to write''"
definition QKPACK_ERROR_KVPAIR_KEY_NOT_EXIST :: bytes where [names]: "QKPACK_ERROR_KVPAIR_KEY_NOT_EXIST = ''kvpair key not exist''"
definition QKPACK_ERROR_KVPAIR_KEY_NOT_EMPTY :: bytes where [names]: "QKPACK_ERROR_KVPAIR_KEY_NOT_EMPTY = ''kvpair key may not be empty''"
definition QKPACK_ERROR_KVPAIR_VALUE_NOT_EXIST :: bytes where [names]: "QKPACK_ERROR_KVPAIR_VALUE_NOT_EXIST = ''kvpair value not exist''"
definition QKPACK_ERROR_KVPAIR_VALUE_NOT_EMPTY :: bytes where [names]: "QKPACK_ERROR_KVPAIR_VALUE_NOT_EMPTY = ''kvpair value may not be empty''"
definition QKPACK_ERROR_KVPAIR_KEYS_NOT_EXIST :: bytes where [names]: "QKPACK_ERROR_KVPAIR_KEYS_NOT_EXIST = ''kvpair ks not exist''"
definition QKPACK_ERROR_KVPAIR_KEYS_NOT_EMPTY :: bytes where [names]: "QKPACK_ERROR_KVPAIR_KEYS_NOT_EMPTY = ''kvpair ks may not be empty''"
definition QKPACK_ERROR_KVPAIR_NUMERIC_VALUE :: bytes where [names]: "QKPACK_ERROR_KVPAIR_NUMERIC_VALUE = ''kvpair value must be a number''"
definition QKPACK_ERROR_TTL_KEY_NO_EXPIRE :: bytes where [names]: "QKPACK_ERROR_TTL_KEY_NO_EXPIRE = ''kvpair the key exists but has no associated expire''"
definition QKPACK_ERROR_TTL_KEY_NOT_EXIST :: bytes where [names]: "QKPACK_ERROR_TTL_KEY_NOT_EXIST = ''kvpair the key does not exist''"
definition QKPACK_ERROR_SET_KEY_NOT_EXIST :: bytes where [names]: "QKPACK_ERROR_SET_KEY_NOT_EXIST = ''set key not exist''"
definition QKPACK_ERROR_SET_KEY_NOT_EMPTY :: bytes where [names]: "QKPACK_ERROR_SET_KEY_NOT_EMPTY = ''set key may not be empty''"
definition QKPACK_ERROR_SET_VALUE_NOT_EXIST :: bytes where [names]: "QKPACK_ERROR_SET_VALUE_NOT_EXIST = ''set value not exist''"
definition QKPACK_ERROR_SET_VALUE_NOT_EMPTY :: bytes where [names]: "QKPACK_ERROR_SET_VALUE_NOT_EMPTY = ''set value may not be empty''"
definition QKPACK_ERROR_SET_MEMBERS_NOT_EXIST :: bytes where [names]: "QKPACK_ERROR_SET_MEMBERS_NOT_EXIST = ''set mbs not exist''"
definition QKPACK_ERROR_SET_MEMBERS_NOT_EMPTY :: bytes where [names]: "QKPACK_ERROR_SET_MEMBERS_NOT_EMPTY = ''set mbs may not be empty''"
definition QKPACK_ERROR_SET_MEMBERS_VALUE_NOT_EMPTY :: bytes where [names]: "QKPACK_ERROR_SET_MEMBERS_VALUE_NOT_EMPTY = ''set mbs value may not be empty''"
definition QKPACK_ERROR_ZSET_KEY_NOT_EXIST :: bytes where [names]: "QKPACK_ERROR_ZSET_KEY_NOT_EXIST = ''zset key not exist''"
definition QKPACK_ERROR_ZSET_KEY_NOT_EMPTY :: bytes where [names]: "QKPACK_ERROR_ZSET_KEY_NOT_EMPTY = ''zset key may not be empty''"
definition QKPACK_ERROR_ZSET_MEMBERS_NOT_EXIST :: bytes where [names]: "QKPACK_ERROR_ZSET_MEMBERS_NOT_EXIST = ''zset mbs not exist''"
definition QKPACK_ERROR_ZSET_MEMBERS_NOT_EMPTY :: bytes where [names]: "QKPACK_ERROR_ZSET_MEMBERS_NOT_EMPTY = ''zset mbs may not be empty''"
definition QKPACK_ERROR_ZSET_MEMBERS_MEMBER_NOT_EXIST :: bytes where [names]: "QKPACK_ERROR_ZSET_MEMBERS_MEMBER_NOT_EXIST = ''zset member not exist''"
definition QKPACK_ERROR_ZSET_MEMBERS_MEMBER_NOT_EMPTY :: bytes where [names]: "QKPACK_ERROR_ZSET_MEMBERS_MEMBER_NOT_EMPTY = ''zset member may not be empty''"
definition QKPACK_ERROR_ZSET_MEMBERS_SCORE_NOT_EXIST :: bytes where [names]: "QKPACK_ERROR_ZSET_MEMBERS_SCORE_NOT_EXIST = ''zset score not exist''"
definition QKPACK_ERROR_ZSET_MEMBERS_VALUE_NOT_EXIST :: bytes where [names]: "QKPACK_ERROR_ZSET_MEMBERS_VALUE_NOT_EXIST = ''zset value not exist''"
definition QKPACK_ERROR_ZSET_MEMBERS_VALUE_NOT_EMPTY :: bytes where [names]: "QKPACK_ERROR_ZSET_MEMBERS_VALUE_NOT_EMPTY = ''zset value may not be empty''"
definition QKPACK_ERROR_ZSET_KEYS_NOT_EXIST :: bytes where [names]: "QKPACK_ERROR_ZSET_KEYS_NOT_EXIST = ''zset ks not exist''"
definition QKPACK_ERROR_ZSET_KEYS_NOT_EMPTY :: bytes where [names]: "QKPACK_ERROR_ZSET_KEYS_NOT_EMPTY = ''zset ks may not be empty''"
definition QKPACK_ERROR_ZSET_QUERY_KEY_NOT_EXIST :: bytes where [names]: "QKPACK_ERROR_ZSET_QUERY_KEY_NOT_EXIST = ''zset query key not exist''"
definition QKPACK_ERROR_ZSET_QUERY_KEY_NOT_EMPTY :: bytes where [names]: "QKPACK_ERROR_ZSET_QUERY_KEY_NOT_EMPTY = ''zset query key may not be empty''"
definition QKPACK_ERROR_ZSET_QUERY_MIN_NOT_EXIST :: bytes where [names]: "QKPACK_ERROR_ZSET_QUERY_MIN_NOT_EXIST = ''zset query min not exist''"
definition QKPACK_ERROR_ZSET_QUERY_MAX_NOT_EXIST :: bytes where [names]: "QKPACK_ERROR_ZSET_QUERY_MAX_NOT_EXIST = ''zset query max not exist''"
definition QKPACK_ERROR_ACL_NOT_NULL :: bytes where [names]: "QKPACK_ERROR_ACL_NOT_NULL = ''acl obj may not be null''"
definition QKPACK_ERROR_ACL_URI_NOT_EXIST :: bytes where [names]: "QKPACK_ERROR_ACL_URI_NOT_EXIST = ''acl uri not exist''"
definition QKPACK_ERROR_ACL_APPKEY_NOT_EXIST :: bytes where [names]: "QKPACK_ERROR_ACL_APPKEY_NOT_EXIST = ''acl appkey not exist''"
definition QKPACK_ERROR_ACL_URI_NOT_EMPTY :: bytes where [names]: "QKPACK_ERROR_ACL_URI_NOT_EMPTY = ''acl uri may not be empty''"
definition QKPACK_ERROR_ACL_APPKEY_NOT_EMPTY :: bytes where [names]: "QKPACK_ERROR_ACL_APPKEY_NOT_EMPTY = ''acl appkey may not be empty''"
definition QKPACK_ERROR_ACL_NO_AUTH :: bytes where [names]: "QKPACK_ERROR_ACL_NO_AUTH = ''acl unauthorized''"
definition QKPACK_ERROR_ACL_FORMAT :: bytes where [names]: "QKPACK_ERROR_ACL_FORMAT = ''acl format illegal''"
definition QKPACK_ERROR_ACL_LIMITSLENGTH_KEYLEN :: bytes where [names]: "QKPACK_ERROR_ACL_LIMITSLENGTH_KEYLEN = ''acl limit keylen too big''"
definition QKPACK_ERROR_ACL_LIMITSLENGTH_VALLEN :: bytes where [names]: "QKPACK_ERROR_ACL_LIMITSLENGTH_VALLEN = ''acl limit vallen too big''"
definition QKPACK_ERROR_ACL_LIMITSLENGTH_DATALEN :: bytes where [names]: "QKPACK_ERROR_ACL_LIMITSLENGTH_DATALEN = ''acl limit datalen too big''"
definition QKPACK_ERROR_ACL_NAMESPACE_NOT_EMPTY :: bytes where [names]: "QKPACK_ERROR_ACL_NAMESPACE_NOT_EMPTY = ''acl namespace may not be empty''"
definition QKPACK_ERROR_ACL_NAMESPACE_LENGTH :: bytes where [names]: "QKPACK_ERROR_ACL_NAMESPACE_LENGTH = ''acl namespace length must be equal to 2''"
definition QKPACK_ERROR_ACL_LIMITPOLICIES_LIMIT :: bytes where [names]: "QKPACK_ERROR_ACL_LIMITPOLICIES_LIMIT = ''key length could not match limit policy, keyLength=''"


section \<open>Names of the commands in the metrics\<close>

definition QKPACK_METRICS_GET :: bytes where [names]: "QKPACK_METRICS_GET = ''get''"
definition QKPACK_METRICS_SET :: bytes where [names]: "QKPACK_METRICS_SET = ''set''"
definition QKPACK_METRICS_DEL :: bytes where [names]: "QKPACK_METRICS_DEL = ''del''"
definition QKPACK_METRICS_TTL :: bytes where [names]: "QKPACK_METRICS_TTL = ''ttl''"
definition QKPACK_METRICS_INCR :: bytes where [names]: "QKPACK_METRICS_INCR = ''incr''"
definition QKPACK_METRICS_INCRBY :: bytes where [names]: "QKPACK_METRICS_INCRBY = ''incrBy''"
definition QKPACK_METRICS_MGET :: bytes where [names]: "QKPACK_METRICS_MGET = ''mget''"
definition QKPACK_METRICS_MSET :: bytes where [names]: "QKPACK_METRICS_MSET = ''mset''"
definition QKPACK_METRICS_SADD :: bytes where [names]: "QKPACK_METRICS_SADD = ''sadd''"
definition QKPACK_METRICS_SREM :: bytes where [names]: "QKPACK_METRICS_SREM = ''srem''"
definition QKPACK_METRICS_SCARD :: bytes where [names]: "QKPACK_METRICS_SCARD = ''scard''"
definition QKPACK_METRICS_SMEMBERS :: bytes where [names]: "QKPACK_METRICS_SMEMBERS = ''smembers''"
definition QKPACK_METRICS_SISMEMBER :: bytes where [names]: "QKPACK_METRICS_SISMEMBER = ''sismember''"
definition QKPACK_METRICS_ZFIXEDSETADD :: bytes where [names]: "QKPACK_METRICS_ZFIXEDSETADD = ''zfixedsetAdd''"
definition QKPACK_METRICS_ZFIXEDSETBATCHADD :: bytes where [names]: "QKPACK_METRICS_ZFIXEDSETBATCHADD = ''zfixedsetBatchAdd''"
definition QKPACK_METRICS_ZFIXEDSETGETBYSCORE :: bytes where [names]: "QKPACK_METRICS_ZFIXEDSETGETBYSCORE = ''zfixedsetGetByScore''"
definition QKPACK_METRICS_ZFIXEDSETGETBYRANK :: bytes where [names]: "QKPACK_METRICS_ZFIXEDSETGETBYRANK = ''zfixedsetGetByRank''"
definition QKPACK_METRICS_ZFIXEDSETBATCHGETBYSCORE :: bytes where [names]: "QKPACK_METRICS_ZFIXEDSETBATCHGETBYSCORE = ''zfixedsetBatchGetByScore''"

end
