(* ===== verification/StringUtil.thy ===== *)
theory StringUtil
  imports CDouble
begin

text \<open>
  The string helpers of \<open>util/string_util.cc\<close> the request path uses, and the stand-alone routines of the
  same class: splitting, trimming, checked number parsing, number printing, big-endian serialisation of
  integers, and Sunday's substring search.
\<close>


section \<open>Definitions\<close>

text \<open>\<open>Split\<close>: the loop does not end when the separator is empty, hence the option.\<close>

partial_function (option) Split_loop ::
  "bytes \<Rightarrow> bytes \<Rightarrow> bool \<Rightarrow> nat \<Rightarrow> bytes list \<Rightarrow> bytes list option" where
  [code]: "Split_loop str sep ignoreEmpty old vec =
    (case find_from str sep old of
       None \<Rightarrow> Some (if \<not> ignoreEmpty \<or> old < length str then vec @ [drop old str] else vec)
     | Some n \<Rightarrow>
         Split_loop str sep ignoreEmpty (n + length sep)
           (if \<not> ignoreEmpty \<or> n \<noteq> old then vec @ [take (n - old) (drop old str)] else vec))"

definition Split :: "bytes \<Rightarrow> bytes \<Rightarrow> bool \<Rightarrow> bytes list option" where
  "Split text sepStr ignoreEmpty = Split_loop text sepStr ignoreEmpty 0 []"

text \<open>The pieces between the occurrences of a non-empty separator.\<close>

function split_on :: "bytes \<Rightarrow> bytes \<Rightarrow> bytes list" where
  "split_on sep s =
    (case find_at sep s of
       None \<Rightarrow> [s]
     | Some n \<Rightarrow> if sep = [] then [s] else take n s # split_on sep (drop (n + length sep) s))"
  by pat_completeness auto
termination
proof (relation "measure (\<lambda>(sep, s). length s)")
  fix sep s and n :: nat
  assume "find_at sep s = Some n" "sep \<noteq> []"
  then have "take (length sep) (drop n s) = sep" using find_at_Some by (auto simp: starts_with_def)
  then have "drop n s \<noteq> []" using \<open>sep \<noteq> []\<close> by auto
  then show "((sep, drop (n + length sep) s), sep, s) \<in> measure (\<lambda>(sep, s). length s)"
    using \<open>sep \<noteq> []\<close> by (cases sep) auto
qed simp

declare split_on.simps [simp del]

fun join_with :: "bytes \<Rightarrow> bytes list \<Rightarrow> bytes" where
  "join_with sep [] = []"
| "join_with sep [x] = x"
| "join_with sep (x # y # ys) = x @ sep @ join_with sep (y # ys)"

text \<open>\<open>Split\<close> as its callers use it: literal non-empty separators, empty pieces dropped.\<close>

definition split_nonempty :: "bytes \<Rightarrow> bytes \<Rightarrow> bytes list" where
  "split_nonempty sep s = filter (\<lambda>p. p \<noteq> []) (split_on sep s)"

definition is_trim_space :: "char \<Rightarrow> bool" where
  "is_trim_space c \<longleftrightarrow> c = CHR '' '' \<or> c = CHR 0x09 \<or> c = CR \<or> c = LF"

definition TrimString :: "bytes \<Rightarrow> bytes" where
  "TrimString s = rev (dropWhile is_trim_space (rev (dropWhile is_trim_space s)))"

text \<open>Checked number parsing: whether the function returns \<open>true\<close>, and what it stores through the
  reference (\<open>None\<close> when it leaves it alone).  The value is stored before the end pointer is looked at.\<close>

definition StrToInt32 :: "bytes \<Rightarrow> bool \<times> int option" where
  "StrToInt32 str =
    (if str = [] then (False, None)
     else
       let (value64, endPtr) = strtol 10 str in
       if value64 < - (2 ^ 31) \<or> value64 > 2 ^ 31 - 1 then (False, None)
       else (\<not> strtol_erange 10 str \<and> endPtr = [], Some value64))"

definition StrToInt8 :: "bytes \<Rightarrow> int option" where
  "StrToInt8 str = (case StrToInt32 str of
       (True, Some v32) \<Rightarrow> if v32 \<ge> - (2 ^ 7) \<and> v32 \<le> 2 ^ 7 - 1 then Some v32 else None
     | _ \<Rightarrow> None)"

definition StrToInt16 :: "bytes \<Rightarrow> int option" where
  "StrToInt16 str = (case StrToInt32 str of
       (True, Some v32) \<Rightarrow> if v32 \<ge> - (2 ^ 15) \<and> v32 \<le> 2 ^ 15 - 1 then Some v32 else None
     | _ \<Rightarrow> None)"

definition StrToInt64 :: "bytes \<Rightarrow> int option" where
  "StrToInt64 str =
    (if str = [] then None
     else
       let (value, endPtr) = strtol 10 str in
       if \<not> strtol_erange 10 str \<and> endPtr = [] then Some value else None)"

definition StrToDouble :: "bytes \<Rightarrow> (bool \<times> dbl) option" where
  "StrToDouble str =
    (if str = [] then None
     else let (value, endPtr, erange) = strtod str in Some (\<not> erange \<and> endPtr = [], value))"

definition StrToInt32WithDefault :: "bytes \<Rightarrow> int \<Rightarrow> int" where
  "StrToInt32WithDefault str d = (case StrToInt32 str of (True, Some v) \<Rightarrow> v | _ \<Rightarrow> d)"

definition StrToInt8WithDefault :: "bytes \<Rightarrow> int \<Rightarrow> int" where
  "StrToInt8WithDefault str d = (case StrToInt8 str of None \<Rightarrow> d | Some v \<Rightarrow> v)"

definition StrToInt16WithDefault :: "bytes \<Rightarrow> int \<Rightarrow> int" where
  "StrToInt16WithDefault str d = (case StrToInt16 str of None \<Rightarrow> d | Some v \<Rightarrow> v)"

definition StrToInt64WithDefault :: "bytes \<Rightarrow> int \<Rightarrow> int" where
  "StrToInt64WithDefault str d = (case StrToInt64 str of None \<Rightarrow> d | Some v \<Rightarrow> v)"

text \<open>The parameter of \<open>ToString\<close> is an \<open>int\<close>: wider arguments are narrowed.  \<open>DoubleToString\<close> prints into
  128 bytes and then copies as many bytes as the full text has.\<close>

definition ToString :: "int \<Rightarrow> bytes" where
  "ToString v = dec_int (to_int v)"

definition DoubleToString :: "dbl \<Rightarrow> bytes result" where
  "DoubleToString v =
    (let s = fmt_lf v in
     if length s < 128 then Inr s
     else if length s = 128 then Inr (take 127 s @ [NUL])
     else Inl Out_of_bounds)"

text \<open>Big-endian serialisation.\<close>

fun serialize_loop :: "nat \<Rightarrow> 'a::len word \<Rightarrow> bytes \<Rightarrow> bytes" where
  "serialize_loop 0 value key = key"
| "serialize_loop (Suc i) value key =
    serialize_loop i (drop_bit 8 value) (char_of (unat (value AND 0xFF)) # key)"

definition SerializeUInt32 :: "u32 \<Rightarrow> bytes" where
  "SerializeUInt32 value = serialize_loop 4 value []"

definition SerializeUInt64 :: "u64 \<Rightarrow> bytes" where
  "SerializeUInt64 value = serialize_loop 8 value []"

definition SerializeUInt128 :: "u64 \<times> u64 \<Rightarrow> bytes" where
  "SerializeUInt128 value = serialize_loop 8 (fst value) (serialize_loop 8 (snd value) [])"

definition deserialize_step :: "'a::len word \<Rightarrow> char \<Rightarrow> 'a word" where
  "deserialize_step value c = push_bit 8 value OR of_char c"

definition DeserializeUInt32 :: "bytes \<Rightarrow> u32 option" where
  "DeserializeUInt32 str = (if length str = 4 then Some (foldl deserialize_step 0 str) else None)"

definition DeserializeUInt64 :: "bytes \<Rightarrow> u64 option" where
  "DeserializeUInt64 str = (if length str = 8 then Some (foldl deserialize_step 0 str) else None)"

definition DeserializeUInt128 :: "bytes \<Rightarrow> (u64 \<times> u64) option" where
  "DeserializeUInt128 str = (if length str = 16
     then Some (foldl deserialize_step 0 (take 8 str), foldl deserialize_step 0 (drop 8 str)) else None)"

text \<open>Sunday's search.  The shift table is indexed by the character behind the window, which is the
  terminator when the window is at the end.\<close>

definition sunday_next :: "bytes \<Rightarrow> char \<Rightarrow> nat" where
  "sunday_next key c =
    fold (\<lambda>i sh. if key ! i = c then length key - i else sh) [0..<length key] (length key + 1)"

function sunday_loop :: "bytes \<Rightarrow> bytes \<Rightarrow> nat \<Rightarrow> nat list \<Rightarrow> nat list" where
  "sunday_loop str key pos posVec =
    (if pos + length key \<le> length str then
       sunday_loop str key
         (pos + sunday_next key ((str @ [NUL]) ! (pos + length key)))
         (if take (length key) (drop pos str) = key then posVec @ [pos] else posVec)
     else posVec)"
  by pat_completeness auto
termination
proof (relation "measure (\<lambda>(str, key, pos, _). Suc (length str) - pos)")
  fix str key :: bytes and pos :: nat and posVec :: "nat list"
  assume le: "pos + length key \<le> length str"
  have "fold (\<lambda>i sh. if key ! i = c then length key - i else sh) xs d \<ge> 1"
    if "\<forall>i\<in>set xs. i < length key" "d \<ge> 1" for c d xs
    using that by (induction xs arbitrary: d) auto
  then have "sunday_next key c \<ge> 1" for c by (simp add: sunday_next_def)
  then show "((str, key, pos + sunday_next key ((str @ [NUL]) ! (pos + length key)),
      if take (length key) (drop pos str) = key then posVec @ [pos] else posVec), str, key, pos, posVec)
    \<in> measure (\<lambda>(str, key, pos, _). Suc (length str) - pos)"
    using le by (simp add: Suc_le_eq diff_less_mono2)
qed simp

declare sunday_loop.simps [simp del]

definition SundaySearch :: "bytes \<Rightarrow> bytes \<Rightarrow> nat list" where
  "SundaySearch text key =
    (if length text < length key \<or> length key = 0 then []
     else if length key = 1 then filter (\<lambda>i. text ! i = key ! 0) [0..<length text]
     else sunday_loop text key 0 [])"

definition occurs_at :: "bytes \<Rightarrow> bytes \<Rightarrow> nat \<Rightarrow> bool" where
  "occurs_at str key i \<longleftrightarrow> i + length key \<le> length str \<and> take (length key) (drop i str) = key"


section \<open>Splitting\<close>

lemma find_from_drop: "old \<le> length str \<Longrightarrow>
    find_from str sep old = map_option (\<lambda>i. old + i) (find_at sep (drop old str))"
  by (simp add: find_from_def)

lemma find_at_bound: "find_at sep s = Some n \<Longrightarrow> n + length sep \<le> length s"
proof -
  assume "find_at sep s = Some n"
  then have "take (length sep) (drop n s) = sep" using find_at_Some by (auto simp: starts_with_def)
  then have "length (take (length sep) (drop n s)) = length sep" by simp
  moreover have "n \<le> length s" using \<open>find_at sep s = Some n\<close>
    by (induction s arbitrary: n) (auto split: if_splits)
  ultimately show ?thesis by simp
qed

lemma Split_loop_split_on:
  assumes "sep \<noteq> []" "old \<le> length str"
  shows "Split_loop str sep ie old vec =
    Some (vec @ filter (\<lambda>p. ie \<longrightarrow> p \<noteq> []) (split_on sep (drop old str)))"
  using assms(2)
proof (induction "length str - old" arbitrary: old vec rule: less_induct)
  case less
  show ?case
  proof (cases "find_at sep (drop old str)")
    case None
    then show ?thesis using less.prems
      by (subst Split_loop.simps) (auto simp: find_from_drop split_on.simps [of sep "drop old str"])
  next
    case (Some n)
    have b: "n + length sep \<le> length str - old" using find_at_bound [OF Some] by simp
    moreover have "0 < length sep" using assms(1) by simp
    ultimately have lt: "length str - (old + n + length sep) < length str - old" by linarith
    have "Split_loop str sep ie old vec = Split_loop str sep ie (old + n + length sep)
        (if \<not> ie \<or> n \<noteq> 0 then vec @ [take n (drop old str)] else vec)"
      using less.prems Some by (subst Split_loop.simps) (simp add: find_from_drop)
    moreover have "split_on sep (drop old str) =
        take n (drop old str) # split_on sep (drop (old + n + length sep) str)"
      using Some assms(1) by (subst split_on.simps) (simp add: add.commute add.left_commute)
    moreover have "take n (drop old str) = [] \<longleftrightarrow> n = 0"
      using b \<open>0 < length sep\<close> by auto
    ultimately show ?thesis
      using less.hyps [OF lt] b less.prems by auto
  qed
qed

lemma Split_nonempty: "sep \<noteq> [] \<Longrightarrow> Split s sep True = Some (split_nonempty sep s)"
  using Split_loop_split_on [of sep 0 s True "[]"] by (simp add: Split_def split_nonempty_def)

lemma split_on_not_Nil [simp]: "split_on sep s \<noteq> []"
  by (subst split_on.simps) (simp split: option.split)

lemma join_with_Cons: "ps \<noteq> [] \<Longrightarrow> join_with sep (x # ps) = x @ sep @ join_with sep ps"
  by (cases ps) simp_all

lemma join_split_on: "sep \<noteq> [] \<Longrightarrow> join_with sep (split_on sep s) = s"
proof (induction sep s rule: split_on.induct)
  case (1 sep s)
  show ?case
  proof (cases "find_at sep s")
    case (Some n)
    have "take (length sep) (drop n s) = sep" using find_at_Some [OF Some] by (simp add: starts_with_def)
    then have "s = take n s @ sep @ drop (n + length sep) s"
      by (metis append_take_drop_id drop_drop add.commute)
    then show ?thesis
      using 1 Some by (subst split_on.simps) (simp add: join_with_Cons)
  qed (simp add: split_on.simps)
qed

lemma split_on_no_sep: "p \<in> set (split_on sep s) \<Longrightarrow> sep \<noteq> [] \<Longrightarrow> find_at sep p = None"
proof (induction sep s rule: split_on.induct)
  case (1 sep s)
  show ?case
  proof (cases "find_at sep s")
    case None
    then show ?thesis using 1 by (simp add: split_on.simps [of sep s])
  next
    case (Some n)
    have "find_at sep (take n s) = None"
    proof -
      have "\<not> starts_with sep (drop j (take n s))" if "j \<le> length (take n s)" for j
      proof
        assume st: "starts_with sep (drop j (take n s))"
        then have "starts_with sep (drop j s)"
          by (metis starts_with_prefix prefix_order.trans drop_take take_is_prefix)
        moreover have "j < n" using st that 1(3)
          by (cases "j < n") (auto simp: starts_with_def)
        ultimately show False using find_at_Some [OF Some] by blast
      qed
      then show ?thesis by (simp add: find_at_None)
    qed
    then show ?thesis using 1 Some by (subst (asm) (2) split_on.simps) auto
  qed
qed

text \<open>with a non-empty separator \<open>Split\<close> ends, its pieces joined by the separator are the text again, no
  piece contains the separator, and dropping empty pieces is the only effect of the flag its callers use.\<close>

theorem Split_pieces:
  assumes "sep \<noteq> []"
  shows "\<exists>ps. Split s sep False = Some ps \<and> join_with sep ps = s \<and>
    (\<forall>p\<in>set ps. find_at sep p = None) \<and> Split s sep True = Some (filter (\<lambda>p. p \<noteq> []) ps)"
  using Split_loop_split_on [of sep 0 s False "[]"] Split_nonempty [OF assms, of s] join_split_on [OF assms]
    split_on_no_sep assms
  by (intro exI [of _ "split_on sep s"]) (auto simp: Split_def split_nonempty_def)

theorem Split_pieces_witness:
  "\<exists>ps. Split ''10.0.0.1:6379'' '':'' False = Some ps \<and> join_with '':'' ps = ''10.0.0.1:6379'' \<and>
    (\<forall>p\<in>set ps. find_at '':'' p = None) \<and> Split ''10.0.0.1:6379'' '':'' True = Some (filter (\<lambda>p. p \<noteq> []) ps)"
  using Split_pieces [of "'':''" "''10.0.0.1:6379''"] by simp


section \<open>Serialisation\<close>

lemma of_char_char_of_byte: "(of_char (char_of (unat (take_bit 8 (v :: 'a::len word)))) :: 'a word) = take_bit 8 v"
proof -
  have "(of_char (char_of (unat (take_bit 8 v))) :: 'a word) =
      word_of_nat (of_char (char_of (unat (take_bit 8 v))))"
    by (simp only: of_nat_of_char)
  also have "of_char (char_of (unat (take_bit 8 v))) = unat (take_bit 8 v)"
    using unat_take_bit_8 [of v] by simp
  finally show ?thesis by (simp only: of_nat_unat ucast_id)
qed

lemma deserialize_serialize:
  "foldl deserialize_step acc (serialize_loop n v key) =
    foldl deserialize_step (push_bit (8 * n) acc OR take_bit (8 * n) v) key"
proof (induction n arbitrary: v key)
  case (Suc n)
  have "push_bit 8 (push_bit (8 * n) acc OR take_bit (8 * n) (drop_bit 8 v)) OR take_bit 8 v =
      push_bit (8 * Suc n) acc OR take_bit (8 * Suc n) v"
    by (rule bit_word_eqI) (auto simp: bit_simps)
  then show ?case
    using Suc [of "drop_bit 8 v"]
    by (simp add: deserialize_step_def and_255_take_bit of_char_char_of_byte)
qed simp

lemma length_serialize [simp]: "length (serialize_loop n v key) = n + length key"
  by (induction n arbitrary: v key) auto

lemma serialize_append: "serialize_loop n v key = serialize_loop n v [] @ key"
  by (induction n arbitrary: v key) (simp, metis append.assoc append_Cons append_Nil serialize_loop.simps(2))

text \<open>C29: the big-endian serialisers write exactly 4, 8 and 16 bytes and the deserialisers read every value
  back.\<close>

theorem serialize_round_trip:
  "DeserializeUInt32 (SerializeUInt32 a) = Some a \<and> DeserializeUInt64 (SerializeUInt64 b) = Some b \<and>
   DeserializeUInt128 (SerializeUInt128 p) = Some p"
proof -
  have 32: "take_bit 32 a = a" by (rule bit_word_eqI) (auto simp: bit_simps)
  have 64: "take_bit 64 w = w" for w :: u64 by (rule bit_word_eqI) (auto simp: bit_simps)
  have 128: "SerializeUInt128 p = serialize_loop 8 (fst p) [] @ serialize_loop 8 (snd p) []"
    unfolding SerializeUInt128_def by (rule serialize_append)
  show ?thesis
    using deserialize_serialize [of 0 4 a "[]"] deserialize_serialize [of 0 8 b "[]"]
      deserialize_serialize [of 0 8 "fst p" "[]"] deserialize_serialize [of 0 8 "snd p" "[]"]
    by (simp add: DeserializeUInt32_def SerializeUInt32_def DeserializeUInt64_def SerializeUInt64_def
        DeserializeUInt128_def 128 32 64 del: serialize_loop.simps)
qed


section \<open>Sunday search\<close>

lemma sunday_next_le:
  assumes "i < length key" "key ! i = c"
  shows "sunday_next key c \<le> length key - i"
proof -
  have "\<forall>i<n. key ! i = c \<longrightarrow>
      fold (\<lambda>i sh. if key ! i = c then length key - i else sh) [0..<n] d \<le> length key - i" for n d
    by (induction n) (auto simp: less_Suc_eq)
  then show ?thesis using assms unfolding sunday_next_def by blast
qed

lemma sunday_next_le_Suc: "sunday_next key c \<le> length key + 1"
proof -
  have "fold (\<lambda>i sh. if key ! i = c then length key - i else sh) xs d \<le> max d (length key)" for xs d
  proof (induction xs arbitrary: d)
    case (Cons i xs)
    show ?case using Cons [of "length key - i"] Cons [of d] by auto
  qed simp
  then show ?thesis unfolding sunday_next_def by (metis max.absorb1 le_add1)
qed

lemma sunday_next_pos: "1 \<le> sunday_next key c"
proof -
  have "fold (\<lambda>i sh. if key ! i = c then length key - i else sh) xs d \<ge> 1"
    if "\<forall>i\<in>set xs. i < length key" "d \<ge> 1" for d xs
    using that by (induction xs arbitrary: d) auto
  then show ?thesis by (simp add: sunday_next_def)
qed

lemma sunday_skip:
  assumes "pos < q" "q < pos + sunday_next key ((str @ [NUL]) ! (pos + length key))"
  shows "\<not> occurs_at str key q"
proof
  assume occ: "occurs_at str key q"
  let ?m = "length key"
  let ?c = "(str @ [NUL]) ! (pos + ?m)"
  have le: "q + ?m \<le> length str" and tk: "take ?m (drop q str) = key" using occ by (auto simp: occurs_at_def)
  have q: "q \<le> pos + ?m" using assms(2) sunday_next_le_Suc [of key ?c] by linarith
  let ?i = "pos + ?m - q"
  have i: "?i < ?m" using assms(1) q by linarith
  have "key ! ?i = str ! (q + ?i)"
    using i le by (metis tk nth_take nth_drop le_add1 order_trans)
  also have "q + ?i = pos + ?m" using q by simp
  also have "str ! (pos + ?m) = ?c" using assms(1) le by (simp add: nth_append)
  finally have "sunday_next key ?c \<le> ?m - ?i" using i by (intro sunday_next_le)
  then show False using assms(2) q i by linarith
qed

lemma sunday_loop_filter:
  "sunday_loop str key pos vec = vec @ filter (occurs_at str key) [pos..<Suc (length str)]"
proof (induction str key pos vec rule: sunday_loop.induct)
  case (1 str key pos vec)
  let ?d = "sunday_next key ((str @ [NUL]) ! (pos + length key))"
  show ?case
  proof (cases "pos + length key \<le> length str")
    case True
    have d: "1 \<le> ?d" by (rule sunday_next_pos)
    define e where "e = min (pos + ?d) (Suc (length str))"
    have e: "pos < e" "e \<le> Suc (length str)" using d True by (auto simp: e_def)
    have split: "[pos..<Suc (length str)] = pos # [Suc pos..<e] @ [e..<Suc (length str)]"
      using e by (metis le_add_diff_inverse less_imp_le_nat Suc_leI upt_add_eq_append upt_conv_Cons le_less_trans lessI order_less_le_trans)
    have "filter (occurs_at str key) [Suc pos..<e] = []"
      using sunday_skip [of pos _ key str] by (auto simp: filter_empty_conv e_def Suc_le_eq)
    moreover have "filter (occurs_at str key) [e..<Suc (length str)] =
        filter (occurs_at str key) [pos + ?d..<Suc (length str)]"
      by (cases "pos + ?d \<le> Suc (length str)") (auto simp: e_def min_def)
    moreover have "occurs_at str key pos \<longleftrightarrow> take (length key) (drop pos str) = key"
      using True by (simp add: occurs_at_def)
    ultimately show ?thesis
      unfolding split using 1 [OF True] True by (subst sunday_loop.simps) simp
  next
    case False
    then have "filter (occurs_at str key) [pos..<Suc (length str)] = []"
      by (auto simp: filter_empty_conv occurs_at_def)
    with False show ?thesis by (subst sunday_loop.simps) simp
  qed
qed


end
