(* ===== verification/RedisSlot.thy ===== *)
theory RedisSlot
  imports Prelude
begin

text \<open>
  Hash slots of keys (\<open>core/redis_slot.cc\<close>): the CRC16 lookup table, the table driven checksum and
  the slot function with the hash tag rule.  The checksum is written with the integer promotions
  of C: \<open>crc << 8\<close> and the index are computed in a 32 bit \<open>int\<close>, \<open>*buf\<close> is a signed \<open>char\<close>, and
  the assignment to \<open>crc\<close> keeps 16 bits.
\<close>


section \<open>Definitions\<close>

definition crc16tab :: "u16 list" where
  "crc16tab = [
    0x0000, 0x1021, 0x2042, 0x3063, 0x4084, 0x50A5, 0x60C6, 0x70E7,
    0x8108, 0x9129, 0xA14A, 0xB16B, 0xC18C, 0xD1AD, 0xE1CE, 0xF1EF,
    0x1231, 0x0210, 0x3273, 0x2252, 0x52B5, 0x4294, 0x72F7, 0x62D6,
    0x9339, 0x8318, 0xB37B, 0xA35A, 0xD3BD, 0xC39C, 0xF3FF, 0xE3DE,
    0x2462, 0x3443, 0x0420, 0x1401, 0x64E6, 0x74C7, 0x44A4, 0x5485,
    0xA56A, 0xB54B, 0x8528, 0x9509, 0xE5EE, 0xF5CF, 0xC5AC, 0xD58D,
    0x3653, 0x2672, 0x1611, 0x0630, 0x76D7, 0x66F6, 0x5695, 0x46B4,
    0xB75B, 0xA77A, 0x9719, 0x8738, 0xF7DF, 0xE7FE, 0xD79D, 0xC7BC,
    0x48C4, 0x58E5, 0x6886, 0x78A7, 0x0840, 0x1861, 0x2802, 0x3823,
    0xC9CC, 0xD9ED, 0xE98E, 0xF9AF, 0x8948, 0x9969, 0xA90A, 0xB92B,
    0x5AF5, 0x4AD4, 0x7AB7, 0x6A96, 0x1A71, 0x0A50, 0x3A33, 0x2A12,
    0xDBFD, 0xCBDC, 0xFBBF, 0xEB9E, 0x9B79, 0x8B58, 0xBB3B, 0xAB1A,
    0x6CA6, 0x7C87, 0x4CE4, 0x5CC5, 0x2C22, 0x3C03, 0x0C60, 0x1C41,
    0xEDAE, 0xFD8F, 0xCDEC, 0xDDCD, 0xAD2A, 0xBD0B, 0x8D68, 0x9D49,
    0x7E97, 0x6EB6, 0x5ED5, 0x4EF4, 0x3E13, 0x2E32, 0x1E51, 0x0E70,
    0xFF9F, 0xEFBE, 0xDFDD, 0xCFFC, 0xBF1B, 0xAF3A, 0x9F59, 0x8F78,
    0x9188, 0x81A9, 0xB1CA, 0xA1EB, 0xD10C, 0xC12D, 0xF14E, 0xE16F,
    0x1080, 0x00A1, 0x30C2, 0x20E3, 0x5004, 0x4025, 0x7046, 0x6067,
    0x83B9, 0x9398, 0xA3FB, 0xB3DA, 0xC33D, 0xD31C, 0xE37F, 0xF35E,
    0x02B1, 0x1290, 0x22F3, 0x32D2, 0x4235, 0x5214, 0x6277, 0x7256,
    0xB5EA, 0xA5CB, 0x95A8, 0x8589, 0xF56E, 0xE54F, 0xD52C, 0xC50D,
    0x34E2, 0x24C3, 0x14A0, 0x0481, 0x7466, 0x6447, 0x5424, 0x4405,
    0xA7DB, 0xB7FA, 0x8799, 0x97B8, 0xE75F, 0xF77E, 0xC71D, 0xD73C,
    0x26D3, 0x36F2, 0x0691, 0x16B0, 0x6657, 0x7676, 0x4615, 0x5634,
    0xD94C, 0xC96D, 0xF90E, 0xE92F, 0x99C8, 0x89E9, 0xB98A, 0xA9AB,
    0x5844, 0x4865, 0x7806, 0x6827, 0x18C0, 0x08E1, 0x3882, 0x28A3,
    0xCB7D, 0xDB5C, 0xEB3F, 0xFB1E, 0x8BF9, 0x9BD8, 0xABBB, 0xBB9A,
    0x4A75, 0x5A54, 0x6A37, 0x7A16, 0x0AF1, 0x1AD0, 0x2AB3, 0x3A92,
    0xFD2E, 0xED0F, 0xDD6C, 0xCD4D, 0xBDAA, 0xAD8B, 0x9DE8, 0x8DC9,
    0x7C26, 0x6C07, 0x5C64, 0x4C45, 0x3CA2, 0x2C83, 0x1CE0, 0x0CC1,
    0xEF1F, 0xFF3E, 0xCF5D, 0xDF7C, 0xAF9B, 0xBFBA, 0x8FD9, 0x9FF8,
    0x6E17, 0x7E36, 0x4E55, 0x5E74, 0x2E93, 0x3EB2, 0x0ED1, 0x1EF0]"

definition promote_char :: "char \<Rightarrow> u32" where
  "promote_char c = signed (of_char c :: 8 word)"

definition crc16_step :: "u16 \<Rightarrow> char \<Rightarrow> u16" where
  "crc16_step crc c = ucast (push_bit 8 (ucast crc :: u32) XOR
     ucast (crc16tab ! unat ((drop_bit 8 (ucast crc :: u32) XOR promote_char c) AND 0x00FF)))"

definition crc16 :: "bytes \<Rightarrow> u16" where
  "crc16 buf = fold (\<lambda>c crc. crc16_step crc c) buf 0"

definition key_hash_slot :: "bytes \<Rightarrow> nat" where
  "key_hash_slot key =
    (let keylen = length key; s = scan (\<lambda>c. c = CHR ''{'') key in
     if s = keylen then unat (crc16 key AND 0x3FFF)
     else
       let e = s + 1 + scan (\<lambda>c. c = CHR ''}'') (drop (s + 1) key) in
       if e = keylen \<or> e = s + 1 then unat (crc16 key AND 0x3FFF)
       else unat (crc16 (take (e - s - 1) (drop (s + 1) key)) AND 0x3FFF))"

text \<open>The reference algorithm: CRC-16/XMODEM, one bit at a time, polynomial 0x1021, initial value 0,
  nothing reflected, no final exclusive or.\<close>

definition xmodem_bit :: "u16 \<Rightarrow> u16" where
  "xmodem_bit r = (if bit r 15 then push_bit 1 r XOR 0x1021 else push_bit 1 r)"

definition xmodem_byte :: "u16 \<Rightarrow> char \<Rightarrow> u16" where
  "xmodem_byte r c = (xmodem_bit ^^ 8) (r XOR push_bit 8 (of_char c))"

definition crc16_xmodem :: "bytes \<Rightarrow> u16" where
  "crc16_xmodem bs = foldl xmodem_byte 0 bs"

text \<open>The table indexed by the high byte.\<close>

definition xmodem_tab :: "u16 \<Rightarrow> u16" where
  "xmodem_tab x = (xmodem_bit ^^ 8) (push_bit 8 x)"

text \<open>The hash tag rule of Redis Cluster: the first opening brace, the first closing brace after it, and a
  non-empty tag between them.\<close>

definition tagged :: "bytes \<Rightarrow> bytes \<Rightarrow> bytes \<Rightarrow> bytes \<Rightarrow> bool" where
  "tagged key pre tag post \<longleftrightarrow> key = pre @ CHR ''{'' # tag @ CHR ''}'' # post \<and>
     CHR ''{'' \<notin> set pre \<and> CHR ''}'' \<notin> set tag \<and> tag \<noteq> []"



section \<open>The table driven checksum is CRC-16/XMODEM\<close>


lemma xmodem_bit_xor: "xmodem_bit (x XOR y) = xmodem_bit x XOR xmodem_bit y"
  unfolding xmodem_bit_def
  by (cases "bit x 15"; cases "bit y 15") (simp_all add: bit_xor_iff push_bit_xor ac_simps)

lemma xmodem_bits_xor: "(xmodem_bit ^^ n) (x XOR y) = (xmodem_bit ^^ n) x XOR (xmodem_bit ^^ n) y"
  by (induction n) (simp_all add: xmodem_bit_xor)

lemma xmodem_tab_xor: "xmodem_tab (x XOR y) = xmodem_tab x XOR xmodem_tab y"
  by (simp add: xmodem_tab_def push_bit_xor xmodem_bits_xor)

lemma xmodem_tab_0 [simp]: "xmodem_tab 0 = 0"
  using xmodem_tab_xor [of 0 0] by simp

lemma xmodem_basis:
  "map (\<lambda>b. xmodem_tab (2 ^ b)) (rev [0..<8]) =
    [0x9188, 0x48C4, 0x2462, 0x1231, 0x8108, 0x4084, 0x2042, 0x1021]"
  by (simp add: xmodem_tab_def funpow_8 xmodem_bit_def upt_rec)

lemma crc16tab_span: "crc16tab = xor_span [0x9188, 0x48C4, 0x2462, 0x1231, 0x8108, 0x4084, 0x2042, 0x1021]"
  by (simp add: crc16tab_def)

lemma crc16tab_nth: "i < 256 \<Longrightarrow> crc16tab ! i = xmodem_tab (word_of_nat i)"
  using xor_span_nth [of xmodem_tab i 8, OF xmodem_tab_xor] by (simp only: xmodem_basis crc16tab_span) simp


lemma xmodem_bits_low: "n \<le> 8 \<Longrightarrow> (xmodem_bit ^^ n) (take_bit 8 x) = push_bit n (take_bit 8 x)"
proof (induction n)
  case (Suc n)
  then have "\<not> 15 - n < 8" by simp
  then have "\<not> bit (push_bit n (take_bit 8 x)) 15"
    by (simp add: bit_simps)
  with Suc show ?case
    by (simp add: xmodem_bit_def push_bit_push_bit)
qed simp

lemma u16_split: "(r :: u16) = push_bit 8 (drop_bit 8 r) XOR take_bit 8 r"
  by (rule bit_word_eqI) (auto simp: bit_simps)

lemma push_bit_take: "push_bit 8 (take_bit 8 (r :: u16)) = push_bit 8 r"
  by (rule bit_word_eqI) (auto simp: bit_simps)

lemma xmodem_byte_tab:
  "xmodem_byte r c = push_bit 8 r XOR xmodem_tab (drop_bit 8 r XOR of_char c)"
proof -
  have "r XOR push_bit 8 (of_char c) = push_bit 8 (drop_bit 8 r XOR of_char c) XOR take_bit 8 r"
    by (subst u16_split [of r]) (simp add: push_bit_xor ac_simps)
  then show ?thesis
    by (simp only: xmodem_byte_def xmodem_bits_xor xmodem_bits_low xmodem_tab_def push_bit_take ac_simps)
qed


lemma crc_index:
  "(drop_bit 8 (ucast (r :: u16) :: u32) XOR promote_char c) AND 0xFF =
    ucast (drop_bit 8 r XOR of_char c)"
proof (rule bit_word_eqI)
  fix n assume n: "n < LENGTH(32)"
  have r: "\<not> bit r (8 + n)" if "\<not> n < 8" using that bit_imp_le_length [of r "8 + n"] by auto
  have "(0xFF :: u32) = mask 8" by (simp add: mask_eq_exp_minus_1)
  then have m: "bit (0xFF :: u32) n \<longleftrightarrow> n < 8" using n by (simp only: bit_mask_iff possible_bit_word simp_thms)
  have a: "bit (x AND 0xFF) n \<longleftrightarrow> bit x n \<and> n < 8" for x :: u32
    by (simp only: bit_and_iff m)
  show "bit ((drop_bit 8 (ucast r :: u32) XOR promote_char c) AND 0xFF) n =
      bit (ucast (drop_bit 8 r XOR of_char c) :: u32) n"
  proof (cases "n < 8")
    case True
    then have "min 7 n = n" by simp
    then show ?thesis using True
      by (simp only: a) (simp add: bit_simps promote_char_def bit_of_char)
  next
    case False
    then show ?thesis using r
      by (simp only: a) (simp add: bit_simps promote_char_def bit_of_char)
  qed
qed

lemma unat_ucast_u32: "unat (ucast (x :: u16) :: u32) = unat x"
proof -
  have "unat x < 2 ^ 16" using unsigned_less [of x] by simp
  then show ?thesis by (simp add: unsigned_ucast_eq take_bit_nat_eq_self)
qed

lemma crc16_step_xmodem: "crc16_step r c = xmodem_byte r c"
proof -
  let ?i = "drop_bit 8 r XOR of_char c :: u16"
  have r: "\<not> bit r (8 + n)" if "\<not> n < 8" for n using that bit_imp_le_length [of r "8 + n"] by auto
  have "take_bit 8 ?i = ?i"
    by (rule bit_word_eqI) (use r in \<open>auto simp: bit_simps bit_of_char\<close>)
  then have "unat ?i = take_bit 8 (unat ?i)"
    by (metis unsigned_take_bit_eq)
  then have lt: "unat ?i < 2 ^ 8"
    by (metis take_bit_nat_less_exp)
  have "ucast (push_bit 8 (ucast r :: u32) XOR ucast x) = push_bit 8 r XOR x" for x :: u16
    by (rule bit_word_eqI) (auto simp: bit_simps)
  then show ?thesis
    using crc16tab_nth [of "unat ?i"] lt unat_ucast_u32 [of ?i] unfolding crc16_step_def crc_index xmodem_byte_tab by simp
qed

lemma crc16_eq_xmodem: "crc16 buf = crc16_xmodem buf"
  by (simp add: crc16_def crc16_xmodem_def crc16_step_xmodem foldl_conv_fold)

text \<open>C19: the checksum the proxy computes with its lookup table and C integer promotions is CRC-16/XMODEM
  computed bit by bit, for every byte string; the parameters are those the comment of the source
  lists.\<close>

theorem crc16_is_xmodem: "crc16 buf = crc16_xmodem buf"
  by (rule crc16_eq_xmodem)

lemma crc16_check_value: "crc16 ''123456789'' = 0x31C3"
  by (simp add: crc16_eq_xmodem crc16_xmodem_def xmodem_byte_def funpow_8 xmodem_bit_def)


section \<open>Slots and hash tags\<close>

lemma crc16_mod: "unat ((x :: u16) AND 0x3FFF) = unat x mod 16384"
proof -
  have "(0x3FFF :: u16) = mask 14" by (simp add: mask_eq_exp_minus_1)
  then have "x AND 0x3FFF = take_bit 14 x" by (simp only: take_bit_eq_mask)
  then have "unat (x AND 0x3FFF) = take_bit 14 (unat x)" by (simp only: unsigned_take_bit_eq)
  then show ?thesis by (simp add: take_bit_eq_mod)
qed

lemma key_hash_slot_tagged:
  assumes "tagged key pre tag post"
  shows "key_hash_slot key = unat (crc16 tag AND 0x3FFF)"
proof -
  have k: "key = pre @ CHR ''{'' # tag @ CHR ''}'' # post" and tag: "tag \<noteq> []"
    using assms by (simp_all add: tagged_def)
  have s: "scan (\<lambda>c. c = CHR ''{'') key = length pre"
    unfolding k using assms by (intro scan_skip) (auto simp: tagged_def)
  have e: "scan (\<lambda>c. c = CHR ''}'') (drop (length pre + 1) key) = length tag"
    unfolding k using assms by (simp add: tagged_def, intro scan_skip) auto
  show ?thesis
    unfolding key_hash_slot_def Let_def s e using tag by (simp add: k)
qed

lemma key_hash_slot_untagged:
  assumes "\<nexists>pre tag post. tagged key pre tag post"
  shows "key_hash_slot key = unat (crc16 key AND 0x3FFF)"
proof (rule ccontr)
  let ?o = "\<lambda>c. c = CHR ''{''" and ?c = "\<lambda>c. c = CHR ''}''"
  let ?s = "scan ?o key"
  let ?r = "drop (?s + 1) key"
  let ?l = "scan ?c ?r"
  assume "key_hash_slot key \<noteq> unat (crc16 key AND 0x3FFF)"
  then have s: "?s \<noteq> length key" and e: "?s + 1 + ?l \<noteq> length key" and l: "?l \<noteq> 0"
    unfolding key_hash_slot_def Let_def by (auto split: if_splits)
  have sl: "?s < length key" using s scan_le_length [of ?o key] by (rule le_neq_implies_less [rotated])
  have ll: "?l < length ?r" using e sl scan_le_length [of ?c ?r] unfolding length_drop by arith
  have "key = take ?s key @ key ! ?s # ?r" using sl by (simp add: id_take_nth_drop)
  moreover have "?r = take ?l ?r @ ?r ! ?l # drop (Suc ?l) ?r" using ll by (rule id_take_nth_drop)
  moreover have "key ! ?s = CHR ''{''" using scan_nth [OF sl] .
  moreover have "?r ! ?l = CHR ''}''" using scan_nth [OF ll] .
  moreover have "CHR ''{'' \<notin> set (take ?s key)" unfolding take_scan by (auto dest: set_takeWhileD)
  moreover have "CHR ''}'' \<notin> set (take ?l ?r)" unfolding take_scan by (auto dest: set_takeWhileD)
  moreover have "take ?l ?r \<noteq> []" using l ll by auto
  ultimately have "tagged key (take ?s key) (take ?l ?r) (drop (Suc ?l) ?r)"
    unfolding tagged_def by metis
  with assms show False by blast
qed

text \<open>C20: the slot of a key is the checksum modulo 16384 of its hash tag when it has one (the bytes
  between the first opening brace and the first closing brace after it, when there are any), and of
  the whole key when it has none.\<close>

theorem key_hash_slot_rule:
  "(\<forall>pre tag post. tagged key pre tag post \<longrightarrow>
      key_hash_slot key = unat (crc16_xmodem tag) mod 16384) \<and>
   ((\<nexists>pre tag post. tagged key pre tag post) \<longrightarrow>
      key_hash_slot key = unat (crc16_xmodem key) mod 16384)"
  by (simp add: key_hash_slot_tagged key_hash_slot_untagged crc16_mod crc16_eq_xmodem)

theorem key_hash_slot_rule_witness:
  "tagged ''user{42}name'' ''user'' ''42'' ''name'' \<and>
   key_hash_slot ''user{42}name'' = unat (crc16_xmodem ''42'') mod 16384"
proof
  show t: "tagged ''user{42}name'' ''user'' ''42'' ''name''" by (simp add: tagged_def)
  show "key_hash_slot ''user{42}name'' = unat (crc16_xmodem ''42'') mod 16384"
    using key_hash_slot_rule [of "''user{42}name''"] t by blast
qed

lemma key_hash_slot_bound: "key_hash_slot key < 16384"
  by (cases "\<exists>pre tag post. tagged key pre tag post")
    (auto simp: key_hash_slot_tagged key_hash_slot_untagged crc16_mod)

end
