(* ===== verification/SnappyStream.thy ===== *)
theory SnappyStream
  imports Crc32c CString
begin

text \<open>
  The snappy frame format of stored values (\<open>src/snappys\<close>): the output stream buffer that cuts the data
  into blocks, the input stream buffer that reads them back, and the two entry points \<open>Compress\<close> and
  \<open>Uncompress\<close> with the format test.  The block compressor itself is the snappy library, which is not part
  of the repository: its three entry points are the record \<open>snappy_lib\<close>, an argument of the operations,
  and \<open>snappy_codec\<close> states its documented contract.  A short read leaves the tail of a stack buffer
  uninitialised; its content is the argument \<open>junk\<close>.
\<close>


section \<open>Definitions\<close>

record snappy_lib =
  sn_Compress :: "bytes \<Rightarrow> bytes"
  sn_GetUncompressedLength :: "bytes \<Rightarrow> nat option"
  sn_RawUncompress :: "bytes \<Rightarrow> bytes option"

definition snappy_codec :: "snappy_lib \<Rightarrow> bool" where
  "snappy_codec lib \<longleftrightarrow>
    (\<forall>b. sn_RawUncompress lib (sn_Compress lib b) = Some b \<and>
         sn_GetUncompressedLength lib (sn_Compress lib b) = Some (length b) \<and>
         sn_Compress lib b \<noteq> [])"

definition snappy_magic :: bytes where
  "snappy_magic = ''snappy'' @ [NUL]"

definition defaultChunkSize :: nat where
  "defaultChunkSize = 2 ^ 15"

text \<open>\<open>BigEndian<uint16_t>\<close> and \<open>BigEndian<uint32_t>\<close>.\<close>

definition be16 :: "nat \<Rightarrow> bytes" where
  "be16 n = [char_of (n div 2 ^ 8 mod 2 ^ 8), char_of (n mod 2 ^ 8)]"

definition be32 :: "u32 \<Rightarrow> bytes" where
  "be32 w = [char_of (unat w div 2 ^ 24 mod 2 ^ 8), char_of (unat w div 2 ^ 16 mod 2 ^ 8),
     char_of (unat w div 2 ^ 8 mod 2 ^ 8), char_of (unat w mod 2 ^ 8)]"

definition be16_value :: "char \<Rightarrow> char \<Rightarrow> nat" where
  "be16_value a b = of_char a * 2 ^ 8 + of_char b"

text \<open>The output buffer: the bytes between \<open>pbase\<close> and \<open>pptr\<close>, and what has reached the destination.\<close>

record osnappy =
  os_buffer :: bytes
  os_dest :: bytes

definition oSnappy_init :: osnappy where
  "oSnappy_init = \<lparr>os_buffer = [], os_dest = snappy_magic\<rparr>"

definition writeBlock :: "bytes \<Rightarrow> bool \<Rightarrow> u32 \<Rightarrow> osnappy \<Rightarrow> osnappy" where
  "writeBlock data compressed cksum st =
    \<lparr>os_buffer = [],
     os_dest = os_dest st @ [if compressed then CHR 0x01 else CHR 0x00] @ be16 (length data mod 2 ^ 16) @
       be32 cksum @ data\<rparr>"

definition oSnappy_sync :: "snappy_lib \<Rightarrow> osnappy \<Rightarrow> osnappy" where
  "oSnappy_sync lib st =
    (let ulen = length (os_buffer st) in
     if ulen = 0 then st
     else
       let crc = crc32c_masked (os_buffer st);
           compressed = sn_Compress lib (os_buffer st);
           clen = length compressed in
       if clen \<ge> ulen - ulen div 8
       then writeBlock (os_buffer st) False crc st
       else writeBlock compressed True crc st)"

definition oSnappy_overflow :: "snappy_lib \<Rightarrow> char \<Rightarrow> osnappy \<Rightarrow> osnappy" where
  "oSnappy_overflow lib c st = oSnappy_sync lib (st\<lparr>os_buffer := os_buffer st @ [c]\<rparr>)"

text \<open>\<open>sputc\<close> of the standard stream buffer: the put area holds one byte less than the chunk, so that
  \<open>overflow\<close> can add the last one.\<close>

definition oSnappy_sputc :: "snappy_lib \<Rightarrow> nat \<Rightarrow> char \<Rightarrow> osnappy \<Rightarrow> osnappy" where
  "oSnappy_sputc lib chunksize c st =
    (if length (os_buffer st) < chunksize - 1
     then st\<lparr>os_buffer := os_buffer st @ [c]\<rparr>
     else oSnappy_overflow lib c st)"

definition snappy_Compress :: "snappy_lib \<Rightarrow> bytes \<Rightarrow> bytes" where
  "snappy_Compress lib src =
    os_dest (oSnappy_sync lib
      (fold (oSnappy_sputc lib defaultChunkSize) (takeWhile (\<lambda>c. c \<noteq> NUL) src) oSnappy_init))"

text \<open>One call of \<open>underflow\<close>: the block read and the rest of the source; \<open>None\<close> is end of file.\<close>

definition iSnappy_block :: "snappy_lib \<Rightarrow> bytes \<Rightarrow> bytes \<Rightarrow> (bytes \<times> bytes) option" where
  "iSnappy_block lib header src =
    (let compressed = (header ! 0 \<noteq> CHR 0x00); len = be16_value (header ! 1) (header ! 2) in
     if len = 0 then None
     else if len > defaultChunkSize then None
     else if length src < len then None
     else
       let data = take len src; rest = drop len src in
       if compressed then
         case sn_GetUncompressedLength lib data of
           None \<Rightarrow> None
         | Some n \<Rightarrow>
             if n = 0 then None
             else (case sn_RawUncompress lib data of None \<Rightarrow> None | Some out \<Rightarrow> Some (out, rest))
       else Some (data, rest))"

definition iSnappy_underflow :: "snappy_lib \<Rightarrow> bytes \<Rightarrow> (bytes \<times> bytes) option" where
  "iSnappy_underflow lib src =
    (if length src < 7 then None
     else if take 7 src = snappy_magic then
       (if length (drop 7 src) < 7 then None
        else iSnappy_block lib (take 7 (drop 7 src)) (drop 14 src))
     else iSnappy_block lib (take 7 src) (drop 7 src))"

text \<open>\<open>ss << isnstrm.rdbuf()\<close>: every block until \<open>underflow\<close> reports end of file.\<close>

function iSnappy_read :: "snappy_lib \<Rightarrow> bytes \<Rightarrow> bytes" where
  "iSnappy_read lib src =
    (case iSnappy_underflow lib src of
       None \<Rightarrow> []
     | Some (out, rest) \<Rightarrow> if length rest < length src then out @ iSnappy_read lib rest else out)"
  by pat_completeness auto
termination
  by (relation "measure (\<lambda>(lib, src). length src)") auto

declare iSnappy_read.simps [simp del]

text \<open>The constructor compares seven bytes although fewer may have been read.\<close>

definition snappy_Uncompress :: "(nat \<Rightarrow> char) \<Rightarrow> snappy_lib \<Rightarrow> bytes \<Rightarrow> bytes option result" where
  "snappy_Uncompress junk lib src =
    (let n = length (take 7 src); source_magic = take 7 src @ map junk [n..<7] in
     if source_magic \<noteq> snappy_magic then Inl Bad_magic
     else
       let out = iSnappy_read lib (drop 7 src) in
       Inr (if length out = 0 then None else Some out))"

text \<open>\<open>memcmp(src.c_str(), "snappy\0", 7) == 0\<close>, where \<open>c_str\<close> adds the terminator.\<close>

definition snappy_IsValidCompressed :: "bytes \<Rightarrow> bool" where
  "snappy_IsValidCompressed src \<longleftrightarrow> take 7 (src @ [NUL]) = snappy_magic"

text \<open>A frame, as the reader sees it.\<close>

definition snappy_frame :: "snappy_lib \<Rightarrow> bytes \<Rightarrow> bytes" where
  "snappy_frame lib b = os_dest (oSnappy_sync lib \<lparr>os_buffer = b, os_dest = []\<rparr>)"


section \<open>Blocks round trip\<close>

lemma length_snappy_magic [simp]: "length snappy_magic = 7"
  by (simp add: snappy_magic_def)

lemma be16_value_be16: "n < 2 ^ 16 \<Longrightarrow> be16_value (be16 n ! 0) (be16 n ! 1) = n"
  by (simp add: be16_def be16_value_def)

lemma oSnappy_sync_frame:
  "oSnappy_sync lib st = (if os_buffer st = [] then st
     else \<lparr>os_buffer = [], os_dest = os_dest st @ snappy_frame lib (os_buffer st)\<rparr>)"
  by (auto simp: oSnappy_sync_def snappy_frame_def writeBlock_def Let_def)

lemma snappy_frame_head:
  assumes "b \<noteq> []"
  obtains c data cksum where
    "snappy_frame lib b = [if c then CHR 0x01 else CHR 0x00] @ be16 (length data mod 2 ^ 16) @ be32 cksum @ data"
    "if c then data = sn_Compress lib b \<and> length data < length b else data = b"
proof (cases "length (sn_Compress lib b) \<ge> length b - length b div 8")
  case True
  then show ?thesis using assms that [of False b "crc32c_masked b"]
    by (simp add: snappy_frame_def oSnappy_sync_def writeBlock_def Let_def)
next
  case False
  then have "length (sn_Compress lib b) < length b" by simp
  then show ?thesis using assms False that [of True "sn_Compress lib b" "crc32c_masked b"]
    by (simp add: snappy_frame_def oSnappy_sync_def writeBlock_def Let_def)
qed

lemma iSnappy_underflow_frame:
  assumes codec: "snappy_codec lib" and b: "b \<noteq> []" "length b \<le> defaultChunkSize"
  shows "iSnappy_underflow lib (snappy_frame lib b @ rest) = Some (b, rest)"
proof -
  obtain c data cksum where
    f: "snappy_frame lib b = [if c then CHR 0x01 else CHR 0x00] @ be16 (length data mod 2 ^ 16) @ be32 cksum @ data"
    and d: "if c then data = sn_Compress lib b \<and> length data < length b else data = b"
    using b(1) by (rule snappy_frame_head)
  have len: "length data \<le> defaultChunkSize" "data \<noteq> []"
    using d b codec by (auto simp: snappy_codec_def split: if_splits)
  let ?h = "[if c then CHR 0x01 else CHR 0x00] @ be16 (length data mod 2 ^ 16) @ be32 cksum"
  have h: "length ?h = 7" by (simp add: be16_def be32_def)
  have t: "take 7 (snappy_frame lib b @ rest) = ?h" "drop 7 (snappy_frame lib b @ rest) = data @ rest"
    unfolding f using h by (simp_all add: be16_def be32_def)
  have "?h ! 0 \<noteq> snappy_magic ! 0" by (simp add: snappy_magic_def)
  then have nm: "?h \<noteq> snappy_magic" by metis
  have v: "be16_value (?h ! 1) (?h ! 2) = length data"
    using be16_value_be16 [of "length data"] len by (simp add: be16_def defaultChunkSize_def)
  have "iSnappy_block lib ?h (data @ rest) = Some (b, rest)"
    unfolding iSnappy_block_def Let_def v using len d codec b
    by (cases c) (simp_all add: snappy_codec_def)
  moreover have "\<not> length (snappy_frame lib b @ rest) < 7" using h f by simp
  ultimately show ?thesis
    unfolding iSnappy_underflow_def t using nm by simp
qed

lemma iSnappy_read_frames:
  assumes "snappy_codec lib" "\<forall>b\<in>set bs. b \<noteq> [] \<and> length b \<le> defaultChunkSize"
  shows "iSnappy_read lib (concat (map (snappy_frame lib) bs)) = concat bs"
  using assms(2)
proof (induction bs)
  case Nil
  then show ?case by (simp add: iSnappy_read.simps iSnappy_underflow_def)
next
  case (Cons b bs)
  let ?rest = "concat (map (snappy_frame lib) bs)"
  have u: "iSnappy_underflow lib (snappy_frame lib b @ ?rest) = Some (b, ?rest)"
    using assms(1) Cons.prems by (intro iSnappy_underflow_frame) auto
  have "snappy_frame lib b \<noteq> []"
    using snappy_frame_head [of b lib] Cons.prems by (metis append_is_Nil_conv list.set_intros(1) not_Cons_self2)
  then show ?case
    using Cons by (simp add: iSnappy_read.simps [of lib "snappy_frame lib b @ ?rest"] u)
qed

text \<open>Whatever is put into the stream and flushed reaches the destination as frames of the data, each
  non-empty and at most a chunk long.\<close>

lemma oSnappy_put_frames:
  assumes "length (os_buffer st) < chunksize"
  shows "\<exists>bs. os_dest (oSnappy_sync lib (fold (oSnappy_sputc lib chunksize) xs st)) =
      os_dest st @ concat (map (snappy_frame lib) bs) \<and>
    concat bs = os_buffer st @ xs \<and> (\<forall>b\<in>set bs. b \<noteq> [] \<and> length b \<le> chunksize)"
  using assms
proof (induction xs arbitrary: st)
  case Nil
  show ?case
  proof (cases "os_buffer st = []")
    case True
    then show ?thesis by (intro exI [of _ "[]"]) (simp add: oSnappy_sync_frame)
  next
    case False
    then show ?thesis using Nil by (intro exI [of _ "[os_buffer st]"]) (simp add: oSnappy_sync_frame)
  qed
next
  case (Cons x xs)
  let ?st = "oSnappy_sputc lib chunksize x st"
  show ?case
  proof (cases "length (os_buffer st) < chunksize - 1")
    case True
    then have "?st = st\<lparr>os_buffer := os_buffer st @ [x]\<rparr>" by (simp add: oSnappy_sputc_def)
    with Cons.IH [of ?st] True show ?thesis by (simp del: fold.simps) (simp add: less_diff_conv)
  next
    case False
    have st: "?st = \<lparr>os_buffer = [], os_dest = os_dest st @ snappy_frame lib (os_buffer st @ [x])\<rparr>"
      using False by (simp add: oSnappy_sputc_def oSnappy_overflow_def oSnappy_sync_frame)
    obtain bs where bs: "os_dest (oSnappy_sync lib (fold (oSnappy_sputc lib chunksize) xs ?st)) =
        os_dest ?st @ concat (map (snappy_frame lib) bs)"
      "concat bs = os_buffer ?st @ xs" "\<forall>b\<in>set bs. b \<noteq> [] \<and> length b \<le> chunksize"
      using Cons.IH [of ?st] Cons.prems st by auto
    then show ?thesis using Cons.prems st
      by (intro exI [of _ "(os_buffer st @ [x]) # bs"]) simp
  qed
qed

lemma snappy_round_trip:
  assumes "snappy_codec lib" "NUL \<notin> set v" "v \<noteq> []"
  shows "snappy_Uncompress junk lib (snappy_Compress lib v) = Inr (Some v)"
proof -
  have v: "takeWhile (\<lambda>c. c \<noteq> NUL) v = v" using assms(2) by (auto simp: takeWhile_eq_all_conv)
  obtain bs where bs: "snappy_Compress lib v = snappy_magic @ concat (map (snappy_frame lib) bs)"
    "concat bs = v" "\<forall>b\<in>set bs. b \<noteq> [] \<and> length b \<le> defaultChunkSize"
    using oSnappy_put_frames [of oSnappy_init defaultChunkSize lib v]
    by (auto simp: snappy_Compress_def v oSnappy_init_def defaultChunkSize_def)
  then have "iSnappy_read lib (drop 7 (snappy_Compress lib v)) = v"
    using iSnappy_read_frames [OF assms(1) bs(3)] by simp
  then show ?thesis using assms(3) by (simp add: snappy_Uncompress_def Let_def bs(1))
qed

lemma snappy_Compress_valid: "snappy_IsValidCompressed (snappy_Compress lib v)"
proof -
  obtain bs where "snappy_Compress lib v = snappy_magic @ concat (map (snappy_frame lib) bs)"
    using oSnappy_put_frames [of oSnappy_init defaultChunkSize lib "takeWhile (\<lambda>c. c \<noteq> NUL) v"]
    by (auto simp: snappy_Compress_def oSnappy_init_def defaultChunkSize_def)
  then show ?thesis by (simp add: snappy_IsValidCompressed_def)
qed

lemma snappy_valid_no_NUL:
  assumes "NUL \<notin> set v"
  shows "snappy_IsValidCompressed v \<longleftrightarrow> v = ''snappy''"
proof
  assume "snappy_IsValidCompressed v"
  then have t: "take 7 (v @ [NUL]) = ''snappy'' @ [NUL]"
    by (simp add: snappy_IsValidCompressed_def snappy_magic_def)
  have "length v < 7"
  proof (rule ccontr)
    assume "\<not> length v < 7"
    then have "take 7 v = ''snappy'' @ [NUL]" using t by simp
    then have "NUL \<in> set (take 7 v)" by simp
    with assms show False using in_set_takeD by metis
  qed
  then have "v @ [NUL] = ''snappy'' @ [NUL]" using t by simp
  then show "v = ''snappy''" by simp
qed (simp add: snappy_IsValidCompressed_def snappy_magic_def)

lemma snappy_Uncompress_bad_magic:
  assumes "junk 6 \<noteq> NUL"
  shows "snappy_Uncompress junk lib ''snappy'' = Inl Bad_magic"
  using assms by (simp add: snappy_Uncompress_def snappy_magic_def upt_rec eval_nat_numeral)

end
