(* ===== verification/RedisProto.thy ===== *)
theory RedisProto
  imports QkTypes SnappyStream StringUtil
begin

text \<open>
  The Redis protocol layer (\<open>protocol/redis_proto.cc\<close>): building the request for every supported command
  and decoding every kind of reply.  The class members are the record \<open>redis_proto\<close>.  What lies outside the
  repository or is left indeterminate by the code is the record \<open>proto_env\<close>: the snappy library, the result
  of \<open>SCRIPT LOAD\<close> on a node (hiredis), the content of uninitialised stack bytes and of
  an uninitialised \<open>int\<close> or \<open>double\<close>.  Operations return the status code with the new request and object state, or a fault.
  The request a subrequest points to with \<open>parent\<close> is an optional argument, returned when it is written.
\<close>


section \<open>Definitions\<close>

record redis_proto =
  rp_map_script :: "(bytes, (bytes, bytes) smap) smap"
  rp_add_multikv_script :: bytes
  rp_add_zset_script :: bytes
  rp_incrby_script :: bytes
  rp_add_rset_script :: bytes

record proto_env =
  pe_snappy :: snappy_lib
  pe_script_load :: "bytes \<Rightarrow> int \<Rightarrow> bytes \<Rightarrow> bytes option option"
  pe_junk :: "nat \<Rightarrow> char"
  pe_junk_int :: int
  pe_junk_double :: dbl

definition redis_proto_add_multikv_name :: bytes where "redis_proto_add_multikv_name = ''addMultiKVScript''"
definition redis_proto_add_zset_name :: bytes where "redis_proto_add_zset_name = ''addZSetScript''"
definition redis_proto_incrby_name :: bytes where "redis_proto_incrby_name = ''incrByScript''"
definition redis_proto_add_rset_name :: bytes where "redis_proto_add_rset_name = ''addRSetScript''"

definition new_redis_proto :: "bytes \<Rightarrow> bytes \<Rightarrow> bytes \<Rightarrow> bytes \<Rightarrow> redis_proto" where
  "new_redis_proto multikv zset incrby rset =
    \<lparr>rp_map_script = [], rp_add_multikv_script = multikv, rp_add_zset_script = zset,
     rp_incrby_script = incrby, rp_add_rset_script = rset\<rparr>"

subsection \<open>Scripts\<close>

text \<open>The hiredis calls: \<open>None\<close> when the connection fails, \<open>Some None\<close> for a null reply.\<close>

definition InitClusterScript :: "proto_env \<Rightarrow> bytes \<Rightarrow> bytes \<Rightarrow> (int \<times> bytes) result" where
  "InitClusterScript env node_ip script =
    (let vector_line = split_nonempty '':'' node_ip in
     if length vector_line < 2 then Inl Out_of_bounds
     else
       let port = (case snd (StrToInt32 (vector_line ! 1)) of None \<Rightarrow> pe_junk_int env | Some p \<Rightarrow> p) in
       case pe_script_load env (vector_line ! 0) port script of
         None \<Rightarrow> Inr (QKPACK_ERROR, [])
       | Some None \<Rightarrow> Inl Null_deref
       | Some (Some sha) \<Rightarrow> Inr (QKPACK_OK, sha))"

text \<open>\<open>map_script_[ip][name]\<close> as an expression creates missing entries.\<close>

definition script_at :: "bytes \<Rightarrow> bytes \<Rightarrow> redis_proto \<Rightarrow> bytes" where
  "script_at ip name rp = smap_at [] (smap_at [] (rp_map_script rp) ip) name"

definition script_put :: "bytes \<Rightarrow> bytes \<Rightarrow> bytes \<Rightarrow> redis_proto \<Rightarrow> redis_proto" where
  "script_put ip name sha rp =
    rp\<lparr>rp_map_script := smap_put ip (smap_put name sha (smap_at [] (rp_map_script rp) ip)) (rp_map_script rp)\<rparr>"

definition script_touch :: "bytes \<Rightarrow> bytes \<Rightarrow> redis_proto \<Rightarrow> redis_proto" where
  "script_touch ip name rp = script_put ip name (script_at ip name rp) rp"

definition load_script :: "proto_env \<Rightarrow> bytes \<Rightarrow> bytes \<Rightarrow> bytes \<Rightarrow> redis_proto \<Rightarrow> (int \<times> redis_proto) result" where
  "load_script env ip name script rp =
    (let rp1 = script_touch ip name rp in
     if script_at ip name rp1 = [] then
       bindR (InitClusterScript env ip script) (\<lambda>(rc, sha).
         if rc \<noteq> QKPACK_OK then Inr (QKPACK_ERROR, rp1) else Inr (QKPACK_OK, script_put ip name sha rp1))
     else Inr (QKPACK_OK, rp1))"

definition RedisProtoEncodeLoadScript ::
  "proto_env \<Rightarrow> qkpack_request_t \<Rightarrow> redis_proto \<Rightarrow> (int \<times> redis_proto) result" where
  "RedisProtoEncodeLoadScript env request rp =
    (let ip = rq_node_ip request in
     bindR (load_script env ip redis_proto_add_multikv_name (rp_add_multikv_script rp) rp) (\<lambda>(rc, rp).
     if rc \<noteq> QKPACK_OK then Inr (QKPACK_ERROR, rp) else
     bindR (load_script env ip redis_proto_add_zset_name (rp_add_zset_script rp) rp) (\<lambda>(rc, rp).
     if rc \<noteq> QKPACK_OK then Inr (QKPACK_ERROR, rp) else
     bindR (load_script env ip redis_proto_incrby_name (rp_incrby_script rp) rp) (\<lambda>(rc, rp).
     if rc \<noteq> QKPACK_OK then Inr (QKPACK_ERROR, rp) else
     bindR (load_script env ip redis_proto_add_rset_name (rp_add_rset_script rp) rp) (\<lambda>(rc, rp).
     if rc \<noteq> QKPACK_OK then Inr (QKPACK_ERROR, rp) else
     Inr (QKPACK_OK, rp))))))"

subsection \<open>Values\<close>

text \<open>\<open>Some\<close> the compressed value exactly when the function returns \<open>true\<close>.\<close>

definition CompressValue :: "proto_env \<Rightarrow> bytes \<Rightarrow> int \<Rightarrow> bytes option" where
  "CompressValue env value compress_threshold =
    (let len = to_int (int (length value)) in
     if len < compress_threshold then None
     else
       let compress_value = snappy_Compress (pe_snappy env) value in
       if to_int (int (length compress_value)) > len then None else Some compress_value)"

definition UncompressValue :: "proto_env \<Rightarrow> bytes \<Rightarrow> bytes option result" where
  "UncompressValue env value =
    (if \<not> snappy_IsValidCompressed value then Inr None
     else snappy_Uncompress (pe_junk env) (pe_snappy env) value)"

text \<open>The value as it is sent: compressed when \<open>CompressValue\<close> says so.\<close>

definition value_arg :: "proto_env \<Rightarrow> int option \<Rightarrow> bytes \<Rightarrow> bytes" where
  "value_arg env threshold value =
    (case CompressValue env value (case threshold of None \<Rightarrow> pe_junk_int env | Some t \<Rightarrow> t) of
       None \<Rightarrow> value | Some compress_value \<Rightarrow> compress_value)"

definition value_of_reply :: "proto_env \<Rightarrow> bytes \<Rightarrow> bytes result" where
  "value_of_reply env value =
    bindR (UncompressValue env value) (\<lambda>r. Inr (case r of None \<Rightarrow> value | Some src_value \<Rightarrow> src_value))"

subsection \<open>Commands\<close>

text \<open>\<open>safe_snprintf\<close> into \<open>char buf[LONG_LEN]\<close> followed by a copy of as many bytes as it reports.\<close>

definition LONG_LEN :: nat where "LONG_LEN = 21"

definition snprintf_buf :: "bytes \<Rightarrow> bytes result" where
  "snprintf_buf s =
    (if length s < LONG_LEN then Inr s
     else if length s = LONG_LEN then Inr (take (LONG_LEN - 1) s @ [NUL])
     else Inl Out_of_bounds)"

definition to_ulong :: "int \<Rightarrow> nat" where
  "to_ulong v = nat (v mod 2 ^ 64)"

text \<open>\<open>proto_str.append(argv.c_str(), len)\<close>.\<close>

definition append_n :: "bytes \<Rightarrow> int \<Rightarrow> bytes result" where
  "append_n argv len =
    (if len < 0 then Inl Length_error
     else if nat len > length argv + 1 then Inl Out_of_bounds
     else Inr (take (nat len) (argv @ [NUL])))"

fun cmd_loop :: "nat \<Rightarrow> bytes list \<Rightarrow> int list \<Rightarrow> bytes \<Rightarrow> bytes result" where
  "cmd_loop 0 argv lens proto_str = Inr proto_str"
| "cmd_loop (Suc n) argv lens proto_str =
    (case (argv, lens) of
       (a # argv', l # lens') \<Rightarrow>
         bindR (snprintf_buf (''$'' @ dec_nat (to_ulong l) @ CRLF)) (\<lambda>head.
         bindR (append_n a l) (\<lambda>body.
         cmd_loop n argv' lens' (proto_str @ head @ body @ CRLF)))
     | _ \<Rightarrow> Inl Out_of_bounds)"

definition RedisProtoCmd :: "nat \<Rightarrow> bytes list \<Rightarrow> int list \<Rightarrow> bytes result" where
  "RedisProtoCmd argc vector_argv vector_lens =
    bindR (snprintf_buf (''*'' @ dec_nat argc @ CRLF)) (cmd_loop argc vector_argv vector_lens)"

definition RedisProtoCmdArray :: "nat \<Rightarrow> bytes list \<Rightarrow> int list \<Rightarrow> bytes result" where
  "RedisProtoCmdArray argc argv lens =
    bindR (snprintf_buf (''*'' @ dec_nat argc @ CRLF)) (cmd_loop argc argv lens)"

definition lens_of :: "bytes list \<Rightarrow> int list" where
  "lens_of argv = map (\<lambda>a. to_int (int (length a))) argv"

type_synonym encoded = "(int \<times> qkpack_request_t \<times> redis_proto) result"

definition send_cmd :: "nat \<Rightarrow> bytes list \<Rightarrow> qkpack_request_t \<Rightarrow> redis_proto \<Rightarrow> encoded" where
  "send_cmd argc argv request rp =
    bindR (RedisProtoCmd argc argv (lens_of argv)) (\<lambda>s.
      Inr (QKPACK_OK, upd_kv (\<lambda>k. k\<lparr>kv_proto_str := s\<rparr>) request, rp))"

definition send_array :: "nat \<Rightarrow> bytes list \<Rightarrow> qkpack_request_t \<Rightarrow> redis_proto \<Rightarrow> encoded" where
  "send_array argc argv request rp =
    bindR (RedisProtoCmdArray argc argv (lens_of argv)) (\<lambda>s.
      Inr (QKPACK_OK, upd_kv (\<lambda>k. k\<lparr>kv_proto_str := s\<rparr>) request, rp))"

definition RedisProtoEncodePing :: "qkpack_request_t \<Rightarrow> redis_proto \<Rightarrow> encoded" where
  "RedisProtoEncodePing request rp = send_array 1 [''ping''] request rp"

definition RedisProtoEncodeParamOne :: "qkpack_request_t \<Rightarrow> redis_proto \<Rightarrow> encoded" where
  "RedisProtoEncodeParamOne request rp =
    (let kv = rq_kvpair request; ns_key = kv_namespaces kv @ kv_key kv in
     send_array 2 [kv_command kv, ns_key] request rp)"

definition RedisProtoEncodeParamTwo :: "proto_env \<Rightarrow> qkpack_request_t \<Rightarrow> redis_proto \<Rightarrow> encoded" where
  "RedisProtoEncodeParamTwo env request rp =
    (let kv = rq_kvpair request; ns_key = kv_namespaces kv @ kv_key kv in
     send_array 3 [kv_command kv, ns_key, value_arg env (kv_compress_threshold kv) (kv_value kv)] request rp)"

definition RedisProtoEncodeParamThree :: "proto_env \<Rightarrow> qkpack_request_t \<Rightarrow> redis_proto \<Rightarrow> encoded" where
  "RedisProtoEncodeParamThree env request rp =
    (let kv = rq_kvpair request; ns_key = kv_namespaces kv @ kv_key kv; exptime = ToString (kv_exptime kv) in
     send_array 4 [kv_command kv, ns_key, exptime, value_arg env (kv_compress_threshold kv) (kv_value kv)]
       request rp)"

text \<open>The objects behind the pointers of a slot; a dangling one is a fault.\<close>

fun deref_all :: "qkpack_request_t \<Rightarrow> kvref list \<Rightarrow> kvpair_t list result" where
  "deref_all par [] = Inr []"
| "deref_all par (p # ps) =
    (case kv_deref par p of None \<Rightarrow> Inl Null_deref
     | Some k \<Rightarrow> bindR (deref_all par ps) (\<lambda>ks. Inr (k # ks)))"

definition RedisProtoEncodeParamMulti ::
  "qkpack_request_t option \<Rightarrow> qkpack_request_t \<Rightarrow> redis_proto \<Rightarrow> encoded" where
  "RedisProtoEncodeParamMulti parent request rp =
    (case parent of None \<Rightarrow> Inl Null_deref
     | Some par \<Rightarrow>
       let namespaces = kv_namespaces (rq_kvpair par);
           request = upd_kv (\<lambda>k. k\<lparr>kv_script_name := ''MGET''\<rparr>) request in
       case smap_get (rq_map_slots_kv par) (rq_slot_id request) of
         None \<Rightarrow> Inr (QKPACK_ERROR, request, rp)
       | Some refs \<Rightarrow>
           bindR (deref_all par refs) (\<lambda>kvs.
             send_cmd (length refs + 1)
               (kv_command (rq_kvpair request) # map (\<lambda>k. namespaces @ kv_key k) kvs) request rp))"

definition RedisProtoEncodeSrem :: "proto_env \<Rightarrow> qkpack_request_t \<Rightarrow> redis_proto \<Rightarrow> encoded" where
  "RedisProtoEncodeSrem env request rp =
    (let kv = rq_kvpair request; mbs = rq_vector_mbs request; ns_key = kv_namespaces kv @ kv_key kv in
     send_cmd (length mbs + 2)
       ([kv_command kv, ns_key] @
        map (\<lambda>mb. value_arg env (kv_compress_threshold kv) (zm_member mb)) mbs)
       request rp)"

definition RedisProtoEncodeSadd :: "proto_env \<Rightarrow> qkpack_request_t \<Rightarrow> redis_proto \<Rightarrow> encoded" where
  "RedisProtoEncodeSadd env request rp =
    (let kv = rq_kvpair request; mbs = rq_vector_mbs request; ns_key = kv_namespaces kv @ kv_key kv;
         exptime = ToString (kv_exptime kv) in
     bindR (RedisProtoEncodeLoadScript env request rp) (\<lambda>(rc, rp).
     if rc \<noteq> QKPACK_OK then Inr (QKPACK_ERROR, request, rp)
     else
       let request = upd_kv (\<lambda>k. k\<lparr>kv_command := ''EVALSHA'', kv_script_name := redis_proto_add_rset_name\<rparr>) request;
           rp = script_touch (rq_node_ip request) redis_proto_add_rset_name rp;
           script_sha = script_at (rq_node_ip request) redis_proto_add_rset_name rp in
       if script_sha = [] then Inr (QKPACK_ERROR, request, rp)
       else send_cmd (length mbs + 6)
         ([''EVALSHA'', script_sha, ''1'', ns_key, exptime, ToString (int (length mbs))] @
          map (\<lambda>mb. value_arg env (kv_compress_threshold kv) (zm_member mb)) mbs)
         request rp))"

definition RedisProtoEncodeIncrBy :: "proto_env \<Rightarrow> qkpack_request_t \<Rightarrow> redis_proto \<Rightarrow> encoded" where
  "RedisProtoEncodeIncrBy env request rp =
    (let kv = rq_kvpair request; ns_key = kv_namespaces kv @ kv_key kv; exptime = ToString (kv_exptime kv) in
     bindR (RedisProtoEncodeLoadScript env request rp) (\<lambda>(rc, rp).
     if rc \<noteq> QKPACK_OK then Inr (QKPACK_ERROR, request, rp)
     else
       let request =
         (if kv_command_type kv = REDIS_INCR then
            upd_kv (\<lambda>k. k\<lparr>kv_command := ''INCR'', kv_value := (if kv_value k = [] then ''1'' else kv_value k)\<rparr>) request
          else if kv_command_type kv = REDIS_INCRBY then
            upd_kv (\<lambda>k. k\<lparr>kv_script_name := redis_proto_incrby_name, kv_command := ''EVALSHA''\<rparr>) request
          else request) in
       if kv_command_type kv = REDIS_INCRBY \<and> kv_value kv = [] then Inr (QKPACK_ERROR, request, rp)
       else
         let rp = script_touch (rq_node_ip request) redis_proto_incrby_name rp;
             script_sha = script_at (rq_node_ip request) redis_proto_incrby_name rp in
         if script_sha = [] then Inr (QKPACK_ERROR, request, rp)
         else send_array 6
           [''EVALSHA'', script_sha, ''1'', ns_key, kv_value (rq_kvpair request), exptime] request rp))"

definition RedisProtoEncodeMset ::
  "proto_env \<Rightarrow> qkpack_request_t option \<Rightarrow> qkpack_request_t \<Rightarrow> redis_proto \<Rightarrow> encoded" where
  "RedisProtoEncodeMset env parent request rp =
    (case parent of None \<Rightarrow> Inl Null_deref
     | Some par \<Rightarrow>
       let namespaces = kv_namespaces (rq_kvpair par); exptime = ToString (kv_exptime (rq_kvpair par)) in
       case smap_get (rq_map_slots_kv par) (rq_slot_id request) of
         None \<Rightarrow> Inr (QKPACK_ERROR, request, rp)
       | Some refs \<Rightarrow>
           bindR (RedisProtoEncodeLoadScript env request rp) (\<lambda>(rc, rp).
           if rc \<noteq> QKPACK_OK then Inr (QKPACK_ERROR, request, rp)
           else
             let request =
                   upd_kv (\<lambda>k. k\<lparr>kv_command := ''EVALSHA'', kv_script_name := redis_proto_add_multikv_name\<rparr>) request;
                 rp = script_touch (rq_node_ip request) redis_proto_add_multikv_name rp;
                 script_sha = script_at (rq_node_ip request) redis_proto_add_multikv_name rp in
             if script_sha = [] then Inr (QKPACK_ERROR, request, rp)
             else bindR (deref_all par refs) (\<lambda>kvs.
               send_cmd (3 + length refs * 3)
                 ([''EVALSHA'', script_sha, ToString (int (length refs))] @
                  map (\<lambda>k. namespaces @ kv_key k) kvs @
                  map (\<lambda>k. value_arg env (kv_compress_threshold (rq_kvpair request)) (kv_value k)) kvs @
                  replicate (length refs) exptime)
                 request rp)))"

fun score_member_args :: "bytes \<Rightarrow> kvpair_t list \<Rightarrow> bytes list result" where
  "score_member_args namespaces [] = Inr []"
| "score_member_args namespaces (k # ks) =
    bindR (DoubleToString (kv_score k)) (\<lambda>scor.
    bindR (score_member_args namespaces ks) (\<lambda>args.
    Inr (scor # (namespaces @ kv_key k) # args)))"

definition RedisProtoEncodeZfixedsetAdd ::
  "proto_env \<Rightarrow> qkpack_request_t option \<Rightarrow> qkpack_request_t \<Rightarrow> redis_proto \<Rightarrow> encoded" where
  "RedisProtoEncodeZfixedsetAdd env parent request rp =
    (case parent of None \<Rightarrow> Inl Null_deref
     | Some par \<Rightarrow>
       let namespaces = kv_namespaces (rq_kvpair par); exptime = ToString (kv_exptime (rq_kvpair par));
           key = kv_key (rq_kvpair request) in
       case smap_get (rq_map_kv par) key of
         None \<Rightarrow> Inr (QKPACK_ERROR, request, rp)
       | Some [] \<Rightarrow> Inl Out_of_bounds
       | Some (kv0 # kvs) \<Rightarrow>
           let count = length (kv0 # kvs);
               limit = ToString (case kv_limit kv0 of None \<Rightarrow> pe_junk_int env | Some l \<Rightarrow> l) in
           bindR (RedisProtoEncodeLoadScript env request rp) (\<lambda>(rc, rp).
           if rc \<noteq> QKPACK_OK then Inr (QKPACK_ERROR, request, rp)
           else
             let request =
                   upd_kv (\<lambda>k. k\<lparr>kv_command := ''EVALSHA'', kv_script_name := redis_proto_add_zset_name\<rparr>) request;
                 rp = script_touch (rq_node_ip request) redis_proto_add_zset_name rp;
                 script_sha = script_at (rq_node_ip request) redis_proto_add_zset_name rp in
             if script_sha = [] then Inr (QKPACK_ERROR, request, rp)
             else bindR (score_member_args namespaces (kv0 # kvs)) (\<lambda>args.
               send_cmd (7 + count * 2)
                 ([''EVALSHA'', script_sha, ''1'', namespaces @ key, limit, exptime, ToString (int count)] @ args)
                 request rp)))"

definition RedisProtoEncodeZfixedsetGetByScore ::
  "qkpack_request_t option \<Rightarrow> qkpack_request_t \<Rightarrow> redis_proto \<Rightarrow> encoded" where
  "RedisProtoEncodeZfixedsetGetByScore parent request rp =
    (case parent of None \<Rightarrow> Inl Null_deref
     | Some par \<Rightarrow>
       let namespaces = kv_namespaces (rq_kvpair par); key = kv_key (rq_kvpair request) in
       case smap_get (rq_map_query par) key of
         None \<Rightarrow> Inr (QKPACK_ERROR, request, rp)
       | Some q \<Rightarrow>
           let command = (if zq_asc q then ''ZRANGEBYSCORE'' else ''ZREVRANGEBYSCORE'');
               request = upd_kv (\<lambda>k. k\<lparr>kv_command := command, kv_script_name := ''ZRANGE''\<rparr>) request in
           bindR (DoubleToString (zq_min q)) (\<lambda>str_min.
           bindR (DoubleToString (zq_max q)) (\<lambda>str_max.
           send_array (if zq_ws q then 5 else 4)
             ([command, namespaces @ key] @
              (if zq_asc q then [str_min, str_max] else [str_max, str_min]) @
              (if zq_ws q then [''WITHSCORES''] else []))
             request rp)))"

definition RedisProtoEncodeZfixedsetGetByRank ::
  "qkpack_request_t option \<Rightarrow> qkpack_request_t \<Rightarrow> redis_proto \<Rightarrow> encoded" where
  "RedisProtoEncodeZfixedsetGetByRank parent request rp =
    (case parent of None \<Rightarrow> Inl Null_deref
     | Some par \<Rightarrow>
       let namespaces = kv_namespaces (rq_kvpair par); key = kv_key (rq_kvpair request) in
       case smap_get (rq_map_query par) key of
         None \<Rightarrow> Inr (QKPACK_ERROR, request, rp)
       | Some q \<Rightarrow>
           let command = (if zq_asc q then ''ZRANGE'' else ''ZREVRANGE'');
               request = upd_kv (\<lambda>k. k\<lparr>kv_command := command, kv_script_name := ''ZRANGE''\<rparr>) request in
           bindR (dbl_to_int64 (zq_min q)) (\<lambda>mn.
           bindR (dbl_to_int64 (zq_max q)) (\<lambda>mx.
           send_array (if zq_ws q then 5 else 4)
             ([command, namespaces @ key, ToString mn, ToString mx] @
              (if zq_ws q then [''WITHSCORES''] else []))
             request rp)))"

abbreviation set_command :: "bytes \<Rightarrow> qkpack_request_t \<Rightarrow> qkpack_request_t" where
  "set_command c request \<equiv> upd_kv (\<lambda>k. k\<lparr>kv_command := c\<rparr>) request"

definition RedisProtoEncode ::
  "proto_env \<Rightarrow> qkpack_request_t option \<Rightarrow> qkpack_request_t \<Rightarrow> redis_proto \<Rightarrow> encoded" where
  "RedisProtoEncode env parent request rp =
    (if rq_code request \<noteq> QKPACK_RESPONSE_CODE_OK then RedisProtoEncodePing request rp
     else
       let t = kv_command_type (rq_kvpair request) in
       if t = REDIS_GET then RedisProtoEncodeParamOne (set_command ''GET'' request) rp
       else if t = REDIS_DEL then RedisProtoEncodeParamOne (set_command ''DEL'' request) rp
       else if t = REDIS_TTL then RedisProtoEncodeParamOne (set_command ''TTL'' request) rp
       else if t = REDIS_SET then RedisProtoEncodeParamThree env (set_command ''SETEX'' request) rp
       else if t = REDIS_INCR \<or> t = REDIS_INCRBY then RedisProtoEncodeIncrBy env request rp
       else if t = REDIS_SADD then RedisProtoEncodeSadd env (set_command ''SADD'' request) rp
       else if t = REDIS_SREM then RedisProtoEncodeSrem env (set_command ''SREM'' request) rp
       else if t = REDIS_SCARD then RedisProtoEncodeParamOne (set_command ''SCARD'' request) rp
       else if t = REDIS_SMEMBERS then RedisProtoEncodeParamOne (set_command ''SMEMBERS'' request) rp
       else if t = REDIS_SISMEMBER then RedisProtoEncodeParamTwo env (set_command ''SISMEMBER'' request) rp
       else if t = REDIS_MGET then RedisProtoEncodeParamMulti parent (set_command ''MGET'' request) rp
       else if t = REDIS_MSET then RedisProtoEncodeMset env parent request rp
       else if t = REDIS_ZADD then RedisProtoEncodeZfixedsetAdd env parent request rp
       else if t = REDIS_ZBATCHADD then Inr (QKPACK_OK, request, rp)
       else if t = REDIS_ZRANGEBYSCORE then RedisProtoEncodeZfixedsetGetByScore parent request rp
       else if t = REDIS_ZRANGE then RedisProtoEncodeZfixedsetGetByRank parent request rp
       else Inr (QKPACK_ERROR, request, rp))"

subsection \<open>Replies\<close>

text \<open>A pointer moved by \<open>n\<close> bytes, and \<open>std::string(p, n)\<close>; the terminator of the buffer can be read.\<close>

definition advance :: "nat \<Rightarrow> bytes \<Rightarrow> bytes result" where
  "advance n p = (if n \<le> length p then Inr (drop n p) else Inl Out_of_bounds)"

definition string_at :: "bytes \<Rightarrow> int \<Rightarrow> bytes result" where
  "string_at p n =
    (if n < 0 then Inl Length_error
     else if nat n > length p + 1 then Inl Out_of_bounds
     else Inr (take (nat n) (p @ [NUL])))"

definition read_len :: "bytes \<Rightarrow> int \<times> bytes" where
  "read_len p = (let (v, rest) = strtol 0 p in (to_int v, rest))"

type_synonym decoded = "(int \<times> qkpack_request_t \<times> qkpack_request_t option \<times> redis_proto) result"

definition RedisProtoDecodeGetString :: "proto_env \<Rightarrow> bytes \<Rightarrow> qkpack_request_t \<Rightarrow> (int \<times> qkpack_request_t) result" where
  "RedisProtoDecodeGetString env rdata request =
    (let (bulklen, rest) = read_len rdata in
     if bulklen = - 1 then Inr (QKPACK_OK, upd_kv (\<lambda>k. k\<lparr>kv_value := ''null''\<rparr>) request)
     else
       bindR (advance 2 rest) (\<lambda>rest.
       bindR (string_at rest bulklen) (\<lambda>value.
       bindR (value_of_reply env value) (\<lambda>v.
       Inr (QKPACK_OK, upd_kv (\<lambda>k. k\<lparr>kv_value := v\<rparr>) request)))))"

text \<open>
  \<open>while (strncmp(p, "\r\n", 2) != 0) p++;\<close> runs off the buffer when there is no line end;
  \<open>None\<close> when the size does not fit an \<open>int\<close>.
\<close>

definition line_of :: "bytes \<Rightarrow> bytes option result" where
  "line_of rdata =
    (case find_at CRLF rdata of None \<Rightarrow> Inl Out_of_bounds
     | Some n \<Rightarrow>
       let sz = to_int (int n);
           sz = (if sz = - 1 then to_int (int (length (takeWhile (\<lambda>c. c \<noteq> NUL) rdata))) else sz) in
       if sz < 0 then Inr None else bindR (string_at rdata sz) (\<lambda>line. Inr (Some line)))"

definition RedisProtoDecodeGetStatus :: "bytes \<Rightarrow> qkpack_request_t \<Rightarrow> (int \<times> qkpack_request_t) result" where
  "RedisProtoDecodeGetStatus rdata request =
    bindR (line_of rdata) (\<lambda>line. case line of
      None \<Rightarrow> Inr (QKPACK_ERROR, request)
    | Some l \<Rightarrow> Inr (QKPACK_OK, upd_kv (\<lambda>k. k\<lparr>kv_value := l\<rparr>) request))"

definition RedisProtoDecodeGetError ::
  "proto_env \<Rightarrow> bytes \<Rightarrow> qkpack_request_t \<Rightarrow> redis_proto \<Rightarrow> (int \<times> qkpack_request_t \<times> redis_proto) result" where
  "RedisProtoDecodeGetError env rdata request rp =
    (if starts_with ''MOVED'' rdata then Inr (REDIS_MOVED, request, rp)
     else if starts_with ''ASK'' rdata then Inr (REDIS_ASK, request, rp)
     else if starts_with ''TRYAGAIN'' rdata then Inr (REDIS_TRYAGAIN, request, rp)
     else if starts_with ''NOSCRIPT'' rdata then
       bindR (RedisProtoEncodeLoadScript env request rp) (\<lambda>(rc, rp).
         if rc \<noteq> QKPACK_OK then Inr (QKPACK_ERROR, request, rp) else Inr (REDIS_TRYAGAIN, request, rp))
     else
       bindR (line_of rdata) (\<lambda>line. case line of
         None \<Rightarrow> Inr (QKPACK_ERROR, request, rp)
       | Some l \<Rightarrow>
           Inr (QKPACK_OK, request\<lparr>rq_desc := l, rq_code := QKPACK_RESPONSE_CODE_REDIS_STORAGE_ERROR\<rparr>, rp)))"

definition RedisProtoDecodeGetInteger :: "bytes \<Rightarrow> qkpack_request_t \<Rightarrow> int \<times> qkpack_request_t" where
  "RedisProtoDecodeGetInteger rdata request =
    (QKPACK_OK, upd_kv (\<lambda>k. k\<lparr>kv_num := fst (read_len rdata)\<rparr>) request)"

text \<open>\<open>request->parent->map_slots_kv[request->slot_id][i]->value = v\<close>.\<close>

definition set_slot_value ::
  "qkpack_request_t \<Rightarrow> nat \<Rightarrow> bytes \<Rightarrow> qkpack_request_t option \<Rightarrow> qkpack_request_t option result" where
  "set_slot_value request i v parent =
    (case parent of None \<Rightarrow> Inl Null_deref
     | Some par \<Rightarrow>
       let refs = smap_at [] (rq_map_slots_kv par) (rq_slot_id request) in
       if i < length refs then
         (case kv_deref par (refs ! i) of None \<Rightarrow> Inl Null_deref
          | Some _ \<Rightarrow> Inr (Some (kv_set_value v (refs ! i) par)))
       else Inl Out_of_bounds)"

definition is_multi :: "qkpack_request_t \<Rightarrow> bool" where
  "is_multi request \<longleftrightarrow>
    kv_command_type (rq_kvpair request) = REDIS_MGET \<or> kv_command_type (rq_kvpair request) = REDIS_MSET"

definition is_range :: "qkpack_request_t \<Rightarrow> bool" where
  "is_range request \<longleftrightarrow>
    kv_command_type (rq_kvpair request) = REDIS_ZRANGEBYSCORE \<or> kv_command_type (rq_kvpair request) = REDIS_ZRANGE"

definition reads_element :: "qkpack_request_t \<Rightarrow> bool" where
  "reads_element request \<longleftrightarrow>
    is_multi request \<or> kv_command_type (rq_kvpair request) = REDIS_SMEMBERS \<or> is_range request"

text \<open>What one element of the array does: the request, the parent and the member kept for its score.\<close>

definition array_element ::
  "proto_env \<Rightarrow> nat \<Rightarrow> bytes \<Rightarrow> qkpack_request_t \<times> qkpack_request_t option \<times> bytes \<Rightarrow>
    (qkpack_request_t \<times> qkpack_request_t option \<times> bytes) result" where
  "array_element env i value st =
    (case st of (request, parent, member) \<Rightarrow>
     if is_multi request then
       bindR (value_of_reply env value) (\<lambda>v.
       bindR (set_slot_value request i v parent) (\<lambda>parent. Inr (request, parent, member)))
     else if kv_command_type (rq_kvpair request) = REDIS_SMEMBERS then
       bindR (value_of_reply env value) (\<lambda>v.
       Inr (request\<lparr>rq_vector_mbs := rq_vector_mbs request @ [\<lparr>zm_member = v, zm_value = [], zm_score = 0\<rparr>]\<rparr>,
            parent, member))
     else if is_range request then
       (case parent of None \<Rightarrow> Inl Null_deref
        | Some par \<Rightarrow>
          if odd i then
            let kv = new_kvpair\<lparr>kv_key := member,
                  kv_score := (case StrToDouble (takeWhile (\<lambda>c. c \<noteq> NUL) value) of
                                 None \<Rightarrow> pe_junk_double env | Some (_, x) \<Rightarrow> x)\<rparr> in
            Inr (request,
                 Some (par\<lparr>rq_map_kv := smap_push (kv_key (rq_kvpair request)) kv (rq_map_kv par)\<rparr>), [])
          else Inr (request, parent, drop (length (kv_namespaces (rq_kvpair par))) value))
     else Inr st)"

text \<open>
  The loop over the elements.  The elements of a reply to any other command are skipped without being read; a
  length below \<open>-2\<close> would move the pointer backwards there and counts as a fault.
\<close>

fun array_loop ::
  "proto_env \<Rightarrow> nat \<Rightarrow> nat \<Rightarrow> bytes \<Rightarrow> qkpack_request_t \<times> qkpack_request_t option \<times> bytes \<Rightarrow>
    (qkpack_request_t \<times> qkpack_request_t option \<times> bytes) result" where
  "array_loop env 0 i rest st = Inr st"
| "array_loop env (Suc n) i rest st =
    bindR (advance 1 rest) (\<lambda>rest.
    let (bulklen, rest) = read_len rest in
    bindR (advance 2 rest) (\<lambda>rest.
    if bulklen = - 1 then
      (case st of (request, parent, member) \<Rightarrow>
       if is_multi request then
         bindR (set_slot_value request i ''null'' parent) (\<lambda>parent.
           array_loop env n (Suc i) rest (request, parent, member))
       else array_loop env n (Suc i) rest st)
    else
      bindR (if reads_element (fst st) then string_at rest bulklen else Inr []) (\<lambda>value.
      bindR (array_element env i value st) (\<lambda>st.
      bindR (if bulklen < - 2 then Inl Out_of_bounds else advance (nat (bulklen + 2)) rest) (\<lambda>rest.
      array_loop env n (Suc i) rest st)))))"

definition RedisProtoDecodeGetArray ::
  "proto_env \<Rightarrow> bytes \<Rightarrow> qkpack_request_t option \<Rightarrow> qkpack_request_t \<Rightarrow>
    (int \<times> qkpack_request_t \<times> qkpack_request_t option) result" where
  "RedisProtoDecodeGetArray env rdata parent request =
    (let (multibulkSize, rest) = read_len rdata in
     if multibulkSize = - 1 then Inr (QKPACK_ERROR, request, parent)
     else
       bindR (advance 2 rest) (\<lambda>rest.
       bindR (array_loop env (nat multibulkSize) 0 rest (request, parent, [])) (\<lambda>(request, parent, _).
       Inr (QKPACK_OK, request, parent))))"

definition ttl_check :: "int \<Rightarrow> qkpack_request_t \<Rightarrow> int \<times> qkpack_request_t" where
  "ttl_check rc request =
    (if kv_command_type (rq_kvpair request) = REDIS_TTL then
       if kv_num (rq_kvpair request) = - 1 then
         (QKPACK_ERROR, request\<lparr>rq_desc := ''kvpair the key exists but has no associated expire'',
                                rq_code := QKPACK_RESPONSE_CODE_REDIS_STORAGE_ERROR\<rparr>)
       else if kv_num (rq_kvpair request) = - 2 then
         (QKPACK_ERROR, request\<lparr>rq_desc := ''kvpair the key does not exist'',
                                rq_code := QKPACK_RESPONSE_CODE_REDIS_STORAGE_ERROR\<rparr>)
       else (rc, request)
     else (rc, request))"

definition RedisProtoDecode ::
  "proto_env \<Rightarrow> qkpack_request_t option \<Rightarrow> qkpack_request_t \<Rightarrow> redis_proto \<Rightarrow> decoded" where
  "RedisProtoDecode env parent request rp =
    (case rq_response_buffer request of
       [] \<Rightarrow> Inr (QKPACK_ERROR, request, parent, rp)
     | c # rdata \<Rightarrow>
       if rq_code request \<noteq> QKPACK_RESPONSE_CODE_OK then Inr (QKPACK_ERROR, request, parent, rp)
       else if c = CHR ''-'' then
         bindR (RedisProtoDecodeGetError env rdata request rp) (\<lambda>(rc, request, rp). Inr (rc, request, parent, rp))
       else if c = CHR ''+'' then
         bindR (RedisProtoDecodeGetStatus rdata request) (\<lambda>(rc, request). Inr (rc, request, parent, rp))
       else if c = CHR '':'' then
         (case RedisProtoDecodeGetInteger rdata request of (rc, request) \<Rightarrow> Inr (rc, request, parent, rp))
       else if c = CHR ''$'' then
         bindR (RedisProtoDecodeGetString env rdata request) (\<lambda>(rc, request).
           case ttl_check rc request of (rc, request) \<Rightarrow> Inr (rc, request, parent, rp))
       else if c = CHR ''*'' then
         bindR (RedisProtoDecodeGetArray env rdata parent request) (\<lambda>(rc, request, parent).
           case ttl_check rc request of (rc, request) \<Rightarrow> Inr (rc, request, parent, rp))
       else Inr (QKPACK_ERROR, request, parent, rp))"

subsection \<open>Reference: the wire format\<close>

text \<open>What a Redis server reads: an array header, then that many length-prefixed strings.\<close>

definition resp_head :: "char \<Rightarrow> bytes \<Rightarrow> (nat \<times> bytes) option" where
  "resp_head c p =
    (case p of [] \<Rightarrow> None
     | c' # ds \<Rightarrow>
       if c' = c \<and> starts_digit 10 ds then
         let (n, rest) = read_digits 10 ds 0 in if starts_with CRLF rest then Some (n, drop 2 rest) else None
       else None)"

fun resp_bulks :: "nat \<Rightarrow> bytes \<Rightarrow> (bytes list \<times> bytes) option" where
  "resp_bulks 0 p = Some ([], p)"
| "resp_bulks (Suc n) p =
    (case resp_head (CHR ''$'') p of None \<Rightarrow> None
     | Some (len, q) \<Rightarrow>
       if len + 2 \<le> length q \<and> take 2 (drop len q) = CRLF then
         (case resp_bulks n (drop (len + 2) q) of None \<Rightarrow> None | Some (args, r) \<Rightarrow> Some (take len q # args, r))
       else None)"

definition resp_parse :: "bytes \<Rightarrow> (bytes list \<times> bytes) option" where
  "resp_parse p = (case resp_head (CHR ''*'') p of None \<Rightarrow> None | Some (n, q) \<Rightarrow> resp_bulks n q)"

definition resp_bulk :: "bytes \<Rightarrow> bytes" where
  "resp_bulk a = ''$'' @ dec_nat (length a) @ CRLF @ a @ CRLF"

definition resp_request :: "bytes list \<Rightarrow> bytes" where
  "resp_request argv = ''*'' @ dec_nat (length argv) @ CRLF @ concat (map resp_bulk argv)"

definition resp_item :: "bytes option \<Rightarrow> bytes" where
  "resp_item v = (case v of None \<Rightarrow> ''$-1'' @ CRLF | Some a \<Rightarrow> resp_bulk a)"

definition resp_array :: "bytes option list \<Rightarrow> bytes" where
  "resp_array vs = ''*'' @ dec_nat (length vs) @ CRLF @ concat (map resp_item vs)"

text \<open>The request built is one complete array of \<open>argc\<close> strings with nothing after it.\<close>

definition one_request :: "qkpack_request_t \<Rightarrow> nat \<Rightarrow> bool" where
  "one_request request argc \<longleftrightarrow>
    (\<exists>args. length args = argc \<and> resp_parse (kv_proto_str (rq_kvpair request)) = Some (args, []))"

definition counts_fit :: "qkpack_request_t option \<Rightarrow> qkpack_request_t \<Rightarrow> bool" where
  "counts_fit parent request \<longleftrightarrow>
    length (rq_vector_mbs request) < 2 ^ 31 \<and>
    (case parent of None \<Rightarrow> True
     | Some par \<Rightarrow> length (smap_at [] (rq_map_slots_kv par) (rq_slot_id request)) < 2 ^ 31 \<and>
         length (smap_at [] (rq_map_kv par) (kv_key (rq_kvpair request))) < 2 ^ 31)"

text \<open>The commands that take the key alone.\<close>

definition single_key_commands :: "(int \<times> bytes) list" where
  "single_key_commands = [(REDIS_GET, ''GET''), (REDIS_DEL, ''DEL''), (REDIS_TTL, ''TTL''),
     (REDIS_SCARD, ''SCARD''), (REDIS_SMEMBERS, ''SMEMBERS'')]"

definition script_names :: "bytes list" where
  "script_names = [redis_proto_add_multikv_name, redis_proto_add_zset_name, redis_proto_incrby_name,
     redis_proto_add_rset_name]"

text \<open>The effect of the elements of an array reply, without their encoding.\<close>

definition item_step ::
  "proto_env \<Rightarrow> nat \<Rightarrow> bytes option \<Rightarrow> qkpack_request_t \<times> qkpack_request_t option \<times> bytes \<Rightarrow>
    (qkpack_request_t \<times> qkpack_request_t option \<times> bytes) result" where
  "item_step env i v st =
    (case v of
       Some a \<Rightarrow> array_element env i a st
     | None \<Rightarrow>
       (case st of (request, parent, member) \<Rightarrow>
        if is_multi request then
          bindR (set_slot_value request i ''null'' parent) (\<lambda>parent. Inr (request, parent, member))
        else Inr st))"

fun items ::
  "proto_env \<Rightarrow> nat \<Rightarrow> bytes option list \<Rightarrow> qkpack_request_t \<times> qkpack_request_t option \<times> bytes \<Rightarrow>
    (qkpack_request_t \<times> qkpack_request_t option \<times> bytes) result" where
  "items env i [] st = Inr st"
| "items env i (v # vs) st = bindR (item_step env i v st) (items env (Suc i) vs)"

definition item_value :: "proto_env \<Rightarrow> bytes option \<Rightarrow> bytes result" where
  "item_value env v = (case v of None \<Rightarrow> Inr ''null'' | Some a \<Rightarrow> value_of_reply env a)"

text \<open>The pair an even and the following odd element of a range reply make.\<close>

definition range_pair :: "proto_env \<Rightarrow> bytes \<Rightarrow> bytes \<Rightarrow> bytes \<Rightarrow> kvpair_t" where
  "range_pair env namespaces mem score = new_kvpair\<lparr>kv_key := drop (length namespaces) mem,
     kv_score := (case StrToDouble (takeWhile (\<lambda>c. c \<noteq> NUL) score) of None \<Rightarrow> pe_junk_double env | Some (_, x) \<Rightarrow> x)\<rparr>"

fun range_pairs :: "proto_env \<Rightarrow> bytes \<Rightarrow> bytes list \<Rightarrow> kvpair_t list" where
  "range_pairs env namespaces (mem # score # rest) =
    range_pair env namespaces mem score # range_pairs env namespaces rest"
| "range_pairs env namespaces _ = []"

text \<open>Writing a list of values through the pointers of a slot.\<close>

fun set_values :: "kvref list \<Rightarrow> bytes list \<Rightarrow> qkpack_request_t \<Rightarrow> qkpack_request_t" where
  "set_values (p # ps) (v # vs) par = set_values ps vs (kv_set_value v p par)"
| "set_values _ _ par = par"

subsection \<open>Sample data\<close>

text \<open>
  A codec that stores the data behind one byte meets the contract of the snappy library; with it, sample
  requests on which the properties below are evaluated.
\<close>

definition stored_snappy :: snappy_lib where
  "stored_snappy = \<lparr>sn_Compress = (\<lambda>b. CHR ''s'' # b), sn_GetUncompressedLength = (\<lambda>s. Some (length s - 1)),
     sn_RawUncompress = (\<lambda>s. Some (tl s))\<rparr>"

definition sample_env :: proto_env where
  "sample_env = \<lparr>pe_snappy = stored_snappy, pe_script_load = (\<lambda>_ _ _. Some (Some ''sha'')),
     pe_junk = (\<lambda>_. CHR ''j''), pe_junk_int = 1024, pe_junk_double = 0\<rparr>"

definition sample_request :: "int \<Rightarrow> bytes \<Rightarrow> bytes \<Rightarrow> qkpack_request_t" where
  "sample_request t key value = new_request\<lparr>rq_slot_id := 7, rq_node_ip := ''10.0.0.1:6379'',
     rq_kvpair := new_kvpair\<lparr>kv_command_type := t, kv_namespaces := ''ab'', kv_key := key, kv_value := value,
       kv_compress_threshold := Some 1024\<rparr>\<rparr>"

definition sample_parent :: qkpack_request_t where
  "sample_parent = new_request\<lparr>rq_kvpair := new_kvpair\<lparr>kv_namespaces := ''ab''\<rparr>,
     rq_vector_kv := [new_kvpair\<lparr>kv_key := ''k1'', kv_value := ''v1''\<rparr>, new_kvpair\<lparr>kv_key := ''k2'', kv_value := ''v2''\<rparr>],
     rq_map_slots_kv := [(7, [InVec 0, InVec 1])]\<rparr>"

definition sample_scripts :: redis_proto where
  "sample_scripts = (new_redis_proto ''a'' ''b'' ''c'' ''d'')\<lparr>rp_map_script :=
     [(''10.0.0.1:6379'', [(redis_proto_add_multikv_name, ''h1''), (redis_proto_add_rset_name, ''h4''),
       (redis_proto_add_zset_name, ''h2''), (redis_proto_incrby_name, ''h3'')])]\<rparr>"


section \<open>Building requests\<close>

lemma length_dec_nat: "n < 10 ^ k \<Longrightarrow> 0 < k \<Longrightarrow> length (dec_nat n) \<le> k"
proof (induction n arbitrary: k rule: dec_nat.induct)
  case (1 n)
  show ?case
  proof (cases "n < 10")
    case True
    then show ?thesis using 1(3) by (subst dec_nat.simps) simp
  next
    case False
    then obtain j where k: "k = Suc j" "0 < j" using 1(2,3) by (cases k; cases "k - 1") auto
    have "n div 10 < 10 ^ j" using 1(2) k(1) by (simp add: less_mult_imp_div_less mult.commute)
    then have "length (dec_nat (n div 10)) \<le> j" using 1(1) False k(2) by blast
    then show ?thesis using False k(1) by (subst dec_nat.simps) simp
  qed
qed

lemma snprintf_buf_head:
  assumes "n < 10 ^ 17"
  shows "snprintf_buf (c # dec_nat n @ CRLF) = Inr (c # dec_nat n @ CRLF)"
  using length_dec_nat [OF assms] by (simp add: snprintf_buf_def LONG_LEN_def)

lemma resp_head_dec [simp]: "resp_head c (c # dec_nat n @ CR # LF # rest) = Some (n, rest)"
proof -
  obtain d ds where "dec_nat n = dec_digit d # ds" "d < 10" using hd_dec_nat by blast
  then have "starts_digit 10 (dec_nat n @ CR # LF # rest)" by simp
  then show ?thesis using read_dec_nat [of "CR # LF # rest" n] by (simp add: resp_head_def starts_with_def)
qed

lemma resp_bulks_concat: "resp_bulks (length args) (concat (map resp_bulk args) @ rest) = Some (args, rest)"
  by (induction args) (simp_all add: resp_bulk_def)

lemma resp_parse_request [simp]: "resp_parse (resp_request args @ rest) = Some (args, rest)"
  by (simp add: resp_parse_def resp_request_def resp_bulks_concat)

lemma to_ulong_nonneg: "0 \<le> l \<Longrightarrow> l < 2 ^ 31 \<Longrightarrow> to_ulong l = nat l"
  by (simp add: to_ulong_def)

lemma cmd_loop_bulks:
  assumes "cmd_loop n argv lens s = Inr t" "\<forall>l\<in>set lens. l < 2 ^ 31"
  shows "\<exists>args. length args = n \<and> t = s @ concat (map resp_bulk args)"
  using assms
proof (induction n arbitrary: argv lens s)
  case (Suc n)
  obtain a argv' l lens' where al: "argv = a # argv'" "lens = l # lens'"
    using Suc(2) by (auto split: list.splits)
  have l: "0 \<le> l" "nat l \<le> Suc (length a)"
    using Suc(2) by (auto simp: al append_n_def bindR_Inr_iff split: if_splits)
  have lt: "l < 2 ^ 31" using Suc(3) al by simp
  have sn: "snprintf_buf (''$'' @ dec_nat (nat l) @ CRLF) = Inr (''$'' @ dec_nat (nat l) @ CRLF)"
    using snprintf_buf_head [of "nat l"] lt by simp
  define b where "b = take (nat l) (a @ [NUL])"
  have b: "length b = nat l" using l(2) by (simp add: b_def)
  have ap: "append_n a l = Inr b" using l by (simp add: append_n_def b_def)
  have u: "to_ulong l = nat l" using l(1) lt by (rule to_ulong_nonneg)
  have "cmd_loop n argv' lens' (s @ (''$'' @ dec_nat (nat l) @ CRLF) @ b @ CRLF) = Inr t"
    using Suc(2) by (simp add: al ap u sn [simplified])
  then obtain args where "length args = n" "t = (s @ (''$'' @ dec_nat (nat l) @ CRLF) @ b @ CRLF) @ concat (map resp_bulk args)"
    using Suc(1) Suc(3) al by fastforce
  then show ?case using b by (intro exI [of _ "b # args"]) (simp add: resp_bulk_def [of b])
qed simp

lemma cmd_loop_exact:
  assumes "\<forall>a\<in>set argv. length a < 2 ^ 31"
  shows "cmd_loop (length argv) argv (lens_of argv) s = Inr (s @ concat (map resp_bulk argv))"
  using assms
proof (induction argv arbitrary: s)
  case (Cons a argv)
  then have "int (length a) < 2 ^ 31" by simp
  moreover have "snprintf_buf (''$'' @ dec_nat (length a) @ CRLF) = Inr (''$'' @ dec_nat (length a) @ CRLF)"
    using Cons.prems snprintf_buf_head [of "length a"] by simp
  ultimately show ?case using Cons
    by (simp add: lens_of_def append_n_def to_ulong_nonneg resp_bulk_def [of a])
qed (simp add: lens_of_def)

lemma RedisProtoCmdArray_eq: "RedisProtoCmdArray = RedisProtoCmd"
  by (intro ext) (simp add: RedisProtoCmdArray_def RedisProtoCmd_def)

lemma send_array_eq: "send_array = send_cmd"
  by (intro ext) (simp add: send_array_def send_cmd_def RedisProtoCmdArray_eq)

lemma lens_of_bound: "\<forall>l\<in>set (lens_of argv). l < 2 ^ 31"
  using to_int_range by (auto simp: lens_of_def)

lemma RedisProtoCmd_request:
  assumes "RedisProtoCmd argc argv (lens_of argv) = Inr s" "argc < 10 ^ 17"
  shows "\<exists>args. length args = argc \<and> s = resp_request args"
proof -
  have "cmd_loop argc argv (lens_of argv) (''*'' @ dec_nat argc @ CRLF) = Inr s"
    using assms(1) snprintf_buf_head [OF assms(2), of "CHR ''*''"] by (simp add: RedisProtoCmd_def)
  from cmd_loop_bulks [OF this lens_of_bound]
  show ?thesis by (auto simp: resp_request_def)
qed

lemma send_cmd_one_request:
  assumes "send_cmd argc argv request rp = Inr (rc, request', rp')" "argc < 10 ^ 17"
  shows "one_request request' argc"
proof -
  obtain s where s: "RedisProtoCmd argc argv (lens_of argv) = Inr s" "kv_proto_str (rq_kvpair request') = s"
    using assms(1) by (auto simp: send_cmd_def bindR_Inr_iff)
  then obtain args where "length args = argc" "s = resp_request args"
    using RedisProtoCmd_request assms(2) by blast
  then show ?thesis using s(2) resp_parse_request [of args "[]"] by (auto simp: one_request_def)
qed

lemma send_cmd_exact:
  assumes "\<forall>a\<in>set argv. length a < 2 ^ 31" "length argv < 10 ^ 17"
  shows "send_cmd (length argv) argv request rp =
    Inr (QKPACK_OK, upd_kv (\<lambda>k. k\<lparr>kv_proto_str := resp_request argv\<rparr>) request, rp)"
proof -
  have "RedisProtoCmd (length argv) argv (lens_of argv) = Inr (resp_request argv)"
    using cmd_loop_exact [OF assms(1)] snprintf_buf_head [OF assms(2), of "CHR ''*''"]
    by (simp add: RedisProtoCmd_def resp_request_def)
  then show ?thesis by (simp add: send_cmd_def)
qed

lemma one_requestI:
  assumes "send_cmd argc argv request rp = Inr (rc, request', rp')" "argc < 10 ^ 17"
  shows "\<exists>argc. one_request request' argc"
  using send_cmd_one_request [OF assms] by blast

lemma ParamMulti_one_request:
  assumes "RedisProtoEncodeParamMulti parent request rp = Inr (QKPACK_OK, request', rp')"
    and "counts_fit parent request"
  shows "\<exists>argc. one_request request' argc"
  using assms
  by (auto simp: RedisProtoEncodeParamMulti_def Let_def bindR_Inr_iff counts_fit_def smap_at_def codes
      split: option.splits elim!: one_requestI)

lemma Mset_one_request:
  assumes "RedisProtoEncodeMset env parent request rp = Inr (QKPACK_OK, request', rp')"
    and "counts_fit parent request"
  shows "\<exists>argc. one_request request' argc"
  using assms
  by (auto simp: RedisProtoEncodeMset_def Let_def bindR_Inr_iff counts_fit_def smap_at_def codes
      split: option.splits if_splits elim!: one_requestI)

lemma ZfixedsetAdd_one_request:
  assumes "RedisProtoEncodeZfixedsetAdd env parent request rp = Inr (QKPACK_OK, request', rp')"
    and "counts_fit parent request"
  shows "\<exists>argc. one_request request' argc"
  using assms
  by (auto simp: RedisProtoEncodeZfixedsetAdd_def Let_def bindR_Inr_iff counts_fit_def smap_at_def codes
      split: option.splits list.splits if_splits elim!: one_requestI)

lemma range_one_request:
  assumes "RedisProtoEncodeZfixedsetGetByScore parent request rp = Inr (QKPACK_OK, request', rp') \<or>
    RedisProtoEncodeZfixedsetGetByRank parent request rp = Inr (QKPACK_OK, request', rp')"
  shows "\<exists>argc. one_request request' argc"
  using assms
  by (auto simp: RedisProtoEncodeZfixedsetGetByScore_def RedisProtoEncodeZfixedsetGetByRank_def Let_def
      bindR_Inr_iff codes send_array_eq split: option.splits if_splits elim!: one_requestI)

lemma members_one_request:
  assumes "RedisProtoEncodeSadd env request rp = Inr (QKPACK_OK, request', rp') \<or>
      RedisProtoEncodeSrem env request rp = Inr (QKPACK_OK, request', rp')"
    and "counts_fit parent request"
  shows "\<exists>argc. one_request request' argc"
  using assms
  by (auto simp: RedisProtoEncodeSadd_def RedisProtoEncodeSrem_def counts_fit_def Let_def bindR_Inr_iff codes
      split: if_splits elim!: one_requestI)

lemma IncrBy_one_request:
  assumes "RedisProtoEncodeIncrBy env request rp = Inr (QKPACK_OK, request', rp')"
  shows "\<exists>argc. one_request request' argc"
  using assms
  by (auto simp: RedisProtoEncodeIncrBy_def Let_def bindR_Inr_iff codes send_array_eq
      split: if_splits elim!: one_requestI)

lemma fixed_one_request:
  assumes "RedisProtoEncodePing request rp = Inr (QKPACK_OK, request', rp') \<or>
    RedisProtoEncodeParamOne request rp = Inr (QKPACK_OK, request', rp') \<or>
    RedisProtoEncodeParamTwo env request rp = Inr (QKPACK_OK, request', rp') \<or>
    RedisProtoEncodeParamThree env request rp = Inr (QKPACK_OK, request', rp')"
  shows "\<exists>argc. one_request request' argc"
  using assms
  by (auto simp: RedisProtoEncodePing_def RedisProtoEncodeParamOne_def RedisProtoEncodeParamTwo_def
      RedisProtoEncodeParamThree_def Let_def send_array_eq elim!: one_requestI)

lemma sample_fields [simp]:
  "rq_code (sample_request t key value) = QKPACK_RESPONSE_CODE_OK"
  "rq_slot_id (sample_request t key value) = 7"
  "rq_node_ip (sample_request t key value) = ''10.0.0.1:6379''"
  "rq_vector_mbs (sample_request t key value) = []"
  "kv_command_type (rq_kvpair (sample_request t key value)) = t"
  "kv_namespaces (rq_kvpair (sample_request t key value)) = ''ab''"
  "kv_key (rq_kvpair (sample_request t key value)) = key"
  "kv_value (rq_kvpair (sample_request t key value)) = value"
  "kv_exptime (rq_kvpair (sample_request t key value)) = 604800"
  "kv_compress_threshold (rq_kvpair (sample_request t key value)) = Some 1024"
  by (simp_all add: sample_request_def new_request_def new_kvpair_def codes)

lemma sample_codec: "snappy_codec (pe_snappy sample_env)"
  by (simp add: sample_env_def stored_snappy_def snappy_codec_def)

lemma sample_value_arg: "length v < 1024 \<Longrightarrow> value_arg env (Some 1024) v = v"
  by (simp add: value_arg_def CompressValue_def Let_def)

lemma resp_parse_request_end [simp]: "resp_parse (resp_request args) = Some (args, [])"
  using resp_parse_request [of args "[]"] by simp

lemma length_ToString: "length (ToString v) \<le> 18"
proof -
  have "nat \<bar>to_int v\<bar> < 10 ^ 17" using to_int_range [of v] by auto
  then have "length (dec_nat (nat \<bar>to_int v\<bar>)) \<le> 17" by (rule length_dec_nat) simp
  then show ?thesis by (auto simp: ToString_def dec_int_def)
qed

lemma ToString_fits [simp]: "length (ToString v) < 2147483648"
  using length_ToString [of v] by simp

lemma send_cmd_exact':
  assumes "argc = length argv" "\<forall>a\<in>set argv. length a < 2 ^ 31" "length argv < 10 ^ 17"
  shows "send_cmd argc argv request rp =
    Inr (QKPACK_OK, upd_kv (\<lambda>k. k\<lparr>kv_proto_str := resp_request argv\<rparr>) request, rp)"
  using send_cmd_exact [OF assms(2,3)] assms(1) by simp

lemma Encode_single_key:
  assumes "rq_code request = QKPACK_RESPONSE_CODE_OK"
    and "(kv_command_type (rq_kvpair request), name) \<in> set single_key_commands"
    and "length (kv_namespaces (rq_kvpair request) @ kv_key (rq_kvpair request)) < 2 ^ 31"
  shows "RedisProtoEncode env parent request rp =
    Inr (QKPACK_OK, upd_kv (\<lambda>k. k\<lparr>kv_command := name,
      kv_proto_str := resp_request [name, kv_namespaces k @ kv_key k]\<rparr>) request, rp)"
proof -
  have "RedisProtoEncode env parent request rp = RedisProtoEncodeParamOne (set_command name request) rp"
    using assms(1,2) by (auto simp: RedisProtoEncode_def single_key_commands_def codes Let_def)
  moreover have "length name < 2 ^ 31" using assms(2) by (auto simp: single_key_commands_def)
  ultimately show ?thesis using assms(3)
    by (simp add: RedisProtoEncodeParamOne_def send_array_eq Let_def send_cmd_exact')
qed

lemma Encode_set:
  assumes "rq_code request = QKPACK_RESPONSE_CODE_OK" "kv_command_type (rq_kvpair request) = REDIS_SET"
    and "length (kv_namespaces (rq_kvpair request) @ kv_key (rq_kvpair request)) < 2 ^ 31"
    and "length (value_arg env (kv_compress_threshold (rq_kvpair request)) (kv_value (rq_kvpair request))) < 2 ^ 31"
  shows "RedisProtoEncode env parent request rp =
    Inr (QKPACK_OK, upd_kv (\<lambda>k. k\<lparr>kv_command := ''SETEX'',
      kv_proto_str := resp_request [''SETEX'', kv_namespaces k @ kv_key k, ToString (kv_exptime k),
        value_arg env (kv_compress_threshold k) (kv_value k)]\<rparr>) request, rp)"
proof -
  have "RedisProtoEncode env parent request rp = RedisProtoEncodeParamThree env (set_command ''SETEX'' request) rp"
    using assms(1,2) by (simp add: RedisProtoEncode_def codes Let_def)
  then show ?thesis using assms(3,4)
    by (simp add: RedisProtoEncodeParamThree_def send_array_eq Let_def send_cmd_exact')
qed



text \<open>the commands on one key send their name and the namespaced key.\<close>

theorem RedisProtoEncode_single_key:
  assumes "rq_code request = QKPACK_RESPONSE_CODE_OK"
    and "(kv_command_type (rq_kvpair request), name) \<in> set single_key_commands"
    and "length (kv_namespaces (rq_kvpair request) @ kv_key (rq_kvpair request)) < 2 ^ 31"
  shows "\<exists>request'. RedisProtoEncode env parent request rp = Inr (QKPACK_OK, request', rp) \<and>
    resp_parse (kv_proto_str (rq_kvpair request')) =
      Some ([name, kv_namespaces (rq_kvpair request) @ kv_key (rq_kvpair request)], [])"
  using Encode_single_key [OF assms] by simp

theorem RedisProtoEncode_single_key_witness:
  "\<exists>request'. RedisProtoEncode sample_env None (sample_request REDIS_DEL ''k'' []) sample_scripts =
      Inr (QKPACK_OK, request', sample_scripts) \<and>
    resp_parse (kv_proto_str (rq_kvpair request')) = Some ([''DEL'', ''abk''], [])"
  using RedisProtoEncode_single_key [of "sample_request REDIS_DEL ''k'' []" "''DEL''" sample_env None sample_scripts]
  by (simp add: single_key_commands_def)

lemma deref_all_length: "deref_all par refs = Inr kvs \<Longrightarrow> length kvs = length refs"
  by (induction refs arbitrary: kvs) (auto simp: bindR_Inr_iff split: option.splits)

text \<open>MGET sends the keys of the slot in the order of their pointers.\<close>

theorem RedisProtoEncode_mget:
  assumes "rq_code request = QKPACK_RESPONSE_CODE_OK" "kv_command_type (rq_kvpair request) = REDIS_MGET"
    and "smap_get (rq_map_slots_kv par) (rq_slot_id request) = Some refs" "deref_all par refs = Inr kvs"
    and "\<forall>k\<in>set kvs. length (kv_namespaces (rq_kvpair par) @ kv_key k) < 2 ^ 31" "length refs < 2 ^ 31"
  shows "\<exists>request'. RedisProtoEncode env (Some par) request rp = Inr (QKPACK_OK, request', rp) \<and>
    resp_parse (kv_proto_str (rq_kvpair request')) =
      Some (''MGET'' # map (\<lambda>k. kv_namespaces (rq_kvpair par) @ kv_key k) kvs, [])"
proof -
  have "RedisProtoEncode env (Some par) request rp =
      RedisProtoEncodeParamMulti (Some par) (set_command ''MGET'' request) rp"
    using assms(1,2) by (simp add: RedisProtoEncode_def codes Let_def)
  then show ?thesis using assms(3-6) deref_all_length [OF assms(4)]
    by (simp add: RedisProtoEncodeParamMulti_def Let_def send_cmd_exact')
qed

theorem RedisProtoEncode_mget_witness:
  "\<exists>request'. RedisProtoEncode sample_env (Some sample_parent) (sample_request REDIS_MGET [] []) sample_scripts =
      Inr (QKPACK_OK, request', sample_scripts) \<and>
    resp_parse (kv_proto_str (rq_kvpair request')) = Some ([''MGET'', ''abk1'', ''abk2''], [])"
  using RedisProtoEncode_mget [of "sample_request REDIS_MGET [] []" sample_parent "[InVec 0, InVec 1]"
      "rq_vector_kv sample_parent" sample_env sample_scripts]
  by (simp add: sample_parent_def)


section \<open>Scripts of a node\<close>

lemma script_at_put:
  "script_at ip' name' (script_put ip name sha rp) = (if ip' = ip \<and> name' = name then sha else script_at ip' name' rp)"
  by (auto simp: script_at_def script_put_def smap_at_def smap_get_put split: option.splits)

lemma script_at_touch [simp]: "script_at ip' name' (script_touch ip name rp) = script_at ip' name' rp"
  by (simp add: script_touch_def script_at_put)

lemma script_sources [simp]:
  "rp_add_multikv_script (script_touch ip name rp) = rp_add_multikv_script rp"
  "rp_add_zset_script (script_touch ip name rp) = rp_add_zset_script rp"
  "rp_incrby_script (script_touch ip name rp) = rp_incrby_script rp"
  "rp_add_rset_script (script_touch ip name rp) = rp_add_rset_script rp"
  by (simp_all add: script_touch_def script_put_def)

lemma load_script_cached:
  "script_at ip name rp \<noteq> [] \<Longrightarrow> load_script env ip name script rp = Inr (QKPACK_OK, script_touch ip name rp)"
  by (simp add: load_script_def Let_def)

lemma LoadScript_cached:
  assumes "\<forall>name\<in>set script_names. script_at (rq_node_ip request) name rp \<noteq> []"
  obtains rp' where "RedisProtoEncodeLoadScript env request rp = Inr (QKPACK_OK, rp')"
    "\<And>ip name. script_at ip name rp' = script_at ip name rp"
proof
  let ?t = "\<lambda>name. script_touch (rq_node_ip request) name"
  let ?rp = "?t redis_proto_add_rset_name (?t redis_proto_incrby_name (?t redis_proto_add_zset_name
    (?t redis_proto_add_multikv_name rp)))"
  show "RedisProtoEncodeLoadScript env request rp = Inr (QKPACK_OK, ?rp)"
    using assms by (simp add: RedisProtoEncodeLoadScript_def Let_def load_script_cached script_names_def)
  show "script_at ip name ?rp = script_at ip name rp" for ip name by simp
qed

lemma sample_sha: "script_at ''10.0.0.1:6379'' redis_proto_add_multikv_name sample_scripts = ''h1''"
  by (simp add: sample_scripts_def script_at_def smap_at_def)

lemma sample_cached: "\<forall>name\<in>set script_names. script_at ''10.0.0.1:6379'' name sample_scripts \<noteq> []"
  by (simp add: script_names_def sample_scripts_def script_at_def smap_at_def redis_proto_add_multikv_name_def
      redis_proto_add_zset_name_def redis_proto_incrby_name_def redis_proto_add_rset_name_def)

text \<open>a NOSCRIPT reply does not reload a script: the cached hashes stay, and the same one is sent again.\<close>

theorem RedisProtoDecode_noscript:
  assumes "rq_code request = QKPACK_RESPONSE_CODE_OK" "rq_response_buffer request = ''-NOSCRIPT'' @ rest"
    and "\<forall>name\<in>set script_names. script_at (rq_node_ip request) name rp \<noteq> []"
  shows "\<exists>rp'. RedisProtoDecode env parent request rp = Inr (REDIS_TRYAGAIN, request, parent, rp') \<and>
    (\<forall>ip name. script_at ip name rp' = script_at ip name rp)"
proof -
  obtain rp' where "RedisProtoEncodeLoadScript env request rp = Inr (QKPACK_OK, rp')"
    "\<And>ip name. script_at ip name rp' = script_at ip name rp"
    using LoadScript_cached [OF assms(3)] by metis
  then show ?thesis using assms(1,2)
    by (simp add: RedisProtoDecode_def RedisProtoDecodeGetError_def starts_with_def)
qed

theorem RedisProtoDecode_noscript_witness:
  "\<exists>rp'. RedisProtoDecode sample_env None
      ((sample_request REDIS_MSET [] [])\<lparr>rq_response_buffer := ''-NOSCRIPT No matching script''\<rparr>) sample_scripts =
    Inr (REDIS_TRYAGAIN, (sample_request REDIS_MSET [] [])\<lparr>rq_response_buffer := ''-NOSCRIPT No matching script''\<rparr>,
      None, rp') \<and>
    (\<forall>ip name. script_at ip name rp' = script_at ip name sample_scripts)"
  by (rule RedisProtoDecode_noscript [where rest = "'' No matching script''"])
    (use sample_cached in simp_all)


section \<open>Values\<close>

lemma value_arg_cases:
  "value_arg env t v = v \<or> value_arg env t v = snappy_Compress (pe_snappy env) v"
  by (auto simp: value_arg_def CompressValue_def Let_def split: option.splits if_splits)

lemma value_round_trip:
  assumes "snappy_codec (pe_snappy env)" "NUL \<notin> set v" "v \<noteq> []" "v \<noteq> ''snappy''"
  shows "value_of_reply env (value_arg env t v) = Inr v"
  using value_arg_cases [of env t v]
proof
  assume "value_arg env t v = v"
  then show ?thesis using assms(2,4) snappy_valid_no_NUL [of v]
    by (simp add: value_of_reply_def UncompressValue_def)
next
  assume "value_arg env t v = snappy_Compress (pe_snappy env) v"
  then show ?thesis using assms(1-3)
    by (simp add: value_of_reply_def UncompressValue_def snappy_Compress_valid snappy_round_trip)
qed

lemma value_of_reply_plain:
  assumes "NUL \<notin> set v" "v \<noteq> ''snappy''"
  shows "value_of_reply env v = Inr v"
  using assms snappy_valid_no_NUL [of v] by (simp add: value_of_reply_def UncompressValue_def)


section \<open>Reading replies\<close>

lemma read_len_dec [simp]: "n < 2 ^ 31 \<Longrightarrow> read_len (dec_nat n @ CR # s) = (int n, CR # s)"
  by (simp add: read_len_def strtol_dec_CR)

lemma read_len_minus_one [simp]: "read_len (CHR ''-'' # CHR ''1'' # CR # s) = (- 1, CR # s)"
proof -
  have "\<not> hex_prefix (CHR ''1'' # CR # s)" by (cases s) auto
  then have "strtol_raw 0 (CHR ''-'' # CHR ''1'' # CR # s) = (- 1, CR # s)"
    by (simp add: strtol_raw_def is_space_def is_digit_def [of _ "CHR ''1''"] digit_val_def)
  then show ?thesis by (simp add: read_len_def strtol_def)
qed

lemma advance_simps [simp]:
  "advance 0 p = Inr p" "advance (Suc n) (c # p) = advance n p" "advance (length a) (a @ p) = Inr p"
  by (simp_all add: advance_def)

lemma advance_2 [simp]: "advance 2 (c # d # p) = Inr p"
  by (simp add: advance_def)

lemma string_at_prefix [simp]: "string_at (a @ p) (int (length a)) = Inr a"
  by (simp add: string_at_def)

text \<open>The loop over the elements of an array, with the framing removed.\<close>

lemma array_element_skip:
  "\<not> reads_element (fst st) \<Longrightarrow> array_element env i v st = Inr st"
  by (cases st) (auto simp: array_element_def reads_element_def)

lemma bindR_assoc: "bindR (bindR m f) g = bindR m (\<lambda>x. bindR (f x) g)"
  by (cases m) simp_all

lemma array_loop_append:
  assumes "\<forall>a. Some a \<in> set vs \<longrightarrow> length a < 2 ^ 31"
  shows "array_loop env (length vs + m) i (concat (map resp_item vs) @ rest) st =
    bindR (items env i vs st) (\<lambda>st. array_loop env m (i + length vs) rest st)"
  using assms
proof (induction vs arbitrary: i st)
  case (Cons v vs)
  show ?case
  proof (cases v)
    case None
    then show ?thesis using Cons
      by (cases st) (auto simp: resp_item_def item_step_def bindR_assoc)
  next
    case (Some a)
    have len: "length a < 2 ^ 31" using Cons.prems Some by simp
    have adv: "advance (nat (int (length a) + 2)) (a @ CRLF @ p) = Inr p" for p
      by (simp add: advance_def nat_add_distrib)
    let ?w = "if reads_element (fst st) then a else []"
    have "array_element env i ?w st = array_element env i a st"
      by (simp add: array_element_skip)
    moreover have "array_loop env (length (v # vs) + m) i (concat (map resp_item (v # vs)) @ rest) st =
        bindR (array_element env i ?w st) (\<lambda>st. array_loop env (length vs + m) (Suc i) (concat (map resp_item vs) @ rest) st)"
      using len adv [simplified] by (simp add: Some resp_item_def [of "Some a"] resp_bulk_def)
    ultimately show ?thesis using Cons by (simp add: Some item_step_def bindR_assoc)
  qed
qed simp

lemma array_loop_items:
  assumes "\<forall>a. Some a \<in> set vs \<longrightarrow> length a < 2 ^ 31"
  shows "array_loop env (length vs) i (concat (map resp_item vs) @ rest) st = items env i vs st"
  using array_loop_append [OF assms, of env 0 i rest st] by (cases "items env i vs st") simp_all

lemma Decode_bulk:
  assumes "rq_code request = QKPACK_RESPONSE_CODE_OK" "rq_response_buffer request = resp_bulk a"
    and "length a < 2 ^ 31" "kv_command_type (rq_kvpair request) \<noteq> REDIS_TTL"
  shows "RedisProtoDecode env parent request rp =
    bindR (value_of_reply env a) (\<lambda>v. Inr (QKPACK_OK, upd_kv (\<lambda>k. k\<lparr>kv_value := v\<rparr>) request, parent, rp))"
  using assms by (simp add: RedisProtoDecode_def resp_bulk_def RedisProtoDecodeGetString_def ttl_check_def bindR_assoc)

lemma Decode_array:
  assumes "rq_code request = QKPACK_RESPONSE_CODE_OK" "rq_response_buffer request = resp_array vs"
    and "length vs < 2 ^ 31" "\<forall>a. Some a \<in> set vs \<longrightarrow> length a < 2 ^ 31"
    and "items env 0 vs (request, parent, []) = Inr (request', parent', m)"
    and "kv_command_type (rq_kvpair request') \<noteq> REDIS_TTL"
  shows "RedisProtoDecode env parent request rp = Inr (QKPACK_OK, request', parent', rp)"
  using assms array_loop_items [OF assms(4), of env 0 "[]" "(request, parent, [])"]
  by (simp add: RedisProtoDecode_def resp_array_def RedisProtoDecodeGetArray_def ttl_check_def)





lemma kv_deref_set_values:
  assumes "distinct ps" "length ps = length vs" "\<forall>p\<in>set ps. kv_deref par p \<noteq> None"
  shows "kv_deref (set_values ps vs par) q =
    (case map_of (zip ps vs) q of None \<Rightarrow> kv_deref par q
     | Some v \<Rightarrow> map_option (\<lambda>k. k\<lparr>kv_value := v\<rparr>) (kv_deref par q))"
  using assms
proof (induction ps vs par rule: set_values.induct)
  case (1 p ps v vs par)
  let ?par = "kv_set_value v p par"
  have p: "kv_deref par p \<noteq> None" and none: "map_of (zip ps vs) p = None" using 1(2-4) by auto
  have d: "kv_deref ?par r = (if p = r then map_option (\<lambda>k. k\<lparr>kv_value := v\<rparr>) (kv_deref par r) else kv_deref par r)" for r
    by (rule kv_deref_set_value [OF p])
  have "kv_deref (set_values ps vs ?par) q = (case map_of (zip ps vs) q of None \<Rightarrow> kv_deref ?par q
     | Some v \<Rightarrow> map_option (\<lambda>k. k\<lparr>kv_value := v\<rparr>) (kv_deref ?par q))"
    using 1(2-4) by (intro 1(1)) (auto simp: d)
  then show ?case using none by (cases "q = p") (simp_all add: d split: option.split)
qed auto

lemma items_multi:
  assumes "is_multi request" "smap_at [] (rq_map_slots_kv par) (rq_slot_id request) = refs"
    and "i + length ws = length refs" "\<forall>p\<in>set refs. kv_deref par p \<noteq> None"
    and "map (item_value env) ws = map Inr vs"
  shows "items env i ws (request, Some par, m) = Inr (request, Some (set_values (drop i refs) vs par), m)"
  using assms(2-)
proof (induction ws arbitrary: i par vs)
  case (Cons w ws)
  obtain v vs' where v: "vs = v # vs'" "item_value env w = Inr v" "map (item_value env) ws = map Inr vs'"
    using Cons.prems(4) by (cases vs) auto
  have i: "i < length refs" "drop i refs = refs ! i # drop (Suc i) refs"
    using Cons.prems(2) by (simp_all add: Cons_nth_drop_Suc)
  then have r: "kv_deref par (refs ! i) \<noteq> None" using Cons.prems(3) by simp
  let ?par = "kv_set_value v (refs ! i) par"
  have set: "set_slot_value request i v (Some par) = Inr (Some ?par)"
    using i r Cons.prems(1) by (auto simp: set_slot_value_def Let_def split: option.splits)
  have "item_step env i w (request, Some par, m) = Inr (request, Some ?par, m)"
    using v(2) set assms(1)
    by (auto simp: item_step_def item_value_def array_element_def split: option.splits)
  moreover have "items env (Suc i) ws (request, Some ?par, m) =
      Inr (request, Some (set_values (drop (Suc i) refs) vs' ?par), m)"
    using Cons.prems v(3) r by (intro Cons.IH) (auto simp: frames kv_deref_set_value)
  ultimately show ?case by (simp add: v(1) i(2))
qed auto



lemma items_smembers:
  assumes "kv_command_type (rq_kvpair request) = REDIS_SMEMBERS"
    and "map (value_of_reply env) ws = map Inr vs"
  shows "items env i (map Some ws) (request, parent, m) =
    Inr (request\<lparr>rq_vector_mbs := rq_vector_mbs request @
      map (\<lambda>v. \<lparr>zm_member = v, zm_value = [], zm_score = 0\<rparr>) vs\<rparr>, parent, m)"
  using assms
proof (induction ws arbitrary: i vs request)
  case (Cons w ws)
  obtain v vs' where v: "vs = v # vs'" "value_of_reply env w = Inr v" "map (value_of_reply env) ws = map Inr vs'"
    using Cons.prems(2) by (cases vs) auto
  let ?r = "request\<lparr>rq_vector_mbs := rq_vector_mbs request @ [\<lparr>zm_member = v, zm_value = [], zm_score = 0\<rparr>]\<rparr>"
  have "item_step env i (Some w) (request, parent, m) = Inr (?r, parent, m)"
    using Cons.prems(1) v(2) by (simp add: item_step_def array_element_def is_multi_def codes)
  then show ?case using Cons.IH [of ?r vs' "Suc i"] Cons.prems(1) v by simp
qed auto

lemma items_range:
  assumes "is_range request" "\<not> is_multi request" "kv_command_type (rq_kvpair request) \<noteq> REDIS_SMEMBERS"
    and "even i" "even (length ms)"
  shows "\<exists>par'. items env i (map Some ms) (request, Some par, []) = Inr (request, Some par', []) \<and>
    smap_at [] (rq_map_kv par') (kv_key (rq_kvpair request)) =
      smap_at [] (rq_map_kv par) (kv_key (rq_kvpair request)) @ range_pairs env (kv_namespaces (rq_kvpair par)) ms"
  using assms(4-5)
proof (induction env "kv_namespaces (rq_kvpair par)" ms arbitrary: i par rule: range_pairs.induct)
  case (1 env mem score rest)
  let ?key = "kv_key (rq_kvpair request)"
  let ?kv = "range_pair env (kv_namespaces (rq_kvpair par)) mem score"
  let ?par = "par\<lparr>rq_map_kv := smap_push ?key ?kv (rq_map_kv par)\<rparr>"
  have "items env i (map Some (mem # score # rest)) (request, Some par, []) =
      items env (Suc (Suc i)) (map Some rest) (request, Some ?par, [])"
    using assms(1-3) 1(2) by (simp add: item_step_def array_element_def range_pair_def Let_def)
  moreover obtain par' where "items env (Suc (Suc i)) (map Some rest) (request, Some ?par, []) = Inr (request, Some par', [])"
    "smap_at [] (rq_map_kv par') ?key = smap_at [] (rq_map_kv ?par) ?key @ range_pairs env (kv_namespaces (rq_kvpair ?par)) rest"
    using 1(1) [of ?par "Suc (Suc i)"] 1(2,3) by auto
  ultimately show ?case by (simp add: smap_at_push)
qed auto

text \<open>the members of an SMEMBERS reply are appended in order.\<close>

theorem RedisProtoDecode_smembers:
  assumes "snappy_codec (pe_snappy env)" "rq_code request = QKPACK_RESPONSE_CODE_OK"
    and "kv_command_type (rq_kvpair request) = REDIS_SMEMBERS"
    and "rq_response_buffer request = resp_array (map (\<lambda>v. Some (value_arg env t v)) vs)" "length vs < 2 ^ 31"
    and "\<forall>v\<in>set vs. NUL \<notin> set v \<and> v \<noteq> [] \<and> v \<noteq> ''snappy'' \<and> length (value_arg env t v) < 2 ^ 31"
  shows "\<exists>request'. RedisProtoDecode env parent request rp = Inr (QKPACK_OK, request', parent, rp) \<and>
    map zm_member (rq_vector_mbs request') = map zm_member (rq_vector_mbs request) @ vs"
proof -
  let ?ws = "map (value_arg env t) vs"
  have "map (value_of_reply env) ?ws = map Inr vs"
    using assms(6) value_round_trip [OF assms(1)] by simp
  from items_smembers [OF assms(3) this, of 0 parent "[]"]
  have it: "items env 0 (map (\<lambda>v. Some (value_arg env t v)) vs) (request, parent, []) =
    Inr (request\<lparr>rq_vector_mbs := rq_vector_mbs request @
      map (\<lambda>v. \<lparr>zm_member = v, zm_value = [], zm_score = 0\<rparr>) vs\<rparr>, parent, [])"
    by (simp add: comp_def)
  show ?thesis
    by (rule exI, rule conjI, rule Decode_array [OF assms(2,4) _ _ it])
      (use assms(3,5,6) in \<open>auto simp: codes comp_def\<close>)
qed

theorem RedisProtoDecode_smembers_witness:
  "\<exists>request'. RedisProtoDecode sample_env None
      ((sample_request REDIS_SMEMBERS ''k'' [])\<lparr>rq_response_buffer := resp_array [Some ''x'', Some ''y'']\<rparr>) sample_scripts =
    Inr (QKPACK_OK, request', None, sample_scripts) \<and>
    map zm_member (rq_vector_mbs request') = [''x'', ''y'']"
  using RedisProtoDecode_smembers [OF sample_codec, of
      "(sample_request REDIS_SMEMBERS ''k'' [])\<lparr>rq_response_buffer := resp_array [Some ''x'', Some ''y'']\<rparr>"
      "Some 1024" "[''x'', ''y'']" None sample_scripts]
  by (simp add: sample_value_arg NUL_def)

text \<open>
  the elements of a range reply are taken in pairs, member and score; a reply without scores is
  therefore read as half as many members.
\<close>

theorem RedisProtoDecode_range:
  assumes "rq_code request = QKPACK_RESPONSE_CODE_OK" "is_range request"
    and "rq_response_buffer request = resp_array (map Some ms)"
    and "length ms < 2 ^ 31" "even (length ms)" "\<forall>m\<in>set ms. length m < 2 ^ 31"
  shows "\<exists>par'. RedisProtoDecode env (Some par) request rp = Inr (QKPACK_OK, request, Some par', rp) \<and>
    smap_at [] (rq_map_kv par') (kv_key (rq_kvpair request)) =
      smap_at [] (rq_map_kv par) (kv_key (rq_kvpair request)) @ range_pairs env (kv_namespaces (rq_kvpair par)) ms"
proof -
  have "\<not> is_multi request" "kv_command_type (rq_kvpair request) \<noteq> REDIS_SMEMBERS"
    "kv_command_type (rq_kvpair request) \<noteq> REDIS_TTL"
    using assms(2) by (auto simp: is_range_def is_multi_def codes)
  moreover from items_range [OF assms(2) this(1,2) _ assms(5), of 0 env par] obtain par' where
    "items env 0 (map Some ms) (request, Some par, []) = Inr (request, Some par', [])"
    "smap_at [] (rq_map_kv par') (kv_key (rq_kvpair request)) =
      smap_at [] (rq_map_kv par) (kv_key (rq_kvpair request)) @ range_pairs env (kv_namespaces (rq_kvpair par)) ms"
    by auto
  ultimately show ?thesis
    using Decode_array [OF assms(1,3), of env "Some par"] assms(4,6) by auto
qed

theorem RedisProtoDecode_range_witness:
  "\<exists>par'. RedisProtoDecode sample_env (Some sample_parent)
      ((sample_request REDIS_ZRANGE ''k'' [])\<lparr>rq_response_buffer := resp_array [Some ''abm1'', Some ''abm2'']\<rparr>) sample_scripts =
    Inr (QKPACK_OK, (sample_request REDIS_ZRANGE ''k'' [])\<lparr>rq_response_buffer := resp_array [Some ''abm1'', Some ''abm2'']\<rparr>,
      Some par', sample_scripts) \<and>
    map kv_key (smap_at [] (rq_map_kv par') ''k'') = [''m1'']"
proof -
  let ?r = "(sample_request REDIS_ZRANGE ''k'' [])\<lparr>rq_response_buffer := resp_array [Some ''abm1'', Some ''abm2'']\<rparr>"
  have "\<exists>par'. RedisProtoDecode sample_env (Some sample_parent) ?r sample_scripts =
      Inr (QKPACK_OK, ?r, Some par', sample_scripts) \<and>
    smap_at [] (rq_map_kv par') (kv_key (rq_kvpair ?r)) = smap_at [] (rq_map_kv sample_parent) (kv_key (rq_kvpair ?r)) @
      range_pairs sample_env (kv_namespaces (rq_kvpair sample_parent)) [''abm1'', ''abm2'']"
    by (rule RedisProtoDecode_range) (simp_all add: is_range_def)
  then show ?thesis by (auto simp: sample_parent_def new_request_def new_kvpair_def smap_at_def range_pair_def)
qed

lemma strtol_raw_neg:
  assumes "strtol_raw 0 (dec_nat n @ CR # s) = (int n, CR # s)"
  shows "strtol_raw 0 (CHR ''-'' # dec_nat n @ CR # s) = (- int n, CR # s)"
proof -
  obtain d ds where d: "dec_nat n = dec_digit d # ds" "d < 10" using hd_dec_nat by blast
  have sign: "read_sign (dropWhile is_space (dec_nat n @ CR # s)) = (False, dec_nat n @ CR # s)"
    "read_sign (dropWhile is_space (CHR ''-'' # dec_nat n @ CR # s)) = (True, dec_nat n @ CR # s)"
    using d by (simp_all add: is_space_def [of "CHR ''-''"])
  obtain b v where bv: "number_base 0 (dec_nat n @ CR # s) = (b, v)" by force
  have "(if starts_digit b v then let (n, rest) = read_digits b v 0 in (int n, rest)
      else (0, dec_nat n @ CR # s)) = (int n, CR # s)"
    using assms unfolding strtol_raw_def sign(1) bv Let_def prod.case if_False .
  then have "starts_digit b v \<and> read_digits b v 0 = (n, CR # s)"
    by (auto simp del: number_base.simps split: if_splits prod.splits)
  then show ?thesis unfolding strtol_raw_def Let_def sign(2) prod.case bv by simp
qed

lemma read_len_dec_int:
  assumes "- (2 ^ 63) \<le> v" "v < 2 ^ 63"
  shows "read_len (dec_int v @ CR # s) = (to_int v, CR # s)"
proof -
  have raw: "strtol_raw 0 (dec_nat n @ CR # s) = (int n, CR # s)" for n
    by (simp add: strtol_raw_dec_nat)
  have "strtol_raw 0 (dec_int v @ CR # s) = (v, CR # s)"
    using raw [of "nat v"] strtol_raw_neg [OF raw, of "nat (- v)"] by (simp add: dec_int_def)
  then show ?thesis using assms by (simp add: read_len_def strtol_def)
qed

text \<open>
  C23: an integer reply is accepted whatever its value, for every command: the 64-bit number Redis sends is
  narrowed to 32 bits, and the negative answers of TTL for a missing key or a missing expiry raise no error.
\<close>

theorem RedisProtoDecode_integer:
  assumes "rq_code request = QKPACK_RESPONSE_CODE_OK" "rq_response_buffer request = '':'' @ dec_int v @ CRLF"
    and "- (2 ^ 63) \<le> v" "v < 2 ^ 63"
  shows "RedisProtoDecode env parent request rp =
    Inr (QKPACK_OK, upd_kv (\<lambda>k. k\<lparr>kv_num := to_int v\<rparr>) request, parent, rp)"
  using assms(1,2) read_len_dec_int [OF assms(3,4), of "[LF]"]
  by (simp add: RedisProtoDecode_def RedisProtoDecodeGetInteger_def)

theorem RedisProtoDecode_integer_witness:
  "RedisProtoDecode sample_env None
    ((sample_request REDIS_TTL ''k'' [])\<lparr>rq_response_buffer := '':'' @ dec_int (- 2) @ CRLF\<rparr>) sample_scripts =
   Inr (QKPACK_OK, upd_kv (\<lambda>k. k\<lparr>kv_num := - 2\<rparr>)
     ((sample_request REDIS_TTL ''k'' [])\<lparr>rq_response_buffer := '':'' @ dec_int (- 2) @ CRLF\<rparr>), None, sample_scripts)"
  using RedisProtoDecode_integer [of
      "(sample_request REDIS_TTL ''k'' [])\<lparr>rq_response_buffer := '':'' @ dec_int (- 2) @ CRLF\<rparr>" "- 2"
      sample_env None sample_scripts] by simp

lemma starts_with_line:
  assumes "CR \<notin> set lit"
  shows "starts_with lit (line @ CR # r) \<longleftrightarrow> starts_with lit line"
  using assms
proof (induction lit arbitrary: line)
  case (Cons c lit)
  then show ?case by (cases line) (auto simp: starts_with_def)
qed (simp add: starts_with_def)

lemma find_CRLF: "CR \<notin> set line \<Longrightarrow> find_at CRLF (line @ CR # LF # r) = Some (length line)"
  by (induction line) (auto simp: starts_with_def)

lemma line_of_CRLF:
  assumes "CR \<notin> set line" "length line < 2 ^ 31"
  shows "line_of (line @ CR # LF # r) = Inr (Some line)"
  using assms by (simp add: line_of_def find_CRLF)

text \<open>an error reply is a redirection, a retry or an error stored in the request with its text.\<close>

theorem RedisProtoDecode_error:
  assumes "rq_code request = QKPACK_RESPONSE_CODE_OK" "rq_response_buffer request = ''-'' @ line @ CRLF"
    and "CR \<notin> set line" "length line < 2 ^ 31" "\<not> starts_with ''NOSCRIPT'' line"
  shows "RedisProtoDecode env parent request rp =
    (if starts_with ''MOVED'' line then Inr (REDIS_MOVED, request, parent, rp)
     else if starts_with ''ASK'' line then Inr (REDIS_ASK, request, parent, rp)
     else if starts_with ''TRYAGAIN'' line then Inr (REDIS_TRYAGAIN, request, parent, rp)
     else Inr (QKPACK_OK, request\<lparr>rq_desc := line, rq_code := QKPACK_RESPONSE_CODE_REDIS_STORAGE_ERROR\<rparr>, parent, rp))"
proof -
  have "starts_with ''MOVED'' (line @ CRLF) = starts_with ''MOVED'' line"
    "starts_with ''ASK'' (line @ CRLF) = starts_with ''ASK'' line"
    "starts_with ''TRYAGAIN'' (line @ CRLF) = starts_with ''TRYAGAIN'' line"
    "starts_with ''NOSCRIPT'' (line @ CRLF) = starts_with ''NOSCRIPT'' line"
    by (rule starts_with_line; simp add: CR_def)+
  then show ?thesis using assms
    by (simp add: RedisProtoDecode_def RedisProtoDecodeGetError_def line_of_CRLF)
qed

theorem RedisProtoDecode_error_witness:
  "RedisProtoDecode sample_env None
    ((sample_request REDIS_GET ''k'' [])\<lparr>rq_response_buffer := ''-'' @ ''MOVED 7 10.0.0.2:6379'' @ CRLF\<rparr>) sample_scripts =
   Inr (REDIS_MOVED, (sample_request REDIS_GET ''k'' [])\<lparr>rq_response_buffer := ''-'' @ ''MOVED 7 10.0.0.2:6379'' @ CRLF\<rparr>,
     None, sample_scripts)"
  using RedisProtoDecode_error [of
      "(sample_request REDIS_GET ''k'' [])\<lparr>rq_response_buffer := ''-'' @ ''MOVED 7 10.0.0.2:6379'' @ CRLF\<rparr>"
      "''MOVED 7 10.0.0.2:6379''" sample_env None sample_scripts]
  by (simp add: starts_with_def CR_def)

text \<open>C22: MSET sends the script call with the keys, the values in the same order and the parent's expiry for each.\<close>

theorem RedisProtoEncode_mset:
  assumes "rq_code request = QKPACK_RESPONSE_CODE_OK" "kv_command_type (rq_kvpair request) = REDIS_MSET"
    and "smap_get (rq_map_slots_kv par) (rq_slot_id request) = Some refs" "deref_all par refs = Inr kvs"
    and "RedisProtoEncodeLoadScript env request rp = Inr (QKPACK_OK, rp1)"
    and "script_at (rq_node_ip request) redis_proto_add_multikv_name rp1 = sha" "sha \<noteq> []" "length sha < 2 ^ 31"
    and "\<forall>k\<in>set kvs. length (kv_namespaces (rq_kvpair par) @ kv_key k) < 2 ^ 31 \<and>
      length (value_arg env (kv_compress_threshold (rq_kvpair request)) (kv_value k)) < 2 ^ 31"
    and "length refs < 2 ^ 31"
  shows "\<exists>request' rp'. RedisProtoEncode env (Some par) request rp = Inr (QKPACK_OK, request', rp') \<and>
    resp_parse (kv_proto_str (rq_kvpair request')) =
      Some ([''EVALSHA'', sha, ToString (int (length kvs))] @
        map (\<lambda>k. kv_namespaces (rq_kvpair par) @ kv_key k) kvs @
        map (\<lambda>k. value_arg env (kv_compress_threshold (rq_kvpair request)) (kv_value k)) kvs @
        map (\<lambda>k. ToString (kv_exptime (rq_kvpair par))) kvs, [])"
proof -
  have "RedisProtoEncode env (Some par) request rp = RedisProtoEncodeMset env (Some par) request rp"
    using assms(1,2) by (simp add: RedisProtoEncode_def codes Let_def)
  then show ?thesis using assms(3-10) deref_all_length [OF assms(4)]
    by (simp add: RedisProtoEncodeMset_def Let_def map_replicate_const send_cmd_exact' ball_Un)
qed

theorem RedisProtoEncode_mset_witness:
  "\<exists>request' rp'. RedisProtoEncode sample_env (Some sample_parent) (sample_request REDIS_MSET [] []) sample_scripts =
      Inr (QKPACK_OK, request', rp') \<and>
    resp_parse (kv_proto_str (rq_kvpair request')) =
      Some ([''EVALSHA'', ''h1'', ToString 2, ''abk1'', ''abk2'', ''v1'', ''v2'', ToString 604800, ToString 604800], [])"
proof -
  obtain rp1 where
    "RedisProtoEncodeLoadScript sample_env (sample_request REDIS_MSET [] []) sample_scripts = Inr (QKPACK_OK, rp1)"
    "\<And>ip name. script_at ip name rp1 = script_at ip name sample_scripts"
    by (rule LoadScript_cached [of "sample_request REDIS_MSET [] []" sample_scripts sample_env])
      (use sample_cached in simp_all)
  then have l:
    "RedisProtoEncodeLoadScript sample_env (sample_request REDIS_MSET [] []) sample_scripts = Inr (QKPACK_OK, rp1)"
    "script_at ''10.0.0.1:6379'' redis_proto_add_multikv_name rp1 = ''h1''"
    using sample_sha by simp_all
  show ?thesis
    using RedisProtoEncode_mset [of "sample_request REDIS_MSET [] []" sample_parent "[InVec 0, InVec 1]"
        "rq_vector_kv sample_parent" sample_env sample_scripts rp1 "''h1''"] l
    by (simp add: sample_parent_def new_request_def new_kvpair_def sample_value_arg)
qed

end
