(* ===== verification/RedisCluster.thy ===== *)
theory RedisCluster
  imports RedisProto RedisSlot
begin

text \<open>
  The cluster map (\<open>core/redis_node.cc\<close>, \<open>core/redis_cluster.cc\<close>): parsing the text of \<open>CLUSTER NODES\<close>
  into nodes with slot ranges, building the map from slots to addresses, looking up the node of a request,
  and following redirections.  The object is the record \<open>redis_cluster\<close>.  The answer of a server to
  \<open>CLUSTER NODES\<close> comes from hiredis, which is not part of the repository: it is the argument
  \<open>cluster_nodes\<close>, giving \<open>None\<close> when the connection fails and \<open>Some None\<close> for a reply without text.
  A slot number is a \<open>size_t\<close>; the loop over a range that ends at the largest one never ends.
\<close>


section \<open>Definitions\<close>

definition CLUSTER_NODES_ID :: nat where [codes]: "CLUSTER_NODES_ID = 0"
definition CLUSTER_NODES_ADDR :: nat where [codes]: "CLUSTER_NODES_ADDR = 1"
definition CLUSTER_NODES_ROLE :: nat where [codes]: "CLUSTER_NODES_ROLE = 2"
definition CLUSTER_NODES_SID :: nat where [codes]: "CLUSTER_NODES_SID = 3"
definition CLUSTER_NODES_CONNECTED :: nat where [codes]: "CLUSTER_NODES_CONNECTED = 7"
definition CLUSTER_NODES_LENGTH :: nat where [codes]: "CLUSTER_NODES_LENGTH = 8"

record redis_node =
  rn_id :: bytes
  rn_addr :: bytes
  rn_role :: bytes
  rn_sid :: bytes
  rn_myself :: bool
  rn_connected :: bool
  rn_slots :: "(u64 \<times> u64) list"

record redis_cluster =
  rc_map_cluster :: "(bytes, (int, bytes) smap) smap"
  rc_cluster_name :: bytes
  rc_backup_server :: bytes

definition new_redis_cluster :: "bytes \<Rightarrow> redis_cluster" where
  "new_redis_cluster backup = \<lparr>rc_map_cluster = [], rc_cluster_name = [], rc_backup_server = backup\<rparr>"

definition SetClusterName :: "bytes \<Rightarrow> redis_cluster \<Rightarrow> redis_cluster" where
  "SetClusterName cluster_name rc = rc\<lparr>rc_cluster_name := cluster_name\<rparr>"

definition GetClusterName :: "redis_cluster \<Rightarrow> bytes" where
  "GetClusterName rc = rc_cluster_name rc"

definition GetBackUpNode :: "redis_cluster \<Rightarrow> bytes" where
  "GetBackUpNode rc = rc_backup_server rc"

definition add_slot_range :: "u64 \<Rightarrow> u64 \<Rightarrow> redis_node \<Rightarrow> redis_node" where
  "add_slot_range mn mx node = node\<lparr>rn_slots := rn_slots node @ [(mn, mx)]\<rparr>"

text \<open>\<open>strchr(s, c)\<close> with a non-empty rest: the text before and after the first \<open>c\<close>.\<close>

definition cut_at :: "char \<Rightarrow> bytes \<Rightarrow> (bytes \<times> bytes) option" where
  "cut_at c s = (let i = scan (\<lambda>x. x = c) s in
     if i + 1 < length s then Some (take i s, drop (i + 1) s) else None)"

definition AddSlotRange :: "bytes \<Rightarrow> redis_node \<Rightarrow> redis_node" where
  "AddSlotRange slots node =
    (case cut_at (CHR ''-'') slots of
       Some (before, after) \<Rightarrow>
         let slot_min = word_of_int (atol before); slot_max = word_of_int (atol after) in
         add_slot_range slot_min (if slot_max < slot_min then slot_min else slot_max) node
     | None \<Rightarrow> let slot_min = word_of_int (atol slots) in add_slot_range slot_min slot_min node)"

definition GetNode_line :: "bytes \<Rightarrow> redis_node option" where
  "GetNode_line line =
    (let tokens = split_nonempty '' '' line in
     if length tokens < CLUSTER_NODES_LENGTH then None
     else
       let (myself, node_role) =
             (case cut_at (CHR '','') (tokens ! CLUSTER_NODES_ROLE) of
                Some (before, after) \<Rightarrow> (strcaseeq before ''myself'', after)
              | None \<Rightarrow> (False, tokens ! CLUSTER_NODES_ROLE));
           node = \<lparr>rn_id = tokens ! CLUSTER_NODES_ID, rn_addr = tokens ! CLUSTER_NODES_ADDR, rn_role = [],
                   rn_sid = tokens ! CLUSTER_NODES_SID, rn_myself = myself,
                   rn_connected = strcaseeq (tokens ! CLUSTER_NODES_CONNECTED) ''connected'', rn_slots = []\<rparr>;
           with_slots = (\<lambda>node. fold AddSlotRange (drop CLUSTER_NODES_LENGTH tokens) node) in
       if strcaseeq node_role ''master'' then Some (with_slots (node\<lparr>rn_role := ''master''\<rparr>))
       else if strcaseeq node_role ''slave'' then Some (node\<lparr>rn_role := ''slave''\<rparr>)
       else if strcaseeq node_role ''handshake'' then Some (with_slots (node\<lparr>rn_role := ''master''\<rparr>))
       else Some node)"

text \<open>\<open>for (slot_num = first; slot_num <= second; ++slot_num) slot_map[slot_num] = addr;\<close>\<close>

partial_function (option) fill_slots ::
  "bytes \<Rightarrow> u64 \<Rightarrow> u64 \<Rightarrow> (int, bytes) smap \<Rightarrow> (int, bytes) smap option" where
  [code]: "fill_slots addr slot_num second slot_map =
    (if slot_num \<le> second
     then fill_slots addr (slot_num + 1) second (smap_put (to_int (uint slot_num)) addr slot_map)
     else Some slot_map)"

fun fill_ranges :: "bytes \<Rightarrow> (u64 \<times> u64) list \<Rightarrow> (int, bytes) smap \<Rightarrow> (int, bytes) smap result" where
  "fill_ranges addr [] slot_map = Inr slot_map"
| "fill_ranges addr ((mn, mx) # slots) slot_map =
    (case fill_slots addr mn mx slot_map of
       None \<Rightarrow> Inl Diverges
     | Some slot_map \<Rightarrow> fill_ranges addr slots slot_map)"

definition SetMemNode :: "redis_node \<Rightarrow> (int, bytes) smap \<Rightarrow> (int \<times> (int, bytes) smap) result" where
  "SetMemNode node slot_map =
    (if \<not> rn_connected node then Inr (QKPACK_OK, slot_map)
     else bindR (fill_ranges (rn_addr node) (rn_slots node) slot_map) (\<lambda>slot_map. Inr (QKPACK_OK, slot_map)))"

fun update_lines :: "bytes list \<Rightarrow> (int, bytes) smap \<Rightarrow> (int \<times> (int, bytes) smap) result" where
  "update_lines [] slot_map = Inr (QKPACK_OK, slot_map)"
| "update_lines (line # lines) slot_map =
    (case GetNode_line line of
       None \<Rightarrow> update_lines lines slot_map
     | Some node \<Rightarrow>
         bindR (SetMemNode node slot_map) (\<lambda>(rc, slot_map).
           if rc \<noteq> QKPACK_OK then Inr (QKPACK_ERROR, slot_map) else update_lines lines slot_map))"

definition UpdateClusterNodes :: "bytes \<Rightarrow> bytes \<Rightarrow> redis_cluster \<Rightarrow> (int \<times> redis_cluster) result" where
  "UpdateClusterNodes input cluster_name rc =
    bindR (update_lines (split_nonempty [LF] input) []) (\<lambda>(status, slot_map).
      if status \<noteq> QKPACK_OK then Inr (QKPACK_ERROR, rc)
      else Inr (QKPACK_OK, rc\<lparr>rc_map_cluster := smap_insert cluster_name slot_map (rc_map_cluster rc)\<rparr>))"

type_synonym cluster_nodes_fn = "bytes \<Rightarrow> int \<Rightarrow> bytes option option"

text \<open>The two halves of \<open>host:port\<close>; an unparsable port is left uninitialised (\<open>junk\<close>).\<close>

definition host_port :: "int \<Rightarrow> bytes \<Rightarrow> (bytes \<times> int) result" where
  "host_port junk node_ip =
    (let vector_line = split_nonempty '':'' node_ip in
     if length vector_line < 2 then Inl Out_of_bounds
     else Inr (vector_line ! 0, case snd (StrToInt32 (vector_line ! 1)) of None \<Rightarrow> junk | Some p \<Rightarrow> p))"

definition GetCallback :: "bytes option \<Rightarrow> redis_cluster \<Rightarrow> redis_cluster result" where
  "GetCallback reply rc =
    (case reply of None \<Rightarrow> Inr rc
     | Some str \<Rightarrow> bindR (UpdateClusterNodes str (GetClusterName rc) rc) (\<lambda>(_, rc). Inr rc))"

definition InitAsyncClusterNode ::
  "cluster_nodes_fn \<Rightarrow> int \<Rightarrow> bytes \<Rightarrow> bytes \<Rightarrow> redis_cluster \<Rightarrow> (int \<times> redis_cluster) result" where
  "InitAsyncClusterNode cluster_nodes junk node_ip cluster_name rc =
    bindR (host_port junk node_ip) (\<lambda>(host, port).
      let rc = SetClusterName cluster_name rc in
      case cluster_nodes host port of
        None \<Rightarrow> Inr (QKPACK_ERROR, rc)
      | Some reply \<Rightarrow> bindR (GetCallback reply rc) (\<lambda>rc. Inr (QKPACK_OK, rc)))"

definition InitClusterNode ::
  "cluster_nodes_fn \<Rightarrow> int \<Rightarrow> bytes \<Rightarrow> bytes \<Rightarrow> redis_cluster \<Rightarrow> (int \<times> redis_cluster) result" where
  "InitClusterNode cluster_nodes junk node_ip cluster_name rc =
    bindR (host_port junk node_ip) (\<lambda>(host, port).
      case cluster_nodes host port of
        None \<Rightarrow> Inr (QKPACK_ERROR, rc)
      | Some None \<Rightarrow> Inl Null_deref
      | Some (Some str) \<Rightarrow> bindR (UpdateClusterNodes str cluster_name rc) (\<lambda>(_, rc). Inr (QKPACK_OK, rc)))"

fun try_nodes ::
  "cluster_nodes_fn \<Rightarrow> int \<Rightarrow> bytes list \<Rightarrow> bytes \<Rightarrow> redis_cluster \<Rightarrow> (int \<times> redis_cluster) result" where
  "try_nodes cluster_nodes junk [] cluster_name rc = Inr (QKPACK_ERROR, rc)"
| "try_nodes cluster_nodes junk (ip # ips) cluster_name rc =
    bindR (InitClusterNode cluster_nodes junk ip cluster_name rc) (\<lambda>(status, rc).
      if status = QKPACK_OK then Inr (QKPACK_OK, rc) else try_nodes cluster_nodes junk ips cluster_name rc)"

definition UpdateRouteNodeList ::
  "cluster_nodes_fn \<Rightarrow> int \<Rightarrow> bytes \<Rightarrow> bytes \<Rightarrow> redis_cluster \<Rightarrow> (int \<times> redis_cluster) result" where
  "UpdateRouteNodeList cluster_nodes junk iplist cluster_name rc =
    try_nodes cluster_nodes junk (split_nonempty '','' iplist) cluster_name rc"

fun update_servers ::
  "cluster_nodes_fn \<Rightarrow> int \<Rightarrow> (bytes, bytes) smap \<Rightarrow> bytes \<Rightarrow> redis_cluster \<Rightarrow> (int \<times> redis_cluster) result" where
  "update_servers cluster_nodes junk [] cluster_name rc = Inr (QKPACK_OK, rc)"
| "update_servers cluster_nodes junk ((_, iplist) # servers) cluster_name rc =
    bindR (UpdateRouteNodeList cluster_nodes junk iplist cluster_name rc) (\<lambda>(status, rc).
      if status \<noteq> QKPACK_OK then Inr (QKPACK_ERROR, rc)
      else update_servers cluster_nodes junk servers cluster_name rc)"

text \<open>The lookup of a subrequest, through its parent's cluster and its own slot.\<close>

definition GetNode_slot ::
  "qkpack_request_t option \<Rightarrow> qkpack_request_t \<Rightarrow> redis_cluster \<Rightarrow> (int \<times> qkpack_request_t) result" where
  "GetNode_slot parent request rc =
    (case parent of None \<Rightarrow> Inl Null_deref
     | Some par \<Rightarrow>
       Inr (case smap_get (rc_map_cluster rc) (rq_cluster_name par) of
              None \<Rightarrow> (QKPACK_ERROR, request)
            | Some slots \<Rightarrow>
                (case smap_get slots (rq_slot_id request) of
                   None \<Rightarrow> (QKPACK_ERROR, request)
                 | Some ip \<Rightarrow> (QKPACK_OK, request\<lparr>rq_node_ip := ip\<rparr>))))"

text \<open>The lookup of a request by its key, loading the cluster map first when it is not known.\<close>

definition lookup_key :: "(int, bytes) smap \<Rightarrow> qkpack_request_t \<Rightarrow> int \<times> qkpack_request_t" where
  "lookup_key slots request =
    (if kv_key (rq_kvpair request) = [] then (QKPACK_OK, request)
     else
       let key = kv_namespaces (rq_kvpair request) @ kv_key (rq_kvpair request);
           request = (if kv_slot_id (rq_kvpair request) < 0
                      then upd_kv (\<lambda>k. k\<lparr>kv_slot_id := int (key_hash_slot key)\<rparr>) request else request) in
       case smap_get slots (kv_slot_id (rq_kvpair request)) of
         None \<Rightarrow> (QKPACK_ERROR, request)
       | Some ip \<Rightarrow> (QKPACK_OK, request\<lparr>rq_node_ip := ip\<rparr>))"

definition GetNode ::
  "cluster_nodes_fn \<Rightarrow> int \<Rightarrow> route_t \<Rightarrow> qkpack_request_t \<Rightarrow> redis_cluster \<Rightarrow>
    (int \<times> qkpack_request_t \<times> redis_cluster) result" where
  "GetNode cluster_nodes junk route request rc =
    (let cluster_name = rq_cluster_name request;
         found = (\<lambda>rc slots. case lookup_key slots request of (status, request) \<Rightarrow> Inr (status, request, rc)) in
     case smap_get (rc_map_cluster rc) cluster_name of
       Some slots \<Rightarrow> found rc slots
     | None \<Rightarrow>
         bindR (if route_is_match_ip route
                then update_servers cluster_nodes junk (route_map_server route) cluster_name rc
                else UpdateRouteNodeList cluster_nodes junk (route_defaults route) cluster_name rc)
           (\<lambda>(status, rc).
             if status \<noteq> QKPACK_OK then Inr (QKPACK_ERROR, request, rc)
             else
               case smap_get (rc_map_cluster rc) cluster_name of
                 None \<Rightarrow> Inr (QKPACK_ERROR, request, rc)
               | Some slots \<Rightarrow> found rc slots))"

text \<open>A redirection: the status, the address it names and the updated map.\<close>

definition positive_number :: "bytes \<Rightarrow> bool" where
  "positive_number s \<longleftrightarrow> (case snd (StrToInt32 s) of None \<Rightarrow> False | Some v \<Rightarrow> v > 0)"

definition ProcessMoved ::
  "bytes \<Rightarrow> bytes \<Rightarrow> bytes \<Rightarrow> int \<Rightarrow> redis_cluster \<Rightarrow> (int \<times> bytes \<times> redis_cluster) result" where
  "ProcessMoved input cluster_name node_ip status rc =
    (if status \<noteq> REDIS_MOVED \<and> status \<noteq> REDIS_ASK then Inr (QKPACK_OK, node_ip, rc)
     else
       let vector_line = split_nonempty '' '' input in
       if length vector_line < 3 then Inr (QKPACK_ERROR, node_ip, rc)
       else
         case split_nonempty CRLF (vector_line ! 2) of
           [] \<Rightarrow> Inl Out_of_bounds
         | node_ip # _ \<Rightarrow>
             let vector_node = split_nonempty '':'' node_ip in
             if length vector_node \<noteq> 2 then Inr (QKPACK_ERROR, node_ip, rc)
             else if \<not> positive_number (vector_node ! 0) then Inr (QKPACK_ERROR, node_ip, rc)
             else if \<not> positive_number (vector_node ! 1) then Inr (QKPACK_ERROR, node_ip, rc)
             else if status \<noteq> REDIS_MOVED then Inr (QKPACK_OK, node_ip, rc)
             else
               let slotid = (case snd (StrToInt32 (vector_line ! 1)) of None \<Rightarrow> - 1 | Some v \<Rightarrow> v);
                   slots = smap_at [] (rc_map_cluster rc) cluster_name in
               Inr (QKPACK_OK, node_ip,
                    rc\<lparr>rc_map_cluster := smap_put cluster_name (smap_put slotid node_ip slots) (rc_map_cluster rc)\<rparr>))"

subsection \<open>Reference: the text of CLUSTER NODES\<close>

text \<open>One line as a Redis server prints it.\<close>

record cluster_line =
  cl_id :: bytes
  cl_addr :: bytes
  cl_myself :: bool
  cl_master :: bool
  cl_sid :: bytes
  cl_times :: "bytes \<times> bytes \<times> bytes"
  cl_connected :: bool
  cl_ranges :: "(nat \<times> nat) list"

definition range_text :: "nat \<times> nat \<Rightarrow> bytes" where
  "range_text r = (if fst r = snd r then dec_nat (fst r) else dec_nat (fst r) @ ''-'' @ dec_nat (snd r))"

definition cl_tokens :: "cluster_line \<Rightarrow> bytes list" where
  "cl_tokens n = [cl_id n, cl_addr n,
     (if cl_myself n then ''myself,'' else []) @ (if cl_master n then ''master'' else ''slave''), cl_sid n,
     fst (cl_times n), fst (snd (cl_times n)), snd (snd (cl_times n)),
     if cl_connected n then ''connected'' else ''disconnected''] @ map range_text (cl_ranges n)"

definition cl_text :: "cluster_line \<Rightarrow> bytes" where
  "cl_text n = join_with '' '' (cl_tokens n)"

definition nodes_text :: "cluster_line list \<Rightarrow> bytes" where
  "nodes_text ns = concat (map (\<lambda>n. cl_text n @ [LF]) ns)"

definition word_ok :: "bytes \<Rightarrow> bool" where
  "word_ok t \<longleftrightarrow> t \<noteq> [] \<and> CHR '' '' \<notin> set t \<and> LF \<notin> set t"

definition cl_ok :: "cluster_line \<Rightarrow> bool" where
  "cl_ok n \<longleftrightarrow> list_all word_ok [cl_id n, cl_addr n, cl_sid n, fst (cl_times n), fst (snd (cl_times n)), snd (snd (cl_times n))] \<and>
     list_all (\<lambda>r. fst r \<le> snd r \<and> snd r < 16384) (cl_ranges n)"

text \<open>The node serves the slot.\<close>

definition owns :: "nat \<Rightarrow> cluster_line \<Rightarrow> bool" where
  "owns s n \<longleftrightarrow> cl_connected n \<and> cl_master n \<and> list_ex (\<lambda>r. fst r \<le> s \<and> s \<le> snd r) (cl_ranges n)"

text \<open>A redirection as a server prints it.\<close>

definition moved_text :: "bytes \<Rightarrow> nat \<Rightarrow> bytes \<Rightarrow> nat \<Rightarrow> bytes" where
  "moved_text kind slot host port = kind @ '' '' @ dec_nat slot @ '' '' @ host @ '':'' @ dec_nat port @ CRLF"

subsection \<open>Sample data\<close>

definition sample_line :: cluster_line where
  "sample_line = \<lparr>cl_id = ''d52ea3'', cl_addr = ''10.0.0.2:7000'', cl_myself = False, cl_master = True, cl_sid = ''-'',
     cl_times = (''0'', ''1428410625374'', ''73''), cl_connected = True, cl_ranges = [(0, 16383)]\<rparr>"

definition sample_route :: route_t where
  "sample_route = \<lparr>route_defaults = ''10.0.0.1:'' @ dec_nat 6379, route_map_client = [], route_map_server = [],
     route_is_match_ip = False\<rparr>"

definition sample_cluster :: redis_cluster where
  "sample_cluster = (new_redis_cluster [])\<lparr>rc_map_cluster := [(''c1'', [(7, ''10.0.0.2:7000'')])]\<rparr>"

definition sample_nodes :: cluster_nodes_fn where
  "sample_nodes host port = Some (Some (nodes_text [sample_line]))"


section \<open>Cutting text\<close>

lemma find_at_char: "c \<notin> set x \<Longrightarrow> find_at [c] (x @ c # s) = Some (length x)"
  by (induction x) (auto simp: starts_with_def)

lemma find_at_char_None: "c \<notin> set x \<Longrightarrow> find_at [c] x = None"
  by (induction x) (auto simp: starts_with_def)

lemma split_on_Cons: "c \<notin> set x \<Longrightarrow> split_on [c] (x @ c # s) = x # split_on [c] s"
  by (subst split_on.simps) (simp add: find_at_char)

lemma split_on_single: "c \<notin> set x \<Longrightarrow> split_on [c] x = [x]"
  by (subst split_on.simps) (simp add: find_at_char_None)

lemma split_nonempty_join:
  assumes "\<forall>t\<in>set ts. t \<noteq> [] \<and> c \<notin> set t"
  shows "split_nonempty [c] (join_with [c] ts) = ts"
  using assms
proof (induction "[c]" ts rule: join_with.induct)
  case (1)
  show ?case by (simp add: split_nonempty_def split_on_single)
next
  case (2 x)
  then show ?case by (simp add: split_nonempty_def split_on_single)
next
  case (3 x y ys)
  then show ?case by (simp add: split_nonempty_def split_on_Cons)
qed

lemma split_nonempty_lines:
  assumes "\<forall>t\<in>set ts. t \<noteq> [] \<and> c \<notin> set t"
  shows "split_nonempty [c] (concat (map (\<lambda>t. t @ [c]) ts)) = ts"
  using assms
  by (induction ts) (simp_all add: split_nonempty_def split_on_Cons split_on_single)

lemma split_nonempty_two:
  assumes "a \<noteq> []" "b \<noteq> []" "c \<notin> set a" "c \<notin> set b"
  shows "split_nonempty [c] (a @ c # b) = [a, b]"
  using assms by (simp add: split_nonempty_def split_on_Cons split_on_single)

lemma split_CRLF: "CR \<notin> set x \<Longrightarrow> x \<noteq> [] \<Longrightarrow> split_nonempty CRLF (x @ CRLF) = [x]"
  using find_CRLF [of x "[]"]
  by (simp add: split_nonempty_def split_on.simps [of CRLF "x @ CRLF"] split_on.simps [of CRLF "[]"])

lemma cut_at_append: "c \<notin> set a \<Longrightarrow> b \<noteq> [] \<Longrightarrow> cut_at c (a @ c # b) = Some (a, b)"
proof -
  assume "c \<notin> set a" "b \<noteq> []"
  moreover have "scan (\<lambda>x. x = c) (a @ c # b) = length a"
    using \<open>c \<notin> set a\<close> by (induction a) auto
  ultimately show ?thesis by (simp add: cut_at_def)
qed

lemma cut_at_none: "c \<notin> set a \<Longrightarrow> cut_at c a = None"
proof -
  assume "c \<notin> set a"
  then have "scan (\<lambda>x. x = c) a = length a" by (induction a) auto
  then show ?thesis by (simp add: cut_at_def)
qed

lemma no_digit [simp]: "\<not> is_digit 10 (CHR '' '')" "\<not> is_digit 10 (CHR ''-'')" "\<not> is_digit 10 LF"
    "\<not> is_digit 10 (CHR '':'')" "\<not> is_digit 10 (CHR '','')"
  by (simp_all add: is_digit_def digit_val_def LF_def)

lemma atol_dec: "n < 2 ^ 63 \<Longrightarrow> atol (dec_nat n) = int n"
  using strtol_raw_dec_nat [of "[]" 10 n] by (simp add: atol_def strtol_def)

lemma StrToInt32_dec: "n < 2 ^ 31 \<Longrightarrow> StrToInt32 (dec_nat n) = (True, Some (int n))"
  using strtol_raw_dec_nat [of "[]" 10 n] by (simp add: StrToInt32_def strtol_def strtol_erange_def)


section \<open>Slot ranges\<close>

lemma AddSlotRange_text:
  assumes "fst r \<le> snd r" "snd r < 16384"
  shows "AddSlotRange (range_text r) node = add_slot_range (of_nat (fst r)) (of_nat (snd r)) node"
proof (cases "fst r = snd r")
  case True
  then show ?thesis using assms
    by (simp add: AddSlotRange_def range_text_def cut_at_none dec_nat_no atol_dec Let_def)
next
  case False
  have lt: "\<not> (of_nat (snd r) :: u64) < of_nat (fst r)"
    using assms by (simp add: word_less_nat_alt unat_of_nat)
  have "cut_at (CHR ''-'') (range_text r) = Some (dec_nat (fst r), dec_nat (snd r))"
    using False cut_at_append [of "CHR ''-''" "dec_nat (fst r)" "dec_nat (snd r)"]
    by (simp add: range_text_def dec_nat_no)
  then show ?thesis using assms lt by (simp add: AddSlotRange_def Let_def atol_dec)
qed

lemma fold_AddSlotRange:
  assumes "list_all (\<lambda>r. fst r \<le> snd r \<and> snd r < 16384) rs"
  shows "fold AddSlotRange (map range_text rs) node =
    node\<lparr>rn_slots := rn_slots node @ map (\<lambda>r. (of_nat (fst r), of_nat (snd r))) rs\<rparr>"
  using assms
  by (induction rs arbitrary: node) (simp_all add: AddSlotRange_text add_slot_range_def)

text \<open>
  the token of a slot under migration, \<open>[93->-id]\<close>, is read as the range from slot 0 to slot 0, so the
  node that migrates or imports any slot takes over slot 0.
\<close>

theorem AddSlotRange_migrating:
  "AddSlotRange (''['' @ dec_nat slot @ ''->-'' @ node_id @ '']'') node = add_slot_range 0 0 node"
proof -
  let ?a = "CHR ''['' # dec_nat slot" and ?b = "''>-'' @ node_id @ '']''"
  have "cut_at (CHR ''-'') (?a @ CHR ''-'' # ?b) = Some (?a, ?b)"
    by (rule cut_at_append) (simp_all add: dec_nat_no)
  moreover have "atol ?a = 0" "atol ?b = 0"
    by (simp_all add: atol_def strtol_def strtol_raw_def is_space_def is_digit_def digit_val_def Let_def)
  ultimately show ?thesis by (simp add: AddSlotRange_def Let_def)
qed

lemma fill_slots_done: "second < slot \<Longrightarrow> fill_slots addr slot second m = Some m"
  using leD by (subst fill_slots.simps) auto

text \<open>The loop over a range ends unless the range ends at the largest \<open>size_t\<close>.\<close>

lemma fill_slots_Some:
  assumes "second < 16384" "slot \<le> 16384"
  shows "\<exists>m'. fill_slots addr (of_nat slot) (of_nat second) m = Some m' \<and>
    (smap_ok m \<longrightarrow> smap_ok m') \<and>
    (\<forall>s. smap_get m' (int s) = (if slot \<le> s \<and> s \<le> second then Some addr else smap_get m (int s)))"
  using assms(2)
proof (induction "16384 - slot" arbitrary: slot m)
  case 0
  then have "(of_nat second :: u64) < of_nat slot"
    using assms by (simp add: word_less_nat_alt unat_of_nat)
  then show ?case using 0 assms by (auto simp: fill_slots_done)
next
  case (Suc k)
  show ?case
  proof (cases "slot \<le> second")
    case True
    then have le: "(of_nat slot :: u64) \<le> of_nat second"
      using assms by (simp add: word_le_nat_alt unat_of_nat)
    have i: "to_int (uint (of_nat slot :: u64)) = int slot"
      using True assms by (simp add: uint_nat unat_of_nat)
    have "fill_slots addr (of_nat slot) (of_nat second) m =
        fill_slots addr (of_nat (Suc slot)) (of_nat second) (smap_put (int slot) addr m)"
      using le i by (subst fill_slots.simps) (simp add: add.commute)
    moreover have "\<exists>m'. fill_slots addr (of_nat (Suc slot)) (of_nat second) (smap_put (int slot) addr m) = Some m' \<and>
      (smap_ok (smap_put (int slot) addr m) \<longrightarrow> smap_ok m') \<and>
      (\<forall>s. smap_get m' (int s) = (if Suc slot \<le> s \<and> s \<le> second then Some addr
         else smap_get (smap_put (int slot) addr m) (int s)))"
      by (rule Suc(1)) (use Suc(2,3) in simp_all)
    ultimately show ?thesis using True by (auto simp: smap_get_put smap_ok_put simp del: of_nat_Suc)
  next
    case False
    then have "(of_nat second :: u64) < of_nat slot"
      using Suc(3) assms(1) by (simp add: word_less_nat_alt unat_of_nat)
    then show ?thesis using False by (auto simp: fill_slots_done)
  qed
qed

lemma fill_slots_max: "fill_slots addr slot (- 1) m = None"
proof -
  have max: "mx \<noteq> - 1" if "fill_slots a sl mx m0 = Some y" for a sl mx m0 y
    using that
    by (rule fill_slots.raw_induct [where P = "\<lambda>_ _ mx _ _. mx \<noteq> - 1", rotated])
      (auto split: if_splits)
  show ?thesis using max [of addr slot "- 1" m] by (cases "fill_slots addr slot (- 1) m") auto
qed

lemma fill_ranges_Some:
  assumes "list_all (\<lambda>r. fst r \<le> snd r \<and> snd r < 16384) rs"
  shows "\<exists>m'. fill_ranges addr (map (\<lambda>r. (of_nat (fst r), of_nat (snd r))) rs) m = Inr m' \<and>
    (smap_ok m \<longrightarrow> smap_ok m') \<and>
    (\<forall>s. smap_get m' (int s) =
       (if list_ex (\<lambda>r. fst r \<le> s \<and> s \<le> snd r) rs then Some addr else smap_get m (int s)))"
  using assms
proof (induction rs arbitrary: m)
  case (Cons r rs)
  obtain m1 where m1: "fill_slots addr (of_nat (fst r)) (of_nat (snd r)) m = Some m1" "smap_ok m \<longrightarrow> smap_ok m1"
    "\<forall>s. smap_get m1 (int s) = (if fst r \<le> s \<and> s \<le> snd r then Some addr else smap_get m (int s))"
    using fill_slots_Some [of "snd r" "fst r" addr m] Cons.prems by auto
  obtain m2 where "fill_ranges addr (map (\<lambda>r. (of_nat (fst r), of_nat (snd r))) rs) m1 = Inr m2"
    "smap_ok m1 \<longrightarrow> smap_ok m2"
    "\<forall>s. smap_get m2 (int s) = (if list_ex (\<lambda>r. fst r \<le> s \<and> s \<le> snd r) rs then Some addr else smap_get m1 (int s))"
    using Cons.IH [of m1] Cons.prems by auto
  then show ?case using m1 by auto
qed simp


section \<open>Reading the text of CLUSTER NODES\<close>

lemma word_ok_range: "word_ok (range_text r)"
  by (simp add: word_ok_def range_text_def dec_nat_no LF_def)
    (simp add: dec_nat_no [unfolded is_digit_def digit_val_def])

lemma word_ok_tokens:
  assumes "cl_ok n" "t \<in> set (cl_tokens n)"
  shows "word_ok t"
  using assms word_ok_range by (auto simp: cl_ok_def cl_tokens_def word_ok_def LF_def split: if_splits)

lemma split_cl_text: "cl_ok n \<Longrightarrow> split_nonempty '' '' (cl_text n) = cl_tokens n"
  unfolding cl_text_def using word_ok_tokens by (intro split_nonempty_join) (auto simp: word_ok_def)

lemma cut_at_no_comma: "cut_at (CHR '','') ''master'' = None" "cut_at (CHR '','') ''slave'' = None"
  by (rule cut_at_none; simp)+

lemma cut_at_myself:
  "cut_at (CHR '','') (''myself,'' @ r) = (if r = [] then None else Some (''myself'', r))"
  using cut_at_append [of "CHR '',''" "''myself''" r] by (auto simp: cut_at_def)

lemma GetNode_line_text:
  assumes "cl_ok n"
  shows "GetNode_line (cl_text n) = Some \<lparr>rn_id = cl_id n, rn_addr = cl_addr n,
    rn_role = (if cl_master n then ''master'' else ''slave''), rn_sid = cl_sid n, rn_myself = cl_myself n,
    rn_connected = cl_connected n,
    rn_slots = (if cl_master n then map (\<lambda>r. (of_nat (fst r), of_nat (snd r))) (cl_ranges n) else [])\<rparr>"
proof -
  have conn: "strcaseeq ''connected'' ''connected''" "\<not> strcaseeq ''disconnected'' ''connected''"
    "strcaseeq ''myself'' ''myself''" "strcaseeq ''master'' ''master''" "strcaseeq ''slave'' ''slave''"
    "\<not> strcaseeq ''slave'' ''master''"
    by (simp_all add: strcaseeq_def)
  have cut: "cut_at (CHR '','') ''myself,master'' = Some (''myself'', ''master'')"
    "cut_at (CHR '','') ''myself,slave'' = Some (''myself'', ''slave'')"
    using cut_at_myself [of "''master''"] cut_at_myself [of "''slave''"] by simp_all
  have len: "\<not> length (cl_tokens n) < CLUSTER_NODES_LENGTH" by (simp add: cl_tokens_def codes)
  have tok: "drop CLUSTER_NODES_LENGTH (cl_tokens n) = map range_text (cl_ranges n)"
    by (simp add: cl_tokens_def codes)
  show ?thesis
    using assms fold_AddSlotRange [of "cl_ranges n"]
    unfolding GetNode_line_def split_cl_text [OF assms] Let_def tok
    by (simp add: len cl_ok_def) (simp add: cl_tokens_def codes conn cut cut_at_no_comma)
qed

lemma find_snoc:
  "find P (xs @ [n]) = (case find P xs of None \<Rightarrow> if P n then Some n else None | Some k \<Rightarrow> Some k)"
  by (induction xs) auto

lemma update_lines_text:
  assumes "list_all cl_ok ns"
  shows "\<exists>m'. update_lines (map cl_text ns) m = Inr (QKPACK_OK, m') \<and> (smap_ok m \<longrightarrow> smap_ok m') \<and>
    (\<forall>s. smap_get m' (int s) =
       (case find (owns s) (rev ns) of None \<Rightarrow> smap_get m (int s) | Some n \<Rightarrow> Some (cl_addr n)))"
  using assms
proof (induction ns arbitrary: m)
  case (Cons n ns)
  let ?slots = "if cl_master n then map (\<lambda>r. (of_nat (fst r), of_nat (snd r))) (cl_ranges n) else []"
  have n: "cl_ok n" using Cons.prems by simp
  have ranges: "list_all (\<lambda>r. fst r \<le> snd r \<and> snd r < 16384) (cl_ranges n)" using n by (simp add: cl_ok_def)
  have "\<exists>m1. SetMemNode (the (GetNode_line (cl_text n))) m = Inr (QKPACK_OK, m1) \<and> (smap_ok m \<longrightarrow> smap_ok m1) \<and>
      (\<forall>s. smap_get m1 (int s) = (if owns s n then Some (cl_addr n) else smap_get m (int s)))"
    using fill_ranges_Some [OF ranges, of "cl_addr n" m]
    by (auto simp: SetMemNode_def GetNode_line_text [OF n] owns_def)
  then obtain m1 where m1: "SetMemNode (the (GetNode_line (cl_text n))) m = Inr (QKPACK_OK, m1)"
    "smap_ok m \<longrightarrow> smap_ok m1" "\<And>s. smap_get m1 (int s) = (if owns s n then Some (cl_addr n) else smap_get m (int s))"
    by blast
  obtain m2 where m2: "update_lines (map cl_text ns) m1 = Inr (QKPACK_OK, m2)" "smap_ok m1 \<longrightarrow> smap_ok m2"
    "\<And>s. smap_get m2 (int s) =
      (case find (owns s) (rev ns) of None \<Rightarrow> smap_get m1 (int s) | Some n \<Rightarrow> Some (cl_addr n))"
    using Cons.IH [of m1] Cons.prems by auto
  have "update_lines (map cl_text (n # ns)) m = Inr (QKPACK_OK, m2)"
    using m1(1) m2(1) by (simp add: GetNode_line_text [OF n])
  then show ?case using m1(2,3) m2(2,3) by (auto simp: find_snoc split: option.splits)
qed simp

lemma set_join_with: "set (join_with sep ts) \<subseteq> set sep \<union> (\<Union>t\<in>set ts. set t)"
  by (induction sep ts rule: join_with.induct) auto

lemma cl_text_line: "cl_ok n \<Longrightarrow> cl_text n \<noteq> [] \<and> LF \<notin> set (cl_text n)"
proof -
  assume n: "cl_ok n"
  then have "LF \<notin> set (cl_text n)"
    using set_join_with [of "'' ''" "cl_tokens n"] word_ok_tokens [OF n]
    by (auto simp: cl_text_def word_ok_def LF_def)
  moreover have "cl_text n \<noteq> []" using n by (simp add: cl_text_def cl_tokens_def cl_ok_def word_ok_def)
  ultimately show ?thesis by simp
qed

lemma split_nodes_text: "list_all cl_ok ns \<Longrightarrow> split_nonempty [LF] (nodes_text ns) = map cl_text ns"
  using split_nonempty_lines [of "map cl_text ns" LF] cl_text_line
  by (auto simp: nodes_text_def list_all_iff comp_def)

lemma find_rev_Some: "find P (rev ns) = Some k \<Longrightarrow> k \<in> set ns \<and> P k"
  by (auto simp: find_Some_iff) (metis length_rev nth_mem set_rev)

lemma find_rev_owner:
  assumes "n \<in> set ns" "P n" "\<forall>k\<in>set ns. P k \<longrightarrow> f k = f n"
  shows "\<exists>k. find P (rev ns) = Some k \<and> f k = f n"
proof (cases "find P (rev ns)")
  case None
  then show ?thesis using assms(1,2) by (auto simp: find_None_iff)
next
  case (Some k)
  then show ?thesis using find_rev_Some [OF Some] assms(3) by auto
qed

lemma UpdateClusterNodes_text:
  assumes "list_all cl_ok ns" "smap_get (rc_map_cluster rc) cluster_name = None"
  shows "\<exists>rc' slots. UpdateClusterNodes (nodes_text ns) cluster_name rc = Inr (QKPACK_OK, rc') \<and>
    smap_get (rc_map_cluster rc') cluster_name = Some slots \<and>
    (\<forall>s. smap_get slots (int s) = map_option cl_addr (find (owns s) (rev ns))) \<and>
    (\<forall>c. c \<noteq> cluster_name \<longrightarrow> smap_get (rc_map_cluster rc') c = smap_get (rc_map_cluster rc) c)"
proof -
  obtain slots where slots: "update_lines (map cl_text ns) [] = Inr (QKPACK_OK, slots)"
    "\<forall>s. smap_get slots (int s) =
      (case find (owns s) (rev ns) of None \<Rightarrow> smap_get [] (int s) | Some n \<Rightarrow> Some (cl_addr n))"
    using update_lines_text [OF assms(1), of "[]"] by blast
  let ?rc = "rc\<lparr>rc_map_cluster := smap_insert cluster_name slots (rc_map_cluster rc)\<rparr>"
  have "UpdateClusterNodes (nodes_text ns) cluster_name rc = Inr (QKPACK_OK, ?rc)"
    using slots(1) by (simp add: UpdateClusterNodes_def split_nodes_text [OF assms(1)])
  moreover have "smap_get (rc_map_cluster ?rc) c = (if c = cluster_name then Some slots else smap_get (rc_map_cluster rc) c)" for c
    using assms(2) by (simp add: smap_get_insert)
  moreover have "smap_get slots (int s) = map_option cl_addr (find (owns s) (rev ns))" for s
    using slots(2) by (simp split: option.split)
  ultimately show ?thesis by auto
qed

lemma sample_line_ok: "list_all cl_ok [sample_line]"
  by (simp add: sample_line_def cl_ok_def word_ok_def LF_def)

lemma sample_line_owns: "owns s sample_line \<longleftrightarrow> s < 16384"
  by (auto simp: sample_line_def owns_def)



text \<open>
  the map of a cluster that is already known is never replaced: reading CLUSTER NODES again leaves the
  object as it was.
\<close>

theorem UpdateClusterNodes_known:
  assumes "UpdateClusterNodes input cluster_name rc = Inr (status, rc')"
    and "smap_get (rc_map_cluster rc) cluster_name = Some slots"
  shows "rc' = rc"
  using assms by (auto simp: UpdateClusterNodes_def bindR_Inr_iff smap_insert_def split: if_splits)

theorem UpdateClusterNodes_known_witness:
  "\<exists>rc'. UpdateClusterNodes (nodes_text [sample_line]) ''c1'' sample_cluster = Inr (QKPACK_OK, rc') \<and> rc' = sample_cluster"
proof -
  obtain slots where "update_lines (map cl_text [sample_line]) [] = Inr (QKPACK_OK, slots)"
    using update_lines_text [OF sample_line_ok, of "[]"] by blast
  then obtain rc' where "UpdateClusterNodes (nodes_text [sample_line]) ''c1'' sample_cluster = Inr (QKPACK_OK, rc')"
    by (simp add: UpdateClusterNodes_def split_nodes_text [OF sample_line_ok])
  then show ?thesis
    using UpdateClusterNodes_known [of "nodes_text [sample_line]" "''c1''" sample_cluster QKPACK_OK rc'
        "[(7, ''10.0.0.2:7000'')]"]
    by (simp add: sample_cluster_def)
qed


section \<open>Routing a request\<close>

lemma UpdateRouteNodeList_single:
  assumes "host \<noteq> []" "CHR '','' \<notin> set host" "CHR '':'' \<notin> set host" "port < 2 ^ 31"
    and "cluster_nodes host (int port) = Some (Some txt)"
    and "UpdateClusterNodes txt cluster_name rc = Inr (status, rc')"
  shows "UpdateRouteNodeList cluster_nodes junk (host @ '':'' @ dec_nat port) cluster_name rc = Inr (QKPACK_OK, rc')"
proof -
  have "CHR '','' \<notin> set (host @ '':'' @ dec_nat port)" using assms(2) by (simp add: dec_nat_no)
  then have "split_nonempty '','' (host @ '':'' @ dec_nat port) = [host @ '':'' @ dec_nat port]"
    by (simp add: split_nonempty_def split_on_single)
  moreover have "split_nonempty '':'' (host @ '':'' @ dec_nat port) = [host, dec_nat port]"
    using split_nonempty_two [of host "dec_nat port" "CHR '':''"] assms(1,3) by (simp add: dec_nat_no)
  ultimately show ?thesis using assms(4-6)
    by (simp add: UpdateRouteNodeList_def InitClusterNode_def host_port_def Let_def StrToInt32_dec)
qed

text \<open>
  C11: a request for a key of a cluster seen for the first time loads the map from the configured server and is
  sent to the master that serves the slot of its namespaced key.
\<close>

theorem GetNode_routes:
  assumes "list_all cl_ok ns" "smap_get (rc_map_cluster rc) (rq_cluster_name request) = None"
    and "\<not> route_is_match_ip route" "route_defaults route = host @ '':'' @ dec_nat port"
    and "host \<noteq> []" "CHR '','' \<notin> set host" "CHR '':'' \<notin> set host" "port < 2 ^ 31"
    and "cluster_nodes host (int port) = Some (Some (nodes_text ns))"
    and "kv_key (rq_kvpair request) \<noteq> []" "kv_slot_id (rq_kvpair request) < 0"
    and "s = key_hash_slot (kv_namespaces (rq_kvpair request) @ kv_key (rq_kvpair request))"
    and "n \<in> set ns" "owns s n" "\<forall>k\<in>set ns. owns s k \<longrightarrow> cl_addr k = cl_addr n"
  shows "\<exists>rc'. GetNode cluster_nodes junk route request rc =
    Inr (QKPACK_OK, (upd_kv (\<lambda>k. k\<lparr>kv_slot_id := int s\<rparr>) request)\<lparr>rq_node_ip := cl_addr n\<rparr>, rc')"
proof -
  obtain rc' slots where r: "UpdateClusterNodes (nodes_text ns) (rq_cluster_name request) rc = Inr (QKPACK_OK, rc')"
    "smap_get (rc_map_cluster rc') (rq_cluster_name request) = Some slots"
    "\<forall>s. smap_get slots (int s) = map_option cl_addr (find (owns s) (rev ns))"
    using UpdateClusterNodes_text [OF assms(1,2)] by (elim exE conjE) (rule that)
  have "UpdateRouteNodeList cluster_nodes junk (route_defaults route) (rq_cluster_name request) rc = Inr (QKPACK_OK, rc')"
    unfolding assms(4)
    using UpdateRouteNodeList_single [of host port cluster_nodes "nodes_text ns" "rq_cluster_name request" rc
      QKPACK_OK rc' junk, OF assms(5-8)] assms(9) r(1) by simp
  moreover obtain k where "find (owns s) (rev ns) = Some k" "cl_addr k = cl_addr n"
    using find_rev_owner [of n ns "owns s" cl_addr, OF assms(13-15)] by blast
  moreover from this have "smap_get slots (int s) = Some (cl_addr n)" using r(3) by simp
  ultimately show ?thesis using assms(2,3,10-12) r(2)
    by (simp add: GetNode_def lookup_key_def Let_def)
qed

theorem GetNode_routes_witness:
  "\<exists>rc'. GetNode sample_nodes 0 sample_route ((sample_request REDIS_GET ''k'' [])\<lparr>rq_cluster_name := ''c2''\<rparr>) sample_cluster =
    Inr (QKPACK_OK, (upd_kv (\<lambda>k. k\<lparr>kv_slot_id := int (key_hash_slot ''abk'')\<rparr>)
      ((sample_request REDIS_GET ''k'' [])\<lparr>rq_cluster_name := ''c2''\<rparr>))\<lparr>rq_node_ip := cl_addr sample_line\<rparr>, rc')"
  by (rule GetNode_routes [OF sample_line_ok, where host = "''10.0.0.1''" and port = 6379])
    (simp_all add: sample_cluster_def sample_route_def sample_nodes_def sample_line_owns key_hash_slot_bound
      sample_request_def new_kvpair_def)


section \<open>Redirections\<close>

lemma digit_no_CR: "CR \<notin> set (dec_nat n)"
  by (rule dec_nat_no) simp

lemma split_moved:
  assumes "kind \<noteq> []" "CHR '' '' \<notin> set kind" "host \<noteq> []" "CHR '' '' \<notin> set host"
  shows "split_nonempty '' '' (moved_text kind slot host port) = [kind, dec_nat slot, host @ '':'' @ dec_nat port @ CRLF]"
proof -
  have "moved_text kind slot host port = join_with '' '' [kind, dec_nat slot, host @ '':'' @ dec_nat port @ CRLF]"
    by (simp add: moved_text_def)
  then show ?thesis
    using assms by (simp only:, intro split_nonempty_join) (auto simp: dec_nat_no CR_def LF_def)
qed

lemma ProcessMoved_parsed:
  assumes "kind \<noteq> []" "CHR '' '' \<notin> set kind" "host \<noteq> []" "\<forall>c\<in>set host. c \<notin> set [CHR '' '', CHR '':'', CR]"
    and "positive_number host" "slot < 2 ^ 31" "0 < port" "port < 2 ^ 31" "status = REDIS_MOVED \<or> status = REDIS_ASK"
  shows "ProcessMoved (moved_text kind slot host port) cluster_name node_ip status rc =
    Inr (QKPACK_OK, host @ '':'' @ dec_nat port,
      if status = REDIS_MOVED then rc\<lparr>rc_map_cluster := smap_put cluster_name
        (smap_put (int slot) (host @ '':'' @ dec_nat port) (smap_at [] (rc_map_cluster rc) cluster_name))
        (rc_map_cluster rc)\<rparr> else rc)"
proof -
  let ?ip = "host @ '':'' @ dec_nat port"
  have line: "split_nonempty '' '' (moved_text kind slot host port) = [kind, dec_nat slot, ?ip @ CRLF]"
    using split_moved [of kind host slot port] assms(1-4) by auto
  have "CR \<notin> set ?ip" using assms(4) digit_no_CR by (auto simp: CR_def)
  then have node: "split_nonempty CRLF (?ip @ CRLF) = [?ip]" by (rule split_CRLF) simp
  have two: "split_nonempty '':'' ?ip = [host, dec_nat port]"
    using split_nonempty_two [of host "dec_nat port" "CHR '':''"] assms(3,4) by (auto simp: dec_nat_no)
  have "positive_number (dec_nat port)" using assms(7,8) by (simp add: positive_number_def StrToInt32_dec)
  then show ?thesis using assms(5,6,9) unfolding ProcessMoved_def line
    by (auto simp: Let_def node [simplified] two [simplified] StrToInt32_dec codes)
qed

text \<open>
  C26: a MOVED reply makes the named address the target of the retry and of that slot in that cluster, and
  changes no other slot of any cluster; an ASK reply sets the target only.
\<close>

theorem ProcessMoved_redirect:
  assumes "kind = ''-MOVED'' \<and> status = REDIS_MOVED \<or> kind = ''-ASK'' \<and> status = REDIS_ASK"
    and "host \<noteq> []" "\<forall>c\<in>set host. c \<notin> set [CHR '' '', CHR '':'', CR]" "positive_number host"
    and "slot < 2 ^ 31" "0 < port" "port < 2 ^ 31"
  shows "\<exists>rc'. ProcessMoved (moved_text kind slot host port) cluster_name node_ip status rc =
      Inr (QKPACK_OK, host @ '':'' @ dec_nat port, rc') \<and>
    (\<forall>c s. smap_get (smap_at [] (rc_map_cluster rc') c) s =
       (if status = REDIS_MOVED \<and> c = cluster_name \<and> s = int slot then Some (host @ '':'' @ dec_nat port)
        else smap_get (smap_at [] (rc_map_cluster rc) c) s))"
proof -
  have kind: "kind \<noteq> []" "CHR '' '' \<notin> set kind" "status = REDIS_MOVED \<or> status = REDIS_ASK"
    using assms(1) by auto
  show ?thesis
    unfolding ProcessMoved_parsed [OF kind(1,2) assms(2-7) kind(3)]
    by (auto simp: smap_at_def smap_get_put)
qed

theorem ProcessMoved_redirect_witness:
  "\<exists>rc'. ProcessMoved (moved_text ''-MOVED'' 7 ''10.0.0.3'' 7001) ''c1'' [] REDIS_MOVED sample_cluster =
      Inr (QKPACK_OK, ''10.0.0.3:'' @ dec_nat 7001, rc') \<and>
    smap_get (smap_at [] (rc_map_cluster rc') ''c1'') 7 = Some (''10.0.0.3:'' @ dec_nat 7001)"
proof -
  have "positive_number ''10.0.0.3''"
    by (simp add: positive_number_def StrToInt32_def strtol_def strtol_raw_def is_space_def is_digit_def
        digit_val_def Let_def)
  then show ?thesis
    using ProcessMoved_redirect [of "''-MOVED''" REDIS_MOVED "''10.0.0.3''" 7 7001 "''c1''" "[]" sample_cluster]
    by (fastforce simp: CR_def)
qed

end
