(* ===== verification/YajlValidate.thy ===== *)
theory YajlValidate
  imports QkNames
begin

text \<open>
  The interface of the yajl library the parsers use, and the checks of
  \<open>parser/qkpack_yajl_validate.cc\<close>.  A \<open>yajl_val\<close> is a pointer to a node of a parse tree, so a value of
  type \<open>yajl_val option\<close> with \<open>None\<close> for \<open>NULL\<close>; the constructors are the node types of
  \<open>yajl_tree.h\<close>.  The library itself is a parameter, the record \<open>yajl\<close>: what \<open>yajl_tree_parse\<close> and
  \<open>yajl_tree_get\<close> return, whether a generator can be allocated, and the buffer after a list of
  generator calls.  \<open>tree_get\<close> states the documented contract of \<open>yajl_tree_get\<close>.  A validator
  returns its status and the description it leaves; calling \<open>strlen\<close> on \<open>NULL\<close> is a fault.
\<close>


section \<open>The yajl interface\<close>

datatype yajl_type = Y_string | Y_number | Y_object | Y_array | Y_true | Y_false | Y_null

datatype yajl_val =
    YString bytes
  | YNumber int dbl
  | YObject "(bytes \<times> yajl_val) list"
  | YArray "yajl_val list"
  | YTrue
  | YFalse
  | YNull

datatype gen_call =
    Gen_string bytes
  | Gen_integer int
  | Gen_double dbl
  | Gen_bool bool
  | Gen_map_open
  | Gen_map_close
  | Gen_array_open
  | Gen_array_close

record yajl =
  yj_tree_parse :: "bytes \<Rightarrow> yajl_val option"
  yj_tree_get :: "yajl_val option \<Rightarrow> bytes \<Rightarrow> yajl_type \<Rightarrow> yajl_val option"
  yj_gen_alloc :: bool
  yj_gen_buf :: "bool \<Rightarrow> gen_call list \<Rightarrow> bytes option"

fun type_of_val :: "yajl_val \<Rightarrow> yajl_type" where
  "type_of_val (YString _) = Y_string"
| "type_of_val (YNumber _ _) = Y_number"
| "type_of_val (YObject _) = Y_object"
| "type_of_val (YArray _) = Y_array"
| "type_of_val YTrue = Y_true"
| "type_of_val YFalse = Y_false"
| "type_of_val YNull = Y_null"

text \<open>\<open>c_str\<close> of a byte string as the callee sees it, up to the first terminator.\<close>

definition c_str :: "bytes \<Rightarrow> bytes" where
  "c_str s = takeWhile (\<lambda>c. c \<noteq> NUL) s"

text \<open>The contract of \<open>yajl_tree_get\<close> for a path of one key: the value of the first entry of an object
  with that key, if it has the wanted type.\<close>

definition tree_get :: "yajl_val option \<Rightarrow> bytes \<Rightarrow> yajl_type \<Rightarrow> yajl_val option" where
  "tree_get parent key ty =
    (case parent of
       Some (YObject kvs) \<Rightarrow>
         (case find (\<lambda>(k, v). c_str k = key) kvs of
            None \<Rightarrow> None
          | Some (k, v) \<Rightarrow> if type_of_val v = ty then Some v else None)
     | _ \<Rightarrow> None)"

text \<open>\<open>YAJL_GET_STRING\<close>, \<open>YAJL_GET_ARRAY\<close>, \<open>YAJL_GET_INTEGER\<close> and \<open>YAJL_GET_DOUBLE\<close>.  The first two are
  \<open>NULL\<close> on a value of another type; the others read the union without a check.\<close>

fun YAJL_GET_STRING :: "yajl_val option \<Rightarrow> bytes option" where
  "YAJL_GET_STRING (Some (YString s)) = Some (c_str s)"
| "YAJL_GET_STRING _ = None"

fun YAJL_GET_ARRAY :: "yajl_val option \<Rightarrow> yajl_val list option" where
  "YAJL_GET_ARRAY (Some (YArray vs)) = Some vs"
| "YAJL_GET_ARRAY _ = None"

fun YAJL_GET_INTEGER :: "yajl_val option \<Rightarrow> int result" where
  "YAJL_GET_INTEGER (Some (YNumber i d)) = Inr i"
| "YAJL_GET_INTEGER (Some _) = Inl Uninitialised"
| "YAJL_GET_INTEGER None = Inl Null_deref"

fun YAJL_GET_DOUBLE :: "yajl_val option \<Rightarrow> dbl result" where
  "YAJL_GET_DOUBLE (Some (YNumber i d)) = Inr d"
| "YAJL_GET_DOUBLE (Some _) = Inl Uninitialised"
| "YAJL_GET_DOUBLE None = Inl Null_deref"

text \<open>Passing a \<open>char *\<close> to \<open>strlen\<close> or to the constructor of \<open>std::string\<close>.\<close>

definition get_str :: "yajl_val option \<Rightarrow> bytes result" where
  "get_str v = (case YAJL_GET_STRING v of None \<Rightarrow> Inl Null_deref | Some s \<Rightarrow> Inr s)"

text \<open>The elements an \<open>int\<close> counter reaches.\<close>

definition int_elems :: "'a list \<Rightarrow> 'a list" where
  "int_elems vs = take (nat (to_int (int (length vs)))) vs"

fun is_empty_array :: "yajl_val option \<Rightarrow> bool" where
  "is_empty_array v = (case YAJL_GET_ARRAY v of None \<Rightarrow> True | Some vs \<Rightarrow> vs = [])"


section \<open>Validators\<close>

text \<open>\<open>while (i < val_len && val_str[i++] == ' ');\<close> over the characters before \<open>val_len\<close>.\<close>

fun skip_spaces :: "bytes \<Rightarrow> nat \<Rightarrow> nat" where
  "skip_spaces [] i = i"
| "skip_spaces (c # cs) i = (if c = CHR '' '' then skip_spaces cs (Suc i) else Suc i)"

definition ValidateStrEmpty :: "yajl_val option \<Rightarrow> int result" where
  "ValidateStrEmpty val =
    bindR (get_str val) (\<lambda>val_str.
      let val_len = to_int (int (length val_str)) in
      if val_len = 0 then Inr QKPACK_ERROR
      else if val_len = 1 \<and> val_str ! 0 = CHR '' '' then Inr QKPACK_ERROR
      else
        let i = int (skip_spaces (take (nat val_len) val_str) 0) in
        if i \<noteq> 1 \<and> i = val_len then Inr QKPACK_ERROR else Inr QKPACK_OK)"

text \<open>A string that has to be present and not empty.\<close>

definition require_str :: "yajl_val option \<Rightarrow> bytes \<Rightarrow> bytes \<Rightarrow> bytes \<Rightarrow> (int \<times> bytes) result" where
  "require_str val not_exist not_empty desc =
    (if val = None then Inr (QKPACK_ERROR, not_exist)
     else bindR (ValidateStrEmpty val) (\<lambda>rc.
       if rc \<noteq> QKPACK_OK then Inr (QKPACK_ERROR, not_empty) else Inr (QKPACK_OK, desc)))"

text \<open>An array that has to be present and not empty.\<close>

definition require_array :: "yajl_val option \<Rightarrow> bytes \<Rightarrow> bytes \<Rightarrow> bytes \<Rightarrow> (int \<times> bytes) result" where
  "require_array val not_exist not_empty desc =
    (if val = None then Inr (QKPACK_ERROR, not_exist)
     else if is_empty_array val then Inr (QKPACK_ERROR, not_empty)
     else Inr (QKPACK_OK, desc))"

text \<open>\<open>rc = check(.., desc); if ( rc != QKPACK_OK ) return QKPACK_ERROR;\<close>\<close>

definition and_then :: "(int \<times> bytes) result \<Rightarrow> (bytes \<Rightarrow> (int \<times> bytes) result) \<Rightarrow> (int \<times> bytes) result" where
  "and_then m f = bindR m (\<lambda>(rc, desc). if rc \<noteq> QKPACK_OK then Inr (QKPACK_ERROR, desc) else f desc)"

definition ValidateACLInfo ::
  "yajl_val option \<Rightarrow> yajl_val option \<Rightarrow> yajl_val option \<Rightarrow> bytes \<Rightarrow> (int \<times> bytes) result" where
  "ValidateACLInfo node uri ak desc =
    (if node = None then Inr (QKPACK_ERROR, QKPACK_ERROR_ACL_NOT_NULL)
     else if uri = None \<and> ak = None then Inr (QKPACK_ERROR, QKPACK_ERROR_ACL_NOT_NULL)
     else if uri = None then Inr (QKPACK_ERROR, QKPACK_ERROR_ACL_URI_NOT_EXIST)
     else if ak = None then Inr (QKPACK_ERROR, QKPACK_ERROR_ACL_APPKEY_NOT_EXIST)
     else bindR (ValidateStrEmpty uri) (\<lambda>uri_status. bindR (ValidateStrEmpty ak) (\<lambda>ak_status.
       if uri_status \<noteq> QKPACK_OK \<and> ak_status \<noteq> QKPACK_OK then Inr (QKPACK_ERROR, QKPACK_ERROR_ACL_NOT_NULL)
       else if uri_status \<noteq> QKPACK_OK then Inr (QKPACK_ERROR, QKPACK_ERROR_ACL_URI_NOT_EMPTY)
       else if ak_status \<noteq> QKPACK_OK then Inr (QKPACK_ERROR, QKPACK_ERROR_ACL_APPKEY_NOT_EMPTY)
       else Inr (QKPACK_OK, desc))))"

definition ValidateKVPairByKey :: "yajl_val option \<Rightarrow> bytes \<Rightarrow> (int \<times> bytes) result" where
  "ValidateKVPairByKey key desc =
    require_str key QKPACK_ERROR_KVPAIR_KEY_NOT_EXIST QKPACK_ERROR_KVPAIR_KEY_NOT_EMPTY desc"

definition ValidateKVPair :: "yajl_val option \<Rightarrow> yajl_val option \<Rightarrow> bytes \<Rightarrow> (int \<times> bytes) result" where
  "ValidateKVPair key val desc =
    and_then (ValidateKVPairByKey key desc)
      (require_str val QKPACK_ERROR_KVPAIR_VALUE_NOT_EXIST QKPACK_ERROR_KVPAIR_VALUE_NOT_EMPTY)"

definition ValidateMultiKVPair :: "yajl_val option \<Rightarrow> bytes \<Rightarrow> (int \<times> bytes) result" where
  "ValidateMultiKVPair keys desc =
    require_array keys QKPACK_ERROR_KVPAIR_KEYS_NOT_EXIST QKPACK_ERROR_KVPAIR_KEYS_NOT_EMPTY desc"

definition ValidateSetByKey :: "yajl_val option \<Rightarrow> bytes \<Rightarrow> (int \<times> bytes) result" where
  "ValidateSetByKey key desc =
    require_str key QKPACK_ERROR_SET_KEY_NOT_EXIST QKPACK_ERROR_SET_KEY_NOT_EMPTY desc"

definition ValidateSet :: "yajl_val option \<Rightarrow> yajl_val option \<Rightarrow> bytes \<Rightarrow> (int \<times> bytes) result" where
  "ValidateSet key mbs desc =
    and_then (ValidateSetByKey key desc)
      (require_array mbs QKPACK_ERROR_SET_MEMBERS_NOT_EXIST QKPACK_ERROR_SET_MEMBERS_NOT_EMPTY)"

definition ValidateSetByKV :: "yajl_val option \<Rightarrow> yajl_val option \<Rightarrow> bytes \<Rightarrow> (int \<times> bytes) result" where
  "ValidateSetByKV key val desc =
    and_then (ValidateSetByKey key desc)
      (require_str val QKPACK_ERROR_SET_VALUE_NOT_EXIST QKPACK_ERROR_SET_VALUE_NOT_EMPTY)"

definition ValidateZSet :: "yajl_val option \<Rightarrow> yajl_val option \<Rightarrow> bytes \<Rightarrow> (int \<times> bytes) result" where
  "ValidateZSet key mbs desc =
    and_then (require_str key QKPACK_ERROR_ZSET_KEY_NOT_EXIST QKPACK_ERROR_ZSET_KEY_NOT_EMPTY desc)
      (require_array mbs QKPACK_ERROR_ZSET_MEMBERS_NOT_EXIST QKPACK_ERROR_ZSET_MEMBERS_NOT_EMPTY)"

definition ValidateZSetKeys :: "yajl_val option \<Rightarrow> bytes \<Rightarrow> (int \<times> bytes) result" where
  "ValidateZSetKeys keys desc =
    require_array keys QKPACK_ERROR_ZSET_KEYS_NOT_EXIST QKPACK_ERROR_ZSET_KEYS_NOT_EMPTY desc"

definition ValidateZSetMembers ::
  "yajl_val option \<Rightarrow> yajl_val option \<Rightarrow> yajl_val option \<Rightarrow> bytes \<Rightarrow> (int \<times> bytes) result" where
  "ValidateZSetMembers member val score desc =
    and_then (require_str member QKPACK_ERROR_ZSET_MEMBERS_MEMBER_NOT_EXIST QKPACK_ERROR_ZSET_MEMBERS_MEMBER_NOT_EMPTY desc)
      (\<lambda>desc. and_then (require_str val QKPACK_ERROR_ZSET_MEMBERS_VALUE_NOT_EXIST QKPACK_ERROR_ZSET_MEMBERS_VALUE_NOT_EMPTY desc)
        (\<lambda>desc. if score = None then Inr (QKPACK_ERROR, QKPACK_ERROR_ZSET_MEMBERS_SCORE_NOT_EXIST)
                else Inr (QKPACK_OK, desc)))"

definition ValidateZSetQuery ::
  "yajl_val option \<Rightarrow> yajl_val option \<Rightarrow> yajl_val option \<Rightarrow> bytes \<Rightarrow> (int \<times> bytes) result" where
  "ValidateZSetQuery key mn mx desc =
    and_then (require_str key QKPACK_ERROR_ZSET_QUERY_KEY_NOT_EXIST QKPACK_ERROR_ZSET_QUERY_KEY_NOT_EMPTY desc)
      (\<lambda>desc. if mn = None then Inr (QKPACK_ERROR, QKPACK_ERROR_ZSET_QUERY_MIN_NOT_EXIST)
              else if mx = None then Inr (QKPACK_ERROR, QKPACK_ERROR_ZSET_QUERY_MAX_NOT_EXIST)
              else Inr (QKPACK_OK, desc))"


text \<open>The strings the checks let through.\<close>

definition accepted :: "bytes \<Rightarrow> bool" where
  "accepted s \<longleftrightarrow> s \<noteq> [] \<and> (\<exists>c\<in>set (if length s = 1 then s else butlast s). c \<noteq> CHR '' '')"

text \<open>What a reader may rely on: a lookup answers \<open>NULL\<close> or a value of the wanted type.\<close>

definition typed_get :: "yajl \<Rightarrow> bool" where
  "typed_get yj \<longleftrightarrow> (\<forall>n k ty v. yj_tree_get yj n k ty = Some v \<longrightarrow> type_of_val v = ty)"

text \<open>The operation ends without a fault.\<close>

definition returns :: "'a result \<Rightarrow> bool" where
  "returns m \<longleftrightarrow> (\<exists>a. m = Inr a)"

definition str_or_null :: "yajl_val option \<Rightarrow> bool" where
  "str_or_null v \<longleftrightarrow> (\<forall>x. v = Some x \<longrightarrow> type_of_val x = Y_string)"


section \<open>Lemmas\<close>

lemma returns_simps [simp]: "returns (Inr a)" "\<not> returns (Inl e)"
  by (simp_all add: returns_def)

lemma returns_bindR: "returns m \<Longrightarrow> (\<And>a. m = Inr a \<Longrightarrow> returns (f a)) \<Longrightarrow> returns (bindR m f)"
  by (auto simp: returns_def)

lemma type_string: "type_of_val v = Y_string \<longleftrightarrow> (\<exists>s. v = YString s)"
  by (cases v) auto

lemma type_array: "type_of_val v = Y_array \<longleftrightarrow> (\<exists>vs. v = YArray vs)"
  by (cases v) auto

lemma type_number: "type_of_val v = Y_number \<longleftrightarrow> (\<exists>i d. v = YNumber i d)"
  by (cases v) auto

lemma typed_tree_get: "yj_tree_get yj = tree_get \<Longrightarrow> typed_get yj"
  by (auto simp: typed_get_def tree_get_def split: option.splits yajl_val.splits if_splits)

lemma str_or_null_get [simp]: "typed_get yj \<Longrightarrow> str_or_null (yj_tree_get yj n k Y_string)"
  by (simp add: typed_get_def str_or_null_def)

lemma str_or_null_cases: "str_or_null v \<Longrightarrow> v = None \<or> (\<exists>s. v = Some (YString s))"
  by (cases v) (auto simp: str_or_null_def type_string)

lemma str_or_null_simps [simp]: "str_or_null None" "str_or_null (Some (YString s))"
  by (simp_all add: str_or_null_def)

lemma get_str_simps [simp]: "get_str (Some (YString s)) = Inr (c_str s)" "get_str None = Inl Null_deref"
  by (simp_all add: get_str_def)

lemma skip_spaces_end: "skip_spaces s i = i + length s \<longleftrightarrow> (\<forall>c\<in>set (butlast s). c = CHR '' '')"
proof (induction s i rule: skip_spaces.induct)
  case (2 c cs i)
  then show ?case by (cases "cs = []") auto
qed simp

lemma int_elems_short [simp]: "length vs < 2 ^ 31 \<Longrightarrow> int_elems vs = vs"
  by (simp add: int_elems_def)

lemma set_int_elems: "set (int_elems vs) \<subseteq> set vs"
  by (simp add: int_elems_def set_take_subset)

lemma ValidateStrEmpty_string:
  assumes "length (c_str s) < 2 ^ 31"
  shows "ValidateStrEmpty (Some (YString s)) = Inr (if accepted (c_str s) then QKPACK_OK else QKPACK_ERROR)"
proof -
  let ?s = "c_str s"
  have len: "to_int (int (length ?s)) = int (length ?s)" using assms by simp
  have skip: "skip_spaces ?s 0 = length ?s \<longleftrightarrow> (\<forall>c\<in>set (butlast ?s). c = CHR '' '')"
    using skip_spaces_end [of ?s 0] by simp
  consider "?s = []" | c where "?s = [c]" | "2 \<le> length ?s"
    by (cases ?s; cases "tl ?s") auto
  then show ?thesis
  proof cases
    case 1
    then show ?thesis by (simp add: ValidateStrEmpty_def accepted_def)
  next
    case 2
    then show ?thesis by (simp add: ValidateStrEmpty_def accepted_def)
  next
    case 3
    then have "accepted ?s \<longleftrightarrow> skip_spaces ?s 0 \<noteq> length ?s"
      unfolding skip accepted_def by auto
    moreover have "int (skip_spaces ?s 0) = int (length ?s) \<Longrightarrow> int (skip_spaces ?s 0) \<noteq> 1"
      using 3 by simp
    ultimately show ?thesis
      unfolding ValidateStrEmpty_def Let_def get_str_simps bindR.simps len using 3 by (simp add: nat_int)
  qed
qed

lemma ValidateStrEmpty_total: "str_or_null v \<Longrightarrow> v \<noteq> None \<Longrightarrow> returns (ValidateStrEmpty v)"
  by (auto dest!: str_or_null_cases simp: ValidateStrEmpty_def Let_def)

lemma ValidateStrEmpty_other: "\<not> str_or_null v \<Longrightarrow> ValidateStrEmpty v = Inl Null_deref"
proof -
  assume "\<not> str_or_null v"
  then obtain x where "v = Some x" "type_of_val x \<noteq> Y_string" by (auto simp: str_or_null_def)
  then show ?thesis by (cases x) (simp_all add: ValidateStrEmpty_def get_str_def)
qed

lemma require_str_total: "str_or_null v \<Longrightarrow> returns (require_str v a b desc)"
  by (simp add: require_str_def ValidateStrEmpty_total returns_bindR)

lemma require_str_OK:
  "require_str v a b desc = Inr (QKPACK_OK, desc') \<Longrightarrow> desc' = desc \<and> (\<exists>s. v = Some (YString s))"
  by (cases "str_or_null v") (auto simp: require_str_def ValidateStrEmpty_other codes bindR_Inr_iff
      split: if_splits dest!: str_or_null_cases)

lemma require_str_accepted:
  assumes "length (c_str s) < 2 ^ 31"
  shows "require_str (Some (YString s)) a b desc = Inr (if accepted (c_str s) then (QKPACK_OK, desc) else (QKPACK_ERROR, b))"
  by (simp add: require_str_def ValidateStrEmpty_string [OF assms] codes)

lemma require_array_total: "returns (require_array v a b desc)"
  by (simp add: require_array_def)

lemma require_array_OK:
  "require_array v a b desc = Inr (QKPACK_OK, desc') \<Longrightarrow> desc' = desc \<and> (\<exists>vs. v = Some (YArray vs) \<and> vs \<noteq> [])"
  by (cases v rule: YAJL_GET_ARRAY.cases) (auto simp: require_array_def codes split: if_splits)

lemma require_array_Some [simp]: "vs \<noteq> [] \<Longrightarrow> require_array (Some (YArray vs)) a b desc = Inr (QKPACK_OK, desc)"
  by (simp add: require_array_def)

lemma and_then_total: "returns m \<Longrightarrow> (\<And>desc. returns (f desc)) \<Longrightarrow> returns (and_then m f)"
  by (simp add: and_then_def returns_bindR split_def)

lemma and_then_OK:
  "and_then m f = Inr (QKPACK_OK, desc) \<Longrightarrow> \<exists>d. m = Inr (QKPACK_OK, d) \<and> f d = Inr (QKPACK_OK, desc)"
  by (auto simp: and_then_def bindR_Inr_iff codes split: if_splits)

lemma and_then_step [simp]: "and_then (Inr (QKPACK_OK, d)) f = f d"
  by (simp add: and_then_def)

lemma ValidateACLInfo_total: "str_or_null uri \<Longrightarrow> str_or_null ak \<Longrightarrow> returns (ValidateACLInfo node uri ak desc)"
  by (auto simp: ValidateACLInfo_def intro!: returns_bindR ValidateStrEmpty_total)

lemma ValidateACLInfo_OK:
  "str_or_null uri \<Longrightarrow> str_or_null ak \<Longrightarrow> ValidateACLInfo node uri ak desc = Inr (QKPACK_OK, desc') \<Longrightarrow>
   desc' = desc \<and> (\<exists>u a. uri = Some (YString u) \<and> ak = Some (YString a))"
  by (auto simp: ValidateACLInfo_def codes bindR_Inr_iff split: if_splits dest!: str_or_null_cases)

lemma ValidateACLInfo_accepted:
  assumes "length (c_str u) < 2 ^ 31" "length (c_str a) < 2 ^ 31" "accepted (c_str u)" "accepted (c_str a)"
  shows "ValidateACLInfo (Some n) (Some (YString u)) (Some (YString a)) desc = Inr (QKPACK_OK, desc)"
  using assms by (simp add: ValidateACLInfo_def ValidateStrEmpty_string)

lemmas validators = ValidateKVPairByKey_def ValidateKVPair_def ValidateMultiKVPair_def ValidateSetByKey_def
  ValidateSet_def ValidateSetByKV_def ValidateZSet_def ValidateZSetKeys_def ValidateZSetMembers_def
  ValidateZSetQuery_def

lemmas validator_total = and_then_total require_str_total require_array_total


section \<open>Properties\<close>

text \<open>A string of spaces followed by one other character is refused as empty, although it is not blank:
  the loop that skips the spaces has already moved past the last character when its position is compared
  with the length.\<close>

theorem ValidateStrEmpty_last_char:
  assumes "0 < n" "n < 2 ^ 31 - 1" "c \<noteq> NUL"
  shows "ValidateStrEmpty (Some (YString (replicate n (CHR '' '') @ [c]))) = Inr QKPACK_ERROR"
proof -
  have c: "c_str (replicate n (CHR '' '') @ [c]) = replicate n (CHR '' '') @ [c]"
    using assms(3) by (simp add: c_str_def takeWhile_append NUL_def)
  have "\<not> accepted (replicate n (CHR '' '') @ [c])"
    using assms(1) by (auto simp: accepted_def)
  then show ?thesis
    using ValidateStrEmpty_string [of "replicate n (CHR '' '') @ [c]"] assms(2) by (simp add: c)
qed

theorem ValidateStrEmpty_last_char_witness: "ValidateStrEmpty (Some (YString '' a'')) = Inr QKPACK_ERROR"
  using ValidateStrEmpty_last_char [of 1 "CHR ''a''"] by (simp add: NUL_def)

end
