(* ===== verification/YajlRead.thy ===== *)
theory YajlRead
  imports YajlValidate StringUtil RedisSlot
begin

text \<open>
  The readers of \<open>parser/qkpack_yajl_json.cc\<close> and \<open>parser/qkpack_yajl_json_impl.cc\<close>: the configuration
  file, the response of the authority service and the bodies of the interface requests.  A reader
  returns its status and the request it leaves, also on the error paths, where elements read before the
  error stay in the request.  Memory of the parse tree matters in one place: \<open>ReadACLQuotation\<close>
  releases the node it read, which may be part of the tree its caller releases, so it returns whether
  it released a part of that tree and the caller's release of the whole is then a double free.  The
  conversions of an array length to \<open>int\<close> are kept (\<open>int_elems\<close>).
\<close>


section \<open>Shared steps\<close>

text \<open>\<open>rc = validate(.., request->desc); if ( rc != QKPACK_OK ) return QKPACK_ERROR;\<close>\<close>

definition checked ::
  "(int \<times> bytes) result \<Rightarrow> qkpack_request_t \<Rightarrow> (qkpack_request_t \<Rightarrow> (int \<times> qkpack_request_t) result) \<Rightarrow>
   (int \<times> qkpack_request_t) result" where
  "checked m request k =
    bindR m (\<lambda>(rc, desc).
      if rc \<noteq> QKPACK_OK then Inr (QKPACK_ERROR, request\<lparr>rq_desc := desc\<rparr>) else k (request\<lparr>rq_desc := desc\<rparr>))"

text \<open>A loop that returned early returns from the reader.\<close>

definition proceed ::
  "(int \<times> qkpack_request_t) result \<Rightarrow> (qkpack_request_t \<Rightarrow> (int \<times> qkpack_request_t) result) \<Rightarrow>
   (int \<times> qkpack_request_t) result" where
  "proceed m k = bindR m (\<lambda>(rc, request). if rc \<noteq> QKPACK_OK then Inr (rc, request) else k request)"

definition parse_body ::
  "yajl \<Rightarrow> qkpack_request_t \<Rightarrow> (yajl_val \<Rightarrow> (int \<times> qkpack_request_t) result) \<Rightarrow> (int \<times> qkpack_request_t) result" where
  "parse_body yj request k =
    (case yj_tree_parse yj (c_str (rq_request_buffer request)) of
       None \<Rightarrow> Inr (QKPACK_ERROR, request\<lparr>rq_desc := QKPACK_ERROR_JSON_FORMAT\<rparr>)
     | Some node \<Rightarrow> k node)"

definition set_uri_ak ::
  "yajl_val option \<Rightarrow> yajl_val option \<Rightarrow> qkpack_request_t \<Rightarrow> (qkpack_request_t \<Rightarrow> 'a result) \<Rightarrow> 'a result" where
  "set_uri_ak uri ak request k =
    bindR (get_str uri) (\<lambda>u. bindR (get_str ak) (\<lambda>a. k (request\<lparr>rq_uri := u, rq_ak := a\<rparr>)))"

text \<open>\<open>find_last_of\<close> a character, converted to \<open>int\<close>; \<open>npos\<close> becomes -1.\<close>

definition find_last_of :: "char \<Rightarrow> bytes \<Rightarrow> int" where
  "find_last_of c s =
    (if c \<in> set s then to_int (int (length s) - 1 - int (scan (\<lambda>x. x = c) (rev s))) else - 1)"

text \<open>The namespace part of the uri; the flag says whether the reader goes on.\<close>

definition read_namespace :: "qkpack_request_t \<Rightarrow> bool \<times> qkpack_request_t" where
  "read_namespace request =
    (let index = find_last_of (CHR ''/'') (rq_uri request) in
     if index \<le> 0 then (False, request)
     else
       let request = upd_kv (\<lambda>k. k\<lparr>kv_namespaces := drop (nat (index + 1)) (rq_uri request)\<rparr>) request in
       (length (kv_namespaces (rq_kvpair request)) = QKPACK_ACL_NAMESPACE_LENGTH, request))"

text \<open>\<open>map_slots_kv[slot_id].push_back(&vector_kv[i])\<close> for the elements of a vector.\<close>

definition index_slots ::
  "bytes \<Rightarrow> (nat \<Rightarrow> kvref) \<Rightarrow> kvpair_t list \<Rightarrow> (int, kvref list) smap \<Rightarrow> (int, kvref list) smap" where
  "index_slots namespaces ref kvs m =
    fold (\<lambda>(i, kv). smap_push (int (key_hash_slot (namespaces @ kv_key kv))) (ref i)) (enumerate 0 kvs) m"

definition index_vector_kv :: "qkpack_request_t \<Rightarrow> qkpack_request_t" where
  "index_vector_kv request =
    request\<lparr>rq_map_slots_kv := index_slots (kv_namespaces (rq_kvpair request)) InVec (rq_vector_kv request)
      (rq_map_slots_kv request)\<rparr>"


section \<open>Configuration\<close>

definition ReadJsonConf :: "yajl \<Rightarrow> qkpack_conf_t \<Rightarrow> (int \<times> qkpack_conf_t) result" where
  "ReadJsonConf yj conf =
    (case yj_tree_parse yj (c_str (conf_str conf)) of
       None \<Rightarrow> Inr (QKPACK_ERROR, conf)
     | Some node \<Rightarrow>
         let acl_url = yj_tree_get yj (Some node) QKPACK_CONF_ACL_URL Y_string;
             timeout = yj_tree_get yj (Some node) QKPACK_CONF_TIMEOUT Y_number;
             add_zset_script = yj_tree_get yj (Some node) QKPACK_CONF_ADD_ZSET_SCRIPT Y_string;
             add_multikv_script = yj_tree_get yj (Some node) QKPACK_CONF_ADD_MULTIKV_SCRIPT Y_string;
             incrby_script = yj_tree_get yj (Some node) QKPACK_CONF_INCRBY_SCRIPT Y_string;
             add_rset_script = yj_tree_get yj (Some node) QKPACK_CONF_ADD_RSET_SCRIPT Y_string in
         if acl_url = None \<or> timeout = None \<or> add_zset_script = None \<or> add_multikv_script = None \<or>
            incrby_script = None \<or> add_rset_script = None
         then Inr (QKPACK_ERROR, conf)
         else
           bindR (get_str acl_url) (\<lambda>a. bindR (YAJL_GET_INTEGER timeout) (\<lambda>t.
           bindR (get_str add_zset_script) (\<lambda>z. bindR (get_str add_multikv_script) (\<lambda>m.
           bindR (get_str incrby_script) (\<lambda>i. bindR (get_str add_rset_script) (\<lambda>s.
           Inr (QKPACK_OK, conf\<lparr>conf_acl_url := a, conf_timeout := to_int t, conf_add_zset_script := z,
             conf_add_multikv_script := m, conf_incrby_script := i, conf_add_rset_script := s\<rparr>))))))))"


section \<open>The response of the authority service\<close>

abbreviation upd_quo :: "(quotation_t \<Rightarrow> quotation_t) \<Rightarrow> qkpack_acl_t \<Rightarrow> qkpack_acl_t" where
  "upd_quo f acl \<equiv> acl\<lparr>acl_quotation := f (acl_quotation acl)\<rparr>"

abbreviation upd_route :: "(route_t \<Rightarrow> route_t) \<Rightarrow> qkpack_acl_t \<Rightarrow> qkpack_acl_t" where
  "upd_route f acl \<equiv> acl\<lparr>acl_route := f (acl_route acl)\<rparr>"

fun read_policies :: "yajl \<Rightarrow> yajl_val list \<Rightarrow> qkpack_acl_t \<Rightarrow> (int \<times> qkpack_acl_t) result" where
  "read_policies yj [] acl = Inr (QKPACK_OK, acl)"
| "read_policies yj (val # vals) acl =
    (let mn = yj_tree_get yj (Some val) QKPACK_ACL_QUOTATION_LIMITPOLICIES_MIN Y_number;
         mx = yj_tree_get yj (Some val) QKPACK_ACL_QUOTATION_LIMITPOLICIES_MAX Y_number;
         limit = yj_tree_get yj (Some val) QKPACK_ACL_QUOTATION_LIMITPOLICIES_LIMIT Y_number in
     if mn = None \<or> mx = None \<or> limit = None then Inr (QKPACK_ERROR, acl)
     else bindR (YAJL_GET_INTEGER mn) (\<lambda>a. bindR (YAJL_GET_INTEGER mx) (\<lambda>b. bindR (YAJL_GET_INTEGER limit) (\<lambda>c.
       read_policies yj vals (upd_quo (\<lambda>q. q\<lparr>quo_vector_policies := quo_vector_policies q @
         [\<lparr>lp_min = to_int a, lp_max = to_int b, lp_limit = to_int c\<rparr>]\<rparr>) acl)))))"

fun read_timeouts :: "yajl \<Rightarrow> yajl_val list \<Rightarrow> qkpack_acl_t \<Rightarrow> (int \<times> qkpack_acl_t) result" where
  "read_timeouts yj [] acl = Inr (QKPACK_OK, acl)"
| "read_timeouts yj (val # vals) acl =
    (let interface_name = yj_tree_get yj (Some val) QKPACK_ACL_QUOTATION_TIMEOUTS_INTERFACENAME Y_string;
         timeout = yj_tree_get yj (Some val) QKPACK_ACL_QUOTATION_TIMEOUTS_TIMEOUT Y_number;
         tries = yj_tree_get yj (Some val) QKPACK_ACL_QUOTATION_TIMEOUTS_TRIES Y_number in
     if interface_name = None \<or> timeout = None \<or> tries = None then Inr (QKPACK_ERROR, acl)
     else bindR (get_str interface_name) (\<lambda>n. bindR (YAJL_GET_INTEGER timeout) (\<lambda>a. bindR (YAJL_GET_INTEGER tries) (\<lambda>b.
       read_timeouts yj vals (upd_quo (\<lambda>q. q\<lparr>quo_vector_timeouts := quo_vector_timeouts q @
         [\<lparr>to_interface_name = n, to_timeout = to_int a, to_tries = to_int b\<rparr>]\<rparr>) acl)))))"

fun read_limits :: "yajl \<Rightarrow> yajl_val list \<Rightarrow> qkpack_acl_t \<Rightarrow> (int \<times> qkpack_acl_t) result" where
  "read_limits yj [] acl = Inr (QKPACK_OK, acl)"
| "read_limits yj (val # vals) acl =
    (let interface_name = yj_tree_get yj (Some val) QKPACK_ACL_QUOTATION_LIMITSLENGTH_INTERFACENAME Y_string;
         keylen = yj_tree_get yj (Some val) QKPACK_ACL_QUOTATION_LIMITSLENGTH_KEYLEN Y_number;
         vallen = yj_tree_get yj (Some val) QKPACK_ACL_QUOTATION_LIMITSLENGTH_VALLEN Y_number;
         datalen = yj_tree_get yj (Some val) QKPACK_ACL_QUOTATION_LIMITSLENGTH_DATALEN Y_number in
     if interface_name = None \<or> keylen = None \<or> vallen = None \<or> datalen = None then Inr (QKPACK_ERROR, acl)
     else bindR (get_str interface_name) (\<lambda>n. bindR (YAJL_GET_INTEGER keylen) (\<lambda>a.
       bindR (YAJL_GET_INTEGER vallen) (\<lambda>b. bindR (YAJL_GET_INTEGER datalen) (\<lambda>c.
       read_limits yj vals (upd_quo (\<lambda>q. q\<lparr>quo_vector_limits_length := quo_vector_limits_length q @
         [\<lparr>ll_interface_name = n, ll_keylen = to_int a, ll_vallen = to_int b, ll_datalen = to_int c\<rparr>]\<rparr>) acl))))))"

text \<open>An optional array of the quotation, read by a loop.\<close>

definition read_section ::
  "(yajl_val list \<Rightarrow> qkpack_acl_t \<Rightarrow> (int \<times> qkpack_acl_t) result) \<Rightarrow> yajl_val option \<Rightarrow> qkpack_acl_t \<Rightarrow>
   (int \<times> qkpack_acl_t) result" where
  "read_section loop arr acl =
    (case YAJL_GET_ARRAY arr of None \<Rightarrow> Inr (QKPACK_OK, acl) | Some vals \<Rightarrow> loop (int_elems vals) acl)"

definition quotation_node :: "yajl \<Rightarrow> yajl_val option \<Rightarrow> yajl_val option" where
  "quotation_node yj quotation =
    (case quotation of
       Some (YObject kvs) \<Rightarrow> quotation
     | Some (YString s) \<Rightarrow> yj_tree_parse yj (c_str s)
     | _ \<Rightarrow> None)"

definition ReadACLQuotation ::
  "yajl \<Rightarrow> yajl_val option \<Rightarrow> qkpack_acl_t \<Rightarrow> (int \<times> bool \<times> qkpack_acl_t) result" where
  "ReadACLQuotation yj quotation acl =
    (case quotation_node yj quotation of
       None \<Rightarrow> Inr (QKPACK_ERROR, False, acl)
     | Some node \<Rightarrow>
         let freed = (case quotation of Some (YObject _) \<Rightarrow> True | _ \<Rightarrow> False);
             expire = yj_tree_get yj (Some node) QKPACK_ACL_QUOTATION_EXPIRE Y_number;
             compress_threshold = yj_tree_get yj (Some node) QKPACK_ACL_QUOTATION_COMMPRESSTHRESHOLD Y_number;
             get = (\<lambda>key. yj_tree_get yj (Some node) key Y_array);
             step = (\<lambda>m k. bindR m (\<lambda>(rc, acl). if rc \<noteq> QKPACK_OK then Inr (QKPACK_ERROR, freed, acl) else k acl)) in
         if expire = None \<or> compress_threshold = None then Inr (QKPACK_ERROR, freed, acl)
         else bindR (YAJL_GET_INTEGER expire) (\<lambda>e. bindR (YAJL_GET_INTEGER compress_threshold) (\<lambda>t.
           step (read_section (read_policies yj) (get QKPACK_ACL_QUOTATION_LIMITPOLICIES)
               (upd_quo (\<lambda>q. q\<lparr>quo_expire := to_int e, quo_compress_threshold := to_int t\<rparr>) acl)) (\<lambda>acl.
           step (read_section (read_timeouts yj) (get QKPACK_ACL_QUOTATION_TIMEOUTS) acl) (\<lambda>acl.
           step (read_section (read_limits yj) (get QKPACK_ACL_QUOTATION_LIMITSLENGTH) acl) (\<lambda>acl.
           Inr (QKPACK_OK, False, acl)))))))"

fun read_route_map ::
  "(bytes \<times> yajl_val) list \<Rightarrow> (bytes, bytes) smap \<Rightarrow> (bytes, bytes) smap result" where
  "read_route_map [] m = Inr m"
| "read_route_map ((key, val) # kvs) m =
    bindR (get_str (Some val)) (\<lambda>s. read_route_map kvs (smap_put (c_str key) s m))"

definition read_route_object ::
  "yajl_val option \<Rightarrow> (bytes, bytes) smap \<Rightarrow> (bytes, bytes) smap option result" where
  "read_route_object obj m =
    (case obj of
       Some (YObject kvs) \<Rightarrow> bindR (read_route_map (int_elems kvs) m) (\<lambda>m. Inr (Some m))
     | _ \<Rightarrow> Inr None)"

definition ReadACLResponse :: "yajl \<Rightarrow> bytes \<Rightarrow> qkpack_acl_t \<Rightarrow> (int \<times> qkpack_acl_t) result" where
  "ReadACLResponse yj response_buffer acl =
    (case yj_tree_parse yj (c_str response_buffer) of
       None \<Rightarrow> Inr (QKPACK_ERROR, acl)
     | Some node \<Rightarrow>
         let uri_id = yj_tree_get yj (Some node) QKPACK_ACL_URI_ID Y_number;
             operation = yj_tree_get yj (Some node) QKPACK_ACL_OPERATION Y_number;
             quotation = yj_tree_get yj (Some node) QKPACK_ACL_QUOTATION Y_string in
         if uri_id = None \<or> operation = None then Inr (QKPACK_ERROR, acl)
         else bindR (YAJL_GET_INTEGER uri_id) (\<lambda>u. bindR (YAJL_GET_INTEGER operation) (\<lambda>p.
           let acl = acl\<lparr>acl_uri_id := ToString u, acl_operation := to_int p\<rparr>;
               quotation = (if quotation = None then yj_tree_get yj (Some node) QKPACK_ACL_QUOTATION Y_object else quotation) in
           bindR (ReadACLQuotation yj quotation acl) (\<lambda>(rc, freed, acl).
             if rc \<noteq> QKPACK_OK then if freed then Inl Double_free else Inr (QKPACK_ERROR, acl)
             else
               let routeObject = yj_tree_get yj (Some node) QKPACK_ACL_ROUTE Y_object;
                   defaults = yj_tree_get yj routeObject QKPACK_ACL_ROUTE_DEFAULT Y_string in
               bindR (get_str defaults) (\<lambda>d.
                 let acl = upd_route (\<lambda>r. r\<lparr>route_defaults := d\<rparr>) acl in
                 bindR (read_route_object (yj_tree_get yj routeObject QKPACK_ACL_ROUTE_CLIENT Y_object)
                     (route_map_client (acl_route acl))) (\<lambda>client.
                   case client of None \<Rightarrow> Inr (QKPACK_ERROR, acl)
                   | Some m \<Rightarrow>
                       let acl = upd_route (\<lambda>r. r\<lparr>route_map_client := m\<rparr>) acl in
                       bindR (read_route_object (yj_tree_get yj routeObject QKPACK_ACL_ROUTE_SERVER Y_object)
                           (route_map_server (acl_route acl))) (\<lambda>server.
                         case server of None \<Rightarrow> Inr (QKPACK_ERROR, acl)
                         | Some m \<Rightarrow> Inr (QKPACK_OK, upd_route (\<lambda>r. r\<lparr>route_map_server := m\<rparr>) acl))))))))"


section \<open>Request bodies of the key-value and set interfaces\<close>

definition ReadJsonGet :: "yajl \<Rightarrow> qkpack_request_t \<Rightarrow> (int \<times> qkpack_request_t) result" where
  "ReadJsonGet yj request =
    parse_body yj request (\<lambda>node.
      let uri = yj_tree_get yj (Some node) QKPACK_JSON_URI Y_string;
          ak = yj_tree_get yj (Some node) QKPACK_JSON_AK Y_string;
          key = yj_tree_get yj (Some node) QKPACK_JSON_KEY Y_string in
      checked (ValidateACLInfo (Some node) uri ak (rq_desc request)) request (\<lambda>request.
      checked (if kv_command_type (rq_kvpair request) = REDIS_SCARD \<or> kv_command_type (rq_kvpair request) = REDIS_SMEMBERS
               then ValidateSetByKey key (rq_desc request) else ValidateKVPairByKey key (rq_desc request)) request (\<lambda>request.
      set_uri_ak uri ak request (\<lambda>request. bindR (get_str key) (\<lambda>k.
      Inr (QKPACK_OK, upd_kv (\<lambda>kv. kv\<lparr>kv_key := k\<rparr>) request))))))"

definition ReadJsonSet :: "yajl \<Rightarrow> qkpack_request_t \<Rightarrow> (int \<times> qkpack_request_t) result" where
  "ReadJsonSet yj request =
    parse_body yj request (\<lambda>node.
      let uri = yj_tree_get yj (Some node) QKPACK_JSON_URI Y_string;
          ak = yj_tree_get yj (Some node) QKPACK_JSON_AK Y_string;
          key = yj_tree_get yj (Some node) QKPACK_JSON_KEY Y_string;
          val = yj_tree_get yj (Some node) QKPACK_JSON_VALUE Y_string in
      checked (ValidateACLInfo (Some node) uri ak (rq_desc request)) request (\<lambda>request.
      checked (if kv_command_type (rq_kvpair request) = REDIS_SISMEMBER
               then ValidateSetByKV key val (rq_desc request) else ValidateKVPair key val (rq_desc request)) request (\<lambda>request.
      bindR (get_str val) (\<lambda>v.
      if kv_command_type (rq_kvpair request) = REDIS_INCRBY \<and> atoi v = 0
      then Inr (QKPACK_ERROR, request\<lparr>rq_desc := QKPACK_ERROR_KVPAIR_NUMERIC_VALUE\<rparr>)
      else set_uri_ak uri ak request (\<lambda>request. bindR (get_str key) (\<lambda>k.
      Inr (QKPACK_OK, upd_kv (\<lambda>kv. kv\<lparr>kv_key := k, kv_value := v\<rparr>) request)))))))"

fun read_members :: "yajl_val list \<Rightarrow> qkpack_request_t \<Rightarrow> (int \<times> qkpack_request_t) result" where
  "read_members [] request = Inr (QKPACK_OK, request)"
| "read_members (val # vals) request =
    bindR (ValidateStrEmpty (Some val)) (\<lambda>rc.
      if rc \<noteq> QKPACK_OK then Inr (QKPACK_ERROR, request\<lparr>rq_desc := QKPACK_ERROR_SET_MEMBERS_VALUE_NOT_EMPTY\<rparr>)
      else bindR (get_str (Some val)) (\<lambda>m.
        read_members vals (request\<lparr>rq_vector_mbs := rq_vector_mbs request @ [\<lparr>zm_member = m, zm_value = [], zm_score = 0\<rparr>]\<rparr>)))"

definition ReadJsonSadd :: "yajl \<Rightarrow> qkpack_request_t \<Rightarrow> (int \<times> qkpack_request_t) result" where
  "ReadJsonSadd yj request =
    parse_body yj request (\<lambda>node.
      let uri = yj_tree_get yj (Some node) QKPACK_JSON_URI Y_string;
          ak = yj_tree_get yj (Some node) QKPACK_JSON_AK Y_string;
          key = yj_tree_get yj (Some node) QKPACK_JSON_KEY Y_string;
          mbs = yj_tree_get yj (Some node) QKPACK_JSON_MBS Y_array in
      checked (ValidateACLInfo (Some node) uri ak (rq_desc request)) request (\<lambda>request.
      checked (ValidateSet key mbs (rq_desc request)) request (\<lambda>request.
      set_uri_ak uri ak request (\<lambda>request. bindR (get_str key) (\<lambda>k.
      case YAJL_GET_ARRAY mbs of None \<Rightarrow> Inl Null_deref
      | Some vals \<Rightarrow> read_members (int_elems vals) (upd_kv (\<lambda>kv. kv\<lparr>kv_key := k\<rparr>) request))))))"

fun read_keys :: "yajl \<Rightarrow> yajl_val list \<Rightarrow> qkpack_request_t \<Rightarrow> (int \<times> qkpack_request_t) result" where
  "read_keys yj [] request = Inr (QKPACK_OK, request)"
| "read_keys yj (val # vals) request =
    (let key = yj_tree_get yj (Some val) QKPACK_JSON_KEY Y_string in
     checked (ValidateKVPairByKey key (rq_desc request)) request (\<lambda>request.
     bindR (get_str key) (\<lambda>k.
     read_keys yj vals (request\<lparr>rq_vector_kv := rq_vector_kv request @ [new_kvpair\<lparr>kv_key := k\<rparr>]\<rparr>))))"

fun read_pairs :: "yajl \<Rightarrow> yajl_val list \<Rightarrow> qkpack_request_t \<Rightarrow> (int \<times> qkpack_request_t) result" where
  "read_pairs yj [] request = Inr (QKPACK_OK, request)"
| "read_pairs yj (val # vals) request =
    (let key = yj_tree_get yj (Some val) QKPACK_JSON_KEY Y_string;
         v = yj_tree_get yj (Some val) QKPACK_JSON_VALUE Y_string in
     checked (ValidateKVPair key v (rq_desc request)) request (\<lambda>request.
     bindR (get_str key) (\<lambda>k. bindR (get_str v) (\<lambda>x.
     read_pairs yj vals (request\<lparr>rq_vector_kv := rq_vector_kv request @ [new_kvpair\<lparr>kv_key := k, kv_value := x\<rparr>]\<rparr>)))))"

text \<open>\<open>ReadJsonMget\<close> and \<open>ReadJsonMset\<close> differ in the loop over the elements of \<open>ks\<close> only.\<close>

definition read_multi ::
  "(yajl_val list \<Rightarrow> qkpack_request_t \<Rightarrow> (int \<times> qkpack_request_t) result) \<Rightarrow> yajl \<Rightarrow> qkpack_request_t \<Rightarrow>
   (int \<times> qkpack_request_t) result" where
  "read_multi loop yj request =
    parse_body yj request (\<lambda>node.
      let uri = yj_tree_get yj (Some node) QKPACK_JSON_URI Y_string;
          ak = yj_tree_get yj (Some node) QKPACK_JSON_AK Y_string;
          keysArray = yj_tree_get yj (Some node) QKPACK_JSON_KEYS Y_array in
      checked (ValidateACLInfo (Some node) uri ak (rq_desc request)) request (\<lambda>request.
      checked (ValidateMultiKVPair keysArray (rq_desc request)) request (\<lambda>request.
      set_uri_ak uri ak request (\<lambda>request.
      case YAJL_GET_ARRAY keysArray of None \<Rightarrow> Inl Null_deref
      | Some vals \<Rightarrow>
          proceed (loop (int_elems vals) request) (\<lambda>request.
          case read_namespace request of
            (False, request) \<Rightarrow> Inr (QKPACK_OK, request)
          | (True, request) \<Rightarrow> Inr (QKPACK_OK, index_vector_kv request))))))"

definition ReadJsonMget :: "yajl \<Rightarrow> qkpack_request_t \<Rightarrow> (int \<times> qkpack_request_t) result" where
  "ReadJsonMget yj = read_multi (read_keys yj) yj"

definition ReadJsonMset :: "yajl \<Rightarrow> qkpack_request_t \<Rightarrow> (int \<times> qkpack_request_t) result" where
  "ReadJsonMset yj = read_multi (read_pairs yj) yj"


section \<open>Request bodies of the fixed set interfaces\<close>

text \<open>The members of one key, appended to \<open>map_kv[key]\<close>.\<close>

fun read_zmembers :: "yajl \<Rightarrow> bytes \<Rightarrow> yajl_val list \<Rightarrow> qkpack_request_t \<Rightarrow> (int \<times> qkpack_request_t) result" where
  "read_zmembers yj key_ns [] request = Inr (QKPACK_OK, request)"
| "read_zmembers yj key_ns (val # vals) request =
    (let member = yj_tree_get yj (Some val) QKPACK_JSON_MB Y_string;
         v = yj_tree_get yj (Some val) QKPACK_JSON_V Y_string;
         sc = yj_tree_get yj (Some val) QKPACK_JSON_SC Y_number in
     checked (ValidateZSetMembers member v sc (rq_desc request)) request (\<lambda>request.
     bindR (get_str member) (\<lambda>m. bindR (get_str v) (\<lambda>x. bindR (YAJL_GET_DOUBLE sc) (\<lambda>d.
     read_zmembers yj key_ns vals
       (request\<lparr>rq_map_kv := smap_push key_ns (new_kvpair\<lparr>kv_key := m, kv_value := x, kv_score := d\<rparr>) (rq_map_kv request)\<rparr>))))))"

definition index_map_entry :: "bytes \<Rightarrow> kvpair_t list \<Rightarrow> qkpack_request_t \<Rightarrow> qkpack_request_t" where
  "index_map_entry key kvs request =
    request\<lparr>rq_map_slots_kv := index_slots (kv_namespaces (rq_kvpair request)) (InMap key) kvs (rq_map_slots_kv request)\<rparr>"

definition ReadJsonZfixedsetAdd :: "yajl \<Rightarrow> qkpack_request_t \<Rightarrow> (int \<times> qkpack_request_t) result" where
  "ReadJsonZfixedsetAdd yj request =
    parse_body yj request (\<lambda>node.
      let uri = yj_tree_get yj (Some node) QKPACK_JSON_URI Y_string;
          ak = yj_tree_get yj (Some node) QKPACK_JSON_AK Y_string;
          key = yj_tree_get yj (Some node) QKPACK_JSON_KEY Y_string;
          mbsArray = yj_tree_get yj (Some node) QKPACK_JSON_MBS Y_array in
      checked (ValidateACLInfo (Some node) uri ak (rq_desc request)) request (\<lambda>request.
      checked (ValidateZSet key mbsArray (rq_desc request)) request (\<lambda>request.
      set_uri_ak uri ak request (\<lambda>request. bindR (get_str key) (\<lambda>key_ns.
      case read_namespace request of
        (False, request) \<Rightarrow> Inr (QKPACK_OK, request)
      | (True, request) \<Rightarrow>
          (case YAJL_GET_ARRAY mbsArray of None \<Rightarrow> Inl Null_deref
           | Some vals \<Rightarrow>
               proceed (read_zmembers yj key_ns (int_elems vals) request) (\<lambda>request.
               let request = request\<lparr>rq_map_kv := smap_insert key_ns [] (rq_map_kv request)\<rparr> in
               Inr (QKPACK_OK, index_map_entry key_ns (smap_at [] (rq_map_kv request) key_ns) request))))))))"

fun read_zkeys :: "yajl \<Rightarrow> yajl_val list \<Rightarrow> qkpack_request_t \<Rightarrow> (int \<times> qkpack_request_t) result" where
  "read_zkeys yj [] request = Inr (QKPACK_OK, request)"
| "read_zkeys yj (val # vals) request =
    (let key = yj_tree_get yj (Some val) QKPACK_JSON_KEY Y_string;
         mbsArray = yj_tree_get yj (Some val) QKPACK_JSON_MBS Y_array in
     checked (ValidateZSet key mbsArray (rq_desc request)) request (\<lambda>request.
     case YAJL_GET_ARRAY mbsArray of None \<Rightarrow> Inl Null_deref
     | Some mbs \<Rightarrow>
         bindR (get_str key) (\<lambda>k.
         proceed (read_zmembers yj k (int_elems mbs) request) (read_zkeys yj vals))))"

definition ReadJsonZfixedsetBatchAdd :: "yajl \<Rightarrow> qkpack_request_t \<Rightarrow> (int \<times> qkpack_request_t) result" where
  "ReadJsonZfixedsetBatchAdd yj request =
    parse_body yj request (\<lambda>node.
      let uri = yj_tree_get yj (Some node) QKPACK_JSON_URI Y_string;
          ak = yj_tree_get yj (Some node) QKPACK_JSON_AK Y_string;
          keysArray = yj_tree_get yj (Some node) QKPACK_JSON_KEYS Y_array in
      checked (ValidateACLInfo (Some node) uri ak (rq_desc request)) request (\<lambda>request.
      checked (ValidateZSetKeys keysArray (rq_desc request)) request (\<lambda>request.
      set_uri_ak uri ak request (\<lambda>request.
      case read_namespace request of
        (False, request) \<Rightarrow> Inr (QKPACK_OK, request)
      | (True, request) \<Rightarrow>
          (case YAJL_GET_ARRAY keysArray of None \<Rightarrow> Inl Null_deref
           | Some vals \<Rightarrow>
               proceed (read_zkeys yj (int_elems vals) request) (\<lambda>request.
               Inr (QKPACK_OK, fold (\<lambda>(key, kvs). index_map_entry key kvs) (rq_map_kv request) request)))))))"

definition read_query ::
  "yajl \<Rightarrow> yajl_val \<Rightarrow> qkpack_request_t \<Rightarrow> (bytes \<Rightarrow> zset_query_t \<Rightarrow> qkpack_request_t \<Rightarrow> (int \<times> qkpack_request_t) result) \<Rightarrow>
   (int \<times> qkpack_request_t) result" where
  "read_query yj val request k =
    (let key = yj_tree_get yj (Some val) QKPACK_JSON_KEY Y_string;
         mn = yj_tree_get yj (Some val) QKPACK_JSON_MIN Y_number;
         mx = yj_tree_get yj (Some val) QKPACK_JSON_MAX Y_number;
         ws = yj_tree_get yj (Some val) QKPACK_JSON_WS Y_true;
         asc = yj_tree_get yj (Some val) QKPACK_JSON_ASC Y_true in
     checked (ValidateZSetQuery key mn mx (rq_desc request)) request (\<lambda>request.
     bindR (get_str key) (\<lambda>key_ns. bindR (YAJL_GET_DOUBLE mn) (\<lambda>a. bindR (YAJL_GET_DOUBLE mx) (\<lambda>b.
     k key_ns (new_zset_query\<lparr>zq_min := a, zq_max := b, zq_ws := (ws = Some YTrue), zq_asc := (asc = Some YTrue)\<rparr>) request)))))"

definition ReadJsonZfixedsetGetByScore :: "yajl \<Rightarrow> qkpack_request_t \<Rightarrow> (int \<times> qkpack_request_t) result" where
  "ReadJsonZfixedsetGetByScore yj request =
    parse_body yj request (\<lambda>node.
      let uri = yj_tree_get yj (Some node) QKPACK_JSON_URI Y_string;
          ak = yj_tree_get yj (Some node) QKPACK_JSON_AK Y_string in
      checked (ValidateACLInfo (Some node) uri ak (rq_desc request)) request (\<lambda>request.
      read_query yj node request (\<lambda>key_ns zset_query request.
      set_uri_ak uri ak request (\<lambda>request.
      Inr (QKPACK_OK, request\<lparr>rq_map_query := smap_put key_ns zset_query (rq_map_query request)\<rparr>)))))"

fun read_queries :: "yajl \<Rightarrow> yajl_val list \<Rightarrow> qkpack_request_t \<Rightarrow> (int \<times> qkpack_request_t) result" where
  "read_queries yj [] request = Inr (QKPACK_OK, request)"
| "read_queries yj (val # vals) request =
    read_query yj val request (\<lambda>key_ns zset_query request.
      read_queries yj vals (request\<lparr>rq_vector_kv := rq_vector_kv request @ [new_kvpair\<lparr>kv_key := key_ns\<rparr>],
        rq_map_query := smap_put key_ns zset_query (rq_map_query request)\<rparr>))"

definition ReadJsonZfixedsetBatchGetByScore :: "yajl \<Rightarrow> qkpack_request_t \<Rightarrow> (int \<times> qkpack_request_t) result" where
  "ReadJsonZfixedsetBatchGetByScore yj request =
    parse_body yj request (\<lambda>node.
      let uri = yj_tree_get yj (Some node) QKPACK_JSON_URI Y_string;
          ak = yj_tree_get yj (Some node) QKPACK_JSON_AK Y_string;
          keysArray = yj_tree_get yj (Some node) QKPACK_JSON_KEYS Y_array in
      checked (ValidateACLInfo (Some node) uri ak (rq_desc request)) request (\<lambda>request.
      checked (ValidateZSetKeys keysArray (rq_desc request)) request (\<lambda>request.
      set_uri_ak uri ak request (\<lambda>request.
      case YAJL_GET_ARRAY keysArray of None \<Rightarrow> Inl Null_deref
      | Some vals \<Rightarrow> read_queries yj (int_elems vals) request))))"


section \<open>What the readers guarantee\<close>

text \<open>The positions of the keys of a slot, in request order.\<close>

definition slot_positions :: "bytes \<Rightarrow> kvpair_t list \<Rightarrow> int \<Rightarrow> nat list" where
  "slot_positions namespaces kvs slot =
    filter (\<lambda>i. int (key_hash_slot (namespaces @ kv_key (kvs ! i))) = slot) [0..<length kvs]"

text \<open>An element of \<open>ks\<close> with an acceptable key, and one with an acceptable value as well.\<close>

definition good_str :: "bytes \<Rightarrow> bool" where
  "good_str s \<longleftrightarrow> accepted (c_str s) \<and> length (c_str s) < 2 ^ 31"

definition key_elem :: "yajl \<Rightarrow> yajl_val \<Rightarrow> bytes \<Rightarrow> bool" where
  "key_elem yj val key \<longleftrightarrow> yj_tree_get yj (Some val) QKPACK_JSON_KEY Y_string = Some (YString key) \<and> good_str key"

definition pair_elem :: "yajl \<Rightarrow> yajl_val \<Rightarrow> bytes \<times> bytes \<Rightarrow> bool" where
  "pair_elem yj val kv \<longleftrightarrow> key_elem yj val (fst kv) \<and>
    yj_tree_get yj (Some val) QKPACK_JSON_VALUE Y_string = Some (YString (snd kv)) \<and> good_str (snd kv)"

text \<open>A body with a uri, an application key and an array under the given name.\<close>

definition array_body :: "yajl \<Rightarrow> bytes \<Rightarrow> bytes \<Rightarrow> bytes \<Rightarrow> yajl_val list \<Rightarrow> bytes \<Rightarrow> bool" where
  "array_body yj name uri ak vals body \<longleftrightarrow>
    (\<exists>node. yj_tree_parse yj (c_str body) = Some node \<and>
      yj_tree_get yj (Some node) QKPACK_JSON_URI Y_string = Some (YString uri) \<and> good_str uri \<and>
      yj_tree_get yj (Some node) QKPACK_JSON_AK Y_string = Some (YString ak) \<and> good_str ak \<and>
      yj_tree_get yj (Some node) name Y_array = Some (YArray vals) \<and> vals \<noteq> [] \<and> length vals < 2 ^ 31)"


text \<open>The document the authority service sends for an access record, as the comment of
  \<open>ReadACLResponse\<close> shows it.\<close>

definition policy_doc :: "limit_policies_t \<Rightarrow> yajl_val" where
  "policy_doc p = YObject
    [(QKPACK_ACL_QUOTATION_LIMITPOLICIES_MIN, YNumber (lp_min p) 0), (QKPACK_ACL_QUOTATION_LIMITPOLICIES_MAX, YNumber (lp_max p) 0),
     (QKPACK_ACL_QUOTATION_LIMITPOLICIES_LIMIT, YNumber (lp_limit p) 0)]"

definition timeout_doc :: "timeouts_t \<Rightarrow> yajl_val" where
  "timeout_doc t = YObject
    [(QKPACK_ACL_QUOTATION_TIMEOUTS_INTERFACENAME, YString (to_interface_name t)),
     (QKPACK_ACL_QUOTATION_TIMEOUTS_TIMEOUT, YNumber (to_timeout t) 0), (QKPACK_ACL_QUOTATION_TIMEOUTS_TRIES, YNumber (to_tries t) 0)]"

definition limit_doc :: "limits_length_t \<Rightarrow> yajl_val" where
  "limit_doc l = YObject
    [(QKPACK_ACL_QUOTATION_LIMITSLENGTH_INTERFACENAME, YString (ll_interface_name l)),
     (QKPACK_ACL_QUOTATION_LIMITSLENGTH_KEYLEN, YNumber (ll_keylen l) 0),
     (QKPACK_ACL_QUOTATION_LIMITSLENGTH_VALLEN, YNumber (ll_vallen l) 0),
     (QKPACK_ACL_QUOTATION_LIMITSLENGTH_DATALEN, YNumber (ll_datalen l) 0)]"

definition quotation_doc :: "quotation_t \<Rightarrow> yajl_val" where
  "quotation_doc q = YObject
    [(QKPACK_ACL_QUOTATION_EXPIRE, YNumber (quo_expire q) 0),
     (QKPACK_ACL_QUOTATION_COMMPRESSTHRESHOLD, YNumber (quo_compress_threshold q) 0),
     (QKPACK_ACL_QUOTATION_LIMITPOLICIES, YArray (map policy_doc (quo_vector_policies q))),
     (QKPACK_ACL_QUOTATION_TIMEOUTS, YArray (map timeout_doc (quo_vector_timeouts q))),
     (QKPACK_ACL_QUOTATION_LIMITSLENGTH, YArray (map limit_doc (quo_vector_limits_length q)))]"

definition route_doc :: "route_t \<Rightarrow> yajl_val" where
  "route_doc r = YObject
    [(QKPACK_ACL_ROUTE_DEFAULT, YString (route_defaults r)),
     (QKPACK_ACL_ROUTE_CLIENT, YObject (map (\<lambda>(k, v). (k, YString v)) (route_map_client r))),
     (QKPACK_ACL_ROUTE_SERVER, YObject (map (\<lambda>(k, v). (k, YString v)) (route_map_server r)))]"

definition acl_doc :: "int \<Rightarrow> yajl_val \<Rightarrow> qkpack_acl_t \<Rightarrow> yajl_val" where
  "acl_doc uri_id quotation acl = YObject
    [(QKPACK_ACL_URI_ID, YNumber uri_id 0), (QKPACK_ACL_OPERATION, YNumber (acl_operation acl) 0),
     (QKPACK_ACL_QUOTATION, quotation), (QKPACK_ACL_ROUTE, route_doc (acl_route acl))]"

definition int32 :: "int \<Rightarrow> bool" where
  "int32 v \<longleftrightarrow> - (2 ^ 31) \<le> v \<and> v < 2 ^ 31"

definition no_nul :: "bytes \<Rightarrow> bool" where
  "no_nul s \<longleftrightarrow> NUL \<notin> set s"

definition route_ok :: "(bytes, bytes) smap \<Rightarrow> bool" where
  "route_ok m \<longleftrightarrow> smap_ok m \<and> length m < 2 ^ 31 \<and> (\<forall>(k, v)\<in>set m. no_nul k \<and> no_nul v)"

definition acl_ok :: "qkpack_acl_t \<Rightarrow> bool" where
  "acl_ok acl \<longleftrightarrow>
    (let q = acl_quotation acl; r = acl_route acl in
     int32 (acl_operation acl) \<and> int32 (quo_expire q) \<and> int32 (quo_compress_threshold q) \<and>
     (\<forall>p\<in>set (quo_vector_policies q). int32 (lp_min p) \<and> int32 (lp_max p) \<and> int32 (lp_limit p)) \<and>
     (\<forall>t\<in>set (quo_vector_timeouts q). no_nul (to_interface_name t) \<and> int32 (to_timeout t) \<and> int32 (to_tries t)) \<and>
     (\<forall>l\<in>set (quo_vector_limits_length q). no_nul (ll_interface_name l) \<and> int32 (ll_keylen l) \<and> int32 (ll_vallen l) \<and>
        int32 (ll_datalen l)) \<and>
     length (quo_vector_policies q) < 2 ^ 31 \<and> length (quo_vector_timeouts q) < 2 ^ 31 \<and>
     length (quo_vector_limits_length q) < 2 ^ 31 \<and> no_nul (route_defaults r) \<and>
     route_ok (route_map_client r) \<and> route_ok (route_map_server r))"

text \<open>The record the caller passes in.\<close>

definition new_acl :: qkpack_acl_t where
  "new_acl = \<lparr>acl_uri_id = [], acl_operation = 0,
     acl_quotation = \<lparr>quo_expire = 0, quo_compress_threshold = 0, quo_vector_policies = [], quo_vector_timeouts = [],
       quo_vector_limits_length = [], quo_limit = 0\<rparr>,
     acl_route = \<lparr>route_defaults = [], route_map_client = [], route_map_server = [], route_is_match_ip = False\<rparr>\<rparr>"

text \<open>Well-formed requests: the maps are ordered and every pointer of the index of slots is valid.\<close>

definition request_ok :: "qkpack_request_t \<Rightarrow> bool" where
  "request_ok r \<longleftrightarrow> smap_ok (rq_map_kv r) \<and> smap_ok (rq_map_slots_kv r) \<and> smap_ok (rq_map_query r) \<and>
    (\<forall>s. \<forall>p\<in>set (smap_at [] (rq_map_slots_kv r) s). kv_deref r p \<noteq> None)"

definition keeps_ok :: "(int \<times> qkpack_request_t) result \<Rightarrow> bool" where
  "keeps_ok m \<longleftrightarrow> (\<forall>rc r. m = Inr (rc, r) \<longrightarrow> request_ok r)"

text \<open>A library that parses one text.\<close>

definition sample_yajl :: "bytes \<Rightarrow> yajl_val \<Rightarrow> yajl" where
  "sample_yajl body node =
    \<lparr>yj_tree_parse = (\<lambda>s. if s = body then Some node else None), yj_tree_get = tree_get, yj_gen_alloc = True,
     yj_gen_buf = (\<lambda>b calls. Some [])\<rparr>"

definition sample_body_fields :: "(bytes \<times> yajl_val) list" where
  "sample_body_fields = [(QKPACK_JSON_URI, YString ''qkd://BJTEST/Bd''), (QKPACK_JSON_AK, YString ''51v6sHF9Mk'')]"

definition sample_mget :: "bytes list \<Rightarrow> yajl_val" where
  "sample_mget keys =
    YObject (sample_body_fields @ [(QKPACK_JSON_KEYS, YArray (map (\<lambda>k. YObject [(QKPACK_JSON_KEY, YString k)]) keys))])"

definition sample_acl :: qkpack_acl_t where
  "sample_acl = \<lparr>acl_uri_id = ''1453'', acl_operation = 3,
     acl_quotation = \<lparr>quo_expire = 86400, quo_compress_threshold = 1,
       quo_vector_policies = [\<lparr>lp_min = 0, lp_max = 11, lp_limit = 1000\<rparr>],
       quo_vector_timeouts = [\<lparr>to_interface_name = ''kv/get'', to_timeout = 10, to_tries = 5\<rparr>],
       quo_vector_limits_length = [\<lparr>ll_interface_name = ''kv/get'', ll_keylen = 64, ll_vallen = 1024, ll_datalen = 4096\<rparr>],
       quo_limit = 0\<rparr>,
     acl_route = \<lparr>route_defaults = ''10.100.23.78:17880'', route_map_client = [(''10.100'', ''BJ02'')],
       route_map_server = [(''BJ02'', ''10.100.23.78:17880'')], route_is_match_ip = False\<rparr>\<rparr>"


section \<open>Lemmas\<close>

lemma ERROR_not_OK [simp]: "QKPACK_ERROR \<noteq> QKPACK_OK" "QKPACK_OK \<noteq> QKPACK_ERROR"
  by (simp_all add: codes)

lemma returns_checked:
  "returns m \<Longrightarrow> (\<And>d. m = Inr (QKPACK_OK, d) \<Longrightarrow> returns (k (request\<lparr>rq_desc := d\<rparr>))) \<Longrightarrow> returns (checked m request k)"
  by (auto simp: checked_def intro!: returns_bindR)

lemma returns_proceed:
  "returns m \<Longrightarrow> (\<And>r. m = Inr (QKPACK_OK, r) \<Longrightarrow> returns (k r)) \<Longrightarrow> returns (proceed m k)"
  by (auto simp: proceed_def intro!: returns_bindR)

lemma returns_parse_body: "(\<And>node. returns (k node)) \<Longrightarrow> returns (parse_body yj request k)"
  by (simp add: parse_body_def split: option.split)

lemma returns_set_uri_ak:
  "uri = Some (YString u) \<Longrightarrow> ak = Some (YString a) \<Longrightarrow>
   returns (k (request\<lparr>rq_uri := c_str u, rq_ak := c_str a\<rparr>)) \<Longrightarrow> returns (set_uri_ak uri ak request k)"
  by (simp add: set_uri_ak_def)

lemma returns_get_str: "v = Some (YString s) \<Longrightarrow> returns (k (c_str s)) \<Longrightarrow> returns (bindR (get_str v) k)"
  by simp

lemmas reader_total = returns_parse_body returns_checked returns_proceed

lemma returns_acl:
  assumes "typed_get yj"
    and "\<And>u a request. uri = Some (YString u) \<Longrightarrow> ak = Some (YString a) \<Longrightarrow> returns (k request)"
    and "uri = yj_tree_get yj n1 k1 Y_string" "ak = yj_tree_get yj n2 k2 Y_string"
  shows "returns (checked (ValidateACLInfo node uri ak desc) request k)"
  using assms ValidateACLInfo_OK [of uri ak node desc]
  by (auto intro!: returns_checked ValidateACLInfo_total)

lemma returns_acl_body:
  assumes "typed_get yj"
    and "\<And>node u a request. yj_tree_get yj (Some node) QKPACK_JSON_URI Y_string = Some (YString u) \<Longrightarrow>
      yj_tree_get yj (Some node) QKPACK_JSON_AK Y_string = Some (YString a) \<Longrightarrow> returns (k node request)"
  shows "returns (parse_body yj request (\<lambda>node.
    checked (ValidateACLInfo (Some node) (yj_tree_get yj (Some node) QKPACK_JSON_URI Y_string)
      (yj_tree_get yj (Some node) QKPACK_JSON_AK Y_string) (rq_desc request)) request (k node)))"
  by (rule returns_parse_body, rule returns_acl [OF assms(1)]) (rule assms(2), simp_all)

lemma index_slots_snoc:
  "index_slots ns ref (kvs @ [kv]) m =
    smap_push (int (key_hash_slot (ns @ kv_key kv))) (ref (length kvs)) (index_slots ns ref kvs m)"
  by (simp add: index_slots_def enumerate_append_eq)

lemma slot_positions_snoc:
  "slot_positions ns (kvs @ [kv]) s =
    slot_positions ns kvs s @ (if int (key_hash_slot (ns @ kv_key kv)) = s then [length kvs] else [])"
  by (auto simp: slot_positions_def nth_append intro!: filter_cong)

lemma index_slots_at:
  "smap_at [] (index_slots ns ref kvs m) s = smap_at [] m s @ map ref (slot_positions ns kvs s)"
proof (induction kvs rule: rev_induct)
  case (snoc kv kvs)
  then show ?case
    by (auto simp: index_slots_snoc slot_positions_snoc smap_at_push)
qed (simp add: index_slots_def slot_positions_def)

lemma index_slots_get:
  "smap_get (index_slots ns ref kvs []) s =
    (if slot_positions ns kvs s = [] then None else Some (map ref (slot_positions ns kvs s)))"
proof -
  have "smap_get (index_slots ns ref kvs []) s \<noteq> Some []"
  proof (induction kvs rule: rev_induct)
    case (snoc kv kvs)
    then show ?case by (auto simp: index_slots_snoc smap_get_push)
  qed (simp add: index_slots_def)
  moreover have "smap_at [] (index_slots ns ref kvs []) s = map ref (slot_positions ns kvs s)"
    using index_slots_at [of ns ref kvs "[]" s] by (simp add: smap_at_def)
  ultimately show ?thesis
    by (cases "smap_get (index_slots ns ref kvs []) s") (auto simp: smap_at_def)
qed

lemma smap_ok_index_slots: "smap_ok m \<Longrightarrow> smap_ok (index_slots ns ref kvs m)"
proof (induction kvs rule: rev_induct)
  case (snoc kv kvs)
  then show ?case by (simp add: index_slots_snoc smap_ok_push)
qed (simp add: index_slots_def)

lemma find_last_of_append:
  assumes "c \<notin> set t" "length (s @ c # t) < 2 ^ 31"
  shows "find_last_of c (s @ c # t) = int (length s)"
proof -
  have "\<forall>x\<in>set (rev t). \<not> x = c" using assms(1) by auto
  then have "scan (\<lambda>x. x = c) (rev (s @ c # t)) = length t"
    using scan_skip [of "rev t" "\<lambda>x. x = c" c "rev s"] by simp
  then show ?thesis using assms(2) by (simp add: find_last_of_def)
qed

lemma read_namespace_slash:
  assumes "rq_uri r = pre @ CHR ''/'' # ns" "pre \<noteq> []" "CHR ''/'' \<notin> set ns" "length ns = 2" "length (rq_uri r) < 2 ^ 31"
  shows "read_namespace r = (True, upd_kv (\<lambda>k. k\<lparr>kv_namespaces := ns\<rparr>) r)"
  using assms find_last_of_append [of "CHR ''/''" ns pre]
  by (simp add: read_namespace_def Let_def codes nat_add_distrib)

lemma checked_OK [simp]: "checked (Inr (QKPACK_OK, rq_desc request)) request k = k request"
  by (simp add: checked_def)

lemma read_keys_good:
  "list_all2 (key_elem yj) vals keys \<Longrightarrow>
   read_keys yj vals request =
     Inr (QKPACK_OK, request\<lparr>rq_vector_kv := rq_vector_kv request @ map (\<lambda>k. new_kvpair\<lparr>kv_key := c_str k\<rparr>) keys\<rparr>)"
proof (induction vals keys arbitrary: request rule: list_all2_induct)
  case (Cons val vals key keys)
  then show ?case
    by (simp add: key_elem_def good_str_def ValidateKVPairByKey_def require_str_accepted)
qed simp

lemma read_pairs_good:
  "list_all2 (pair_elem yj) vals kvs \<Longrightarrow>
   read_pairs yj vals request =
     Inr (QKPACK_OK, request\<lparr>rq_vector_kv := rq_vector_kv request @
       map (\<lambda>(k, v). new_kvpair\<lparr>kv_key := c_str k, kv_value := c_str v\<rparr>) kvs\<rparr>)"
proof (induction vals kvs arbitrary: request rule: list_all2_induct)
  case (Cons val vals kv kvs)
  then show ?case
    by (cases kv) (simp add: pair_elem_def key_elem_def good_str_def ValidateKVPair_def ValidateKVPairByKey_def require_str_accepted)
qed simp

lemma read_multi_good:
  assumes "array_body yj QKPACK_JSON_KEYS uri ak vals (rq_request_buffer request)"
    and "\<And>r. loop vals r = Inr (QKPACK_OK, r\<lparr>rq_vector_kv := rq_vector_kv r @ kvs\<rparr>)"
    and "c_str uri = pre @ CHR ''/'' # ns" "pre \<noteq> []" "CHR ''/'' \<notin> set ns" "length ns = 2"
    and "rq_vector_kv request = []" "rq_map_slots_kv request = []"
  shows "read_multi loop yj request =
    Inr (QKPACK_OK, upd_kv (\<lambda>k. k\<lparr>kv_namespaces := ns\<rparr>)
      (request\<lparr>rq_uri := c_str uri, rq_ak := c_str ak, rq_vector_kv := kvs, rq_map_slots_kv := index_slots ns InVec kvs []\<rparr>))"
proof -
  obtain node where node: "yj_tree_parse yj (c_str (rq_request_buffer request)) = Some node"
      "yj_tree_get yj (Some node) QKPACK_JSON_URI Y_string = Some (YString uri)" "good_str uri"
      "yj_tree_get yj (Some node) QKPACK_JSON_AK Y_string = Some (YString ak)" "good_str ak"
      "yj_tree_get yj (Some node) QKPACK_JSON_KEYS Y_array = Some (YArray vals)" "vals \<noteq> []" "length vals < 2 ^ 31"
    using assms(1) unfolding array_body_def by (elim exE conjE) (rule that)
  have len: "length (c_str uri) < 2 ^ 31" "length (c_str ak) < 2 ^ 31" "accepted (c_str uri)" "accepted (c_str ak)"
    using node(3,5) by (simp_all add: good_str_def)
  have ns: "read_namespace r = (True, upd_kv (\<lambda>k. k\<lparr>kv_namespaces := ns\<rparr>) r)" if "rq_uri r = c_str uri" for r
    using read_namespace_slash [of r pre ns] that len(1) assms(3-6) by simp
  show ?thesis
    using node assms(2,7,8) len
    by (simp add: read_multi_def parse_body_def Let_def ValidateACLInfo_accepted ValidateMultiKVPair_def
        set_uri_ak_def proceed_def ns index_vector_kv_def)
qed


lemma typed_array: "typed_get yj \<Longrightarrow> yj_tree_get yj n k Y_array = v \<Longrightarrow> v = None \<or> (\<exists>vs. v = Some (YArray vs))"
  by (cases v) (auto simp: typed_get_def simp flip: type_array)

lemma typed_number:
  "typed_get yj \<Longrightarrow> yj_tree_get yj n k Y_number = Some v \<Longrightarrow> \<exists>i d. v = YNumber i d"
  by (auto simp: typed_get_def simp flip: type_number)

lemma returns_double:
  "typed_get yj \<Longrightarrow> yj_tree_get yj n k Y_number = Some v \<Longrightarrow> (\<And>d. returns (f d)) \<Longrightarrow>
   returns (bindR (YAJL_GET_DOUBLE (Some v)) f)"
  by (auto dest!: typed_number)

lemma ReadJsonGet_returns:
  assumes "typed_get yj"
  shows "returns (ReadJsonGet yj request)"
  unfolding ReadJsonGet_def Let_def validators
proof (rule returns_acl_body [OF assms])
qed (use assms in \<open>auto intro!: returns_checked require_str_total simp: set_uri_ak_def dest!: require_str_OK split: if_splits\<close>)

lemma ReadJsonSet_returns:
  assumes "typed_get yj"
  shows "returns (ReadJsonSet yj request)"
  unfolding ReadJsonSet_def Let_def validators
proof (rule returns_acl_body [OF assms])
qed (use assms in \<open>auto intro!: returns_checked require_str_total and_then_total simp: set_uri_ak_def
  dest!: require_str_OK and_then_OK split: if_splits\<close>)

lemma read_keys_returns: "typed_get yj \<Longrightarrow> returns (read_keys yj vals request)"
proof (induction vals arbitrary: request)
  case (Cons val vals)
  then show ?case
    by (auto simp: Let_def validators intro!: returns_checked require_str_total dest!: require_str_OK)
qed simp

lemma read_pairs_returns: "typed_get yj \<Longrightarrow> returns (read_pairs yj vals request)"
proof (induction vals arbitrary: request)
  case (Cons val vals)
  then show ?case
    by (auto simp: Let_def validators intro!: returns_checked require_str_total and_then_total
        dest!: require_str_OK and_then_OK)
qed simp

lemma read_multi_returns:
  assumes "typed_get yj" "\<And>vals request. returns (loop vals request)"
  shows "returns (read_multi loop yj request)"
  unfolding read_multi_def Let_def validators
proof (rule returns_acl_body [OF assms(1)])
qed (use assms in \<open>auto intro!: returns_checked require_array_total returns_proceed simp: set_uri_ak_def
  dest!: require_array_OK split: prod.split bool.split\<close>)

lemma read_zmembers_returns: "typed_get yj \<Longrightarrow> returns (read_zmembers yj key vals request)"
proof (induction vals arbitrary: request)
  case (Cons val vals)
  then show ?case
    by (auto simp: Let_def validators intro!: returns_checked require_str_total and_then_total returns_double
        dest!: require_str_OK and_then_OK split: if_splits)
qed simp

lemma read_zkeys_returns: "typed_get yj \<Longrightarrow> returns (read_zkeys yj vals request)"
proof (induction vals arbitrary: request)
  case (Cons val vals)
  then show ?case
    by (auto simp: Let_def validators read_zmembers_returns
        intro!: returns_checked returns_proceed require_str_total and_then_total require_array_total
        dest!: require_str_OK and_then_OK require_array_OK)
qed simp

lemma read_query_returns:
  "typed_get yj \<Longrightarrow> (\<And>key q request. returns (k key q request)) \<Longrightarrow> returns (read_query yj val request k)"
  unfolding read_query_def Let_def validators
  by (auto intro!: returns_checked require_str_total and_then_total returns_double
      dest!: require_str_OK and_then_OK split: if_splits)

lemma read_queries_returns: "typed_get yj \<Longrightarrow> returns (read_queries yj vals request)"
  by (induction vals arbitrary: request) (simp_all add: read_query_returns)

lemma ReadJsonZfixedsetAdd_returns:
  assumes "typed_get yj"
  shows "returns (ReadJsonZfixedsetAdd yj request)"
  unfolding ReadJsonZfixedsetAdd_def Let_def validators
proof (rule returns_acl_body [OF assms])
qed (use assms in \<open>auto intro!: returns_checked require_str_total and_then_total require_array_total returns_proceed
  read_zmembers_returns simp: set_uri_ak_def dest!: require_str_OK and_then_OK require_array_OK split: prod.split bool.split\<close>)

lemma ReadJsonZfixedsetBatchAdd_returns:
  assumes "typed_get yj"
  shows "returns (ReadJsonZfixedsetBatchAdd yj request)"
  unfolding ReadJsonZfixedsetBatchAdd_def Let_def validators
proof (rule returns_acl_body [OF assms])
qed (use assms in \<open>auto intro!: returns_checked require_array_total returns_proceed
  read_zkeys_returns simp: set_uri_ak_def dest!: require_array_OK split: prod.split bool.split\<close>)

lemma ReadJsonZfixedsetGetByScore_returns:
  assumes "typed_get yj"
  shows "returns (ReadJsonZfixedsetGetByScore yj request)"
  unfolding ReadJsonZfixedsetGetByScore_def Let_def
proof (rule returns_acl_body [OF assms])
qed (use assms in \<open>auto intro!: read_query_returns simp: set_uri_ak_def\<close>)

lemma ReadJsonZfixedsetBatchGetByScore_returns:
  assumes "typed_get yj"
  shows "returns (ReadJsonZfixedsetBatchGetByScore yj request)"
  unfolding ReadJsonZfixedsetBatchGetByScore_def Let_def validators
proof (rule returns_acl_body [OF assms])
qed (use assms in \<open>auto intro!: returns_checked require_array_total read_queries_returns simp: set_uri_ak_def
  dest!: require_array_OK\<close>)

lemmas reader_returns = ReadJsonGet_returns ReadJsonSet_returns ReadJsonZfixedsetAdd_returns
  ReadJsonZfixedsetBatchAdd_returns ReadJsonZfixedsetGetByScore_returns ReadJsonZfixedsetBatchGetByScore_returns

lemma c_str_id [simp]: "no_nul s \<Longrightarrow> c_str s = s"
  by (auto simp: c_str_def no_nul_def takeWhile_eq_all_conv)

lemma int32_to_int [simp]: "int32 v \<Longrightarrow> to_int v = v"
  by (simp add: int32_def)

lemma tree_get_Nil [simp]: "tree_get (Some (YObject [])) key ty = None"
  by (simp add: tree_get_def)

lemma tree_get_Cons [simp]:
  "tree_get (Some (YObject ((k, v) # kvs))) key ty =
    (if c_str k = key then if type_of_val v = ty then Some v else None else tree_get (Some (YObject kvs)) key ty)"
  by (simp add: tree_get_def)

lemma read_policies_doc:
  assumes "yj_tree_get yj = tree_get" "\<forall>p\<in>set ps. int32 (lp_min p) \<and> int32 (lp_max p) \<and> int32 (lp_limit p)"
  shows "read_policies yj (map policy_doc ps) acl =
    Inr (QKPACK_OK, upd_quo (\<lambda>q. q\<lparr>quo_vector_policies := quo_vector_policies q @ ps\<rparr>) acl)"
  using assms(2)
proof (induction ps arbitrary: acl)
  case (Cons p ps)
  then show ?case
    by (simp add: assms(1) policy_doc_def names c_str_def NUL_def)
qed simp

lemma read_timeouts_doc:
  assumes "yj_tree_get yj = tree_get"
    and "\<forall>t\<in>set ts. no_nul (to_interface_name t) \<and> int32 (to_timeout t) \<and> int32 (to_tries t)"
  shows "read_timeouts yj (map timeout_doc ts) acl =
    Inr (QKPACK_OK, upd_quo (\<lambda>q. q\<lparr>quo_vector_timeouts := quo_vector_timeouts q @ ts\<rparr>) acl)"
  using assms(2)
proof (induction ts arbitrary: acl)
  case (Cons t ts)
  then show ?case
    by (cases t) (simp add: assms(1) timeout_doc_def names no_nul_def NUL_def)
qed simp

lemma read_limits_doc:
  assumes "yj_tree_get yj = tree_get"
    and "\<forall>l\<in>set ls. no_nul (ll_interface_name l) \<and> int32 (ll_keylen l) \<and> int32 (ll_vallen l) \<and> int32 (ll_datalen l)"
  shows "read_limits yj (map limit_doc ls) acl =
    Inr (QKPACK_OK, upd_quo (\<lambda>q. q\<lparr>quo_vector_limits_length := quo_vector_limits_length q @ ls\<rparr>) acl)"
  using assms(2)
proof (induction ls arbitrary: acl)
  case (Cons l ls)
  then show ?case
    by (cases l) (simp add: assms(1) limit_doc_def names no_nul_def NUL_def)
qed simp

lemma smap_put_last: "\<forall>a\<in>fst ` set m. a < k \<Longrightarrow> smap_put k v m = m @ [(k, v)]"
  by (induction m) (auto dest: order.asym)

lemma read_route_map_doc:
  "smap_ok (m @ kvs) \<Longrightarrow> \<forall>(k, v)\<in>set kvs. no_nul k \<and> no_nul v \<Longrightarrow>
   read_route_map (map (\<lambda>(k, v). (k, YString v)) kvs) m = Inr (m @ kvs)"
proof (induction kvs arbitrary: m)
  case (Cons kv kvs)
  obtain k v where kv: "kv = (k, v)" by force
  have "smap_put k v m = m @ [(k, v)]"
    using Cons.prems(1) by (intro smap_put_last) (auto simp: smap_ok_def sorted_wrt_append kv)
  then show ?case
    using Cons.IH [of "m @ [(k, v)]"] Cons.prems by (auto simp: kv)
qed simp

lemma read_route_object_doc:
  "route_ok m \<Longrightarrow> read_route_object (Some (YObject (map (\<lambda>(k, v). (k, YString v)) m))) [] = Inr (Some m)"
  using read_route_map_doc [of "[]" m] by (simp add: read_route_object_def route_ok_def)

lemma ReadACLQuotation_doc:
  assumes "yj_tree_get yj = tree_get" "acl_ok acl" "quo_vector_policies (acl_quotation acl0) = []"
    "quo_vector_timeouts (acl_quotation acl0) = []" "quo_vector_limits_length (acl_quotation acl0) = []"
    "quotation_node yj quotation = Some (quotation_doc (acl_quotation acl))"
  shows "ReadACLQuotation yj quotation acl0 =
    Inr (QKPACK_OK, False, upd_quo (\<lambda>q. (acl_quotation acl)\<lparr>quo_limit := quo_limit q\<rparr>) acl0)"
proof -
  let ?q = "acl_quotation acl"
  have q: "int32 (quo_expire ?q)" "int32 (quo_compress_threshold ?q)"
    "\<forall>p\<in>set (quo_vector_policies ?q). int32 (lp_min p) \<and> int32 (lp_max p) \<and> int32 (lp_limit p)"
    "\<forall>t\<in>set (quo_vector_timeouts ?q). no_nul (to_interface_name t) \<and> int32 (to_timeout t) \<and> int32 (to_tries t)"
    "\<forall>l\<in>set (quo_vector_limits_length ?q). no_nul (ll_interface_name l) \<and> int32 (ll_keylen l) \<and> int32 (ll_vallen l) \<and>
       int32 (ll_datalen l)"
    "length (quo_vector_policies ?q) < 2 ^ 31" "length (quo_vector_timeouts ?q) < 2 ^ 31"
    "length (quo_vector_limits_length ?q) < 2 ^ 31"
    using assms(2) unfolding acl_ok_def Let_def by blast+
  note docs = read_policies_doc [OF assms(1) q(3)] read_timeouts_doc [OF assms(1) q(4)] read_limits_doc [OF assms(1) q(5)]
  have get: "tree_get (Some (quotation_doc ?q)) QKPACK_ACL_QUOTATION_EXPIRE Y_number = Some (YNumber (quo_expire ?q) 0)"
    "tree_get (Some (quotation_doc ?q)) QKPACK_ACL_QUOTATION_COMMPRESSTHRESHOLD Y_number = Some (YNumber (quo_compress_threshold ?q) 0)"
    "tree_get (Some (quotation_doc ?q)) QKPACK_ACL_QUOTATION_LIMITPOLICIES Y_array = Some (YArray (map policy_doc (quo_vector_policies ?q)))"
    "tree_get (Some (quotation_doc ?q)) QKPACK_ACL_QUOTATION_TIMEOUTS Y_array = Some (YArray (map timeout_doc (quo_vector_timeouts ?q)))"
    "tree_get (Some (quotation_doc ?q)) QKPACK_ACL_QUOTATION_LIMITSLENGTH Y_array = Some (YArray (map limit_doc (quo_vector_limits_length ?q)))"
    by (simp_all add: quotation_doc_def names c_str_def NUL_def)
  show ?thesis
    using q(1,2,6-8) assms(3-5)
    by (simp add: ReadACLQuotation_def assms(1,6) Let_def get docs read_section_def)
qed


lemma kv_deref_cong:
  "rq_vector_kv r = rq_vector_kv r' \<Longrightarrow> rq_map_kv r = rq_map_kv r' \<Longrightarrow> kv_deref r p = kv_deref r' p"
  by (cases p) auto

lemma request_ok_cong:
  "rq_vector_kv r = rq_vector_kv r' \<Longrightarrow> rq_map_kv r = rq_map_kv r' \<Longrightarrow> rq_map_slots_kv r = rq_map_slots_kv r' \<Longrightarrow>
   rq_map_query r = rq_map_query r' \<Longrightarrow> request_ok r = request_ok r'"
  using kv_deref_cong [of r r'] by (simp add: request_ok_def)

lemma request_ok_frame [simp]:
  "request_ok (request\<lparr>rq_desc := d\<rparr>) = request_ok request"
  "request_ok (request\<lparr>rq_uri := u, rq_ak := a\<rparr>) = request_ok request"
  "request_ok (request\<lparr>rq_kvpair := kv\<rparr>) = request_ok request"
  "request_ok (request\<lparr>rq_vector_mbs := ms\<rparr>) = request_ok request"
  by (rule request_ok_cong; simp)+

lemma request_ok_grow:
  assumes "request_ok r" "rq_map_slots_kv r' = rq_map_slots_kv r"
    and "smap_ok (rq_map_kv r) \<Longrightarrow> smap_ok (rq_map_kv r')" "smap_ok (rq_map_query r) \<Longrightarrow> smap_ok (rq_map_query r')"
    and "\<And>p. kv_deref r p \<noteq> None \<Longrightarrow> kv_deref r' p \<noteq> None"
  shows "request_ok r'"
  using assms by (auto simp: request_ok_def)

lemma kv_deref_push_vector: "kv_deref r p \<noteq> None \<Longrightarrow> kv_deref (r\<lparr>rq_vector_kv := rq_vector_kv r @ [kv]\<rparr>) p \<noteq> None"
  by (cases p) (auto split: if_splits)

lemma kv_deref_push_map: "kv_deref r p \<noteq> None \<Longrightarrow> kv_deref (r\<lparr>rq_map_kv := smap_push k kv (rq_map_kv r)\<rparr>) p \<noteq> None"
  by (cases p) (auto simp: smap_get_push smap_at_def split: if_splits option.splits)

lemma request_ok_push_vector: "request_ok r \<Longrightarrow> request_ok (r\<lparr>rq_vector_kv := rq_vector_kv r @ [kv]\<rparr>)"
  by (erule request_ok_grow) (use kv_deref_push_vector in \<open>simp_all add: request_ok_def\<close>)

lemma request_ok_push_map: "request_ok r \<Longrightarrow> request_ok (r\<lparr>rq_map_kv := smap_push k kv (rq_map_kv r)\<rparr>)"
  by (erule request_ok_grow) (use kv_deref_push_map in \<open>simp_all add: request_ok_def smap_ok_push\<close>)

lemma request_ok_insert_map: "request_ok r \<Longrightarrow> request_ok (r\<lparr>rq_map_kv := smap_insert k [] (rq_map_kv r)\<rparr>)"
proof (erule request_ok_grow)
  show "kv_deref (r\<lparr>rq_map_kv := smap_insert k [] (rq_map_kv r)\<rparr>) p \<noteq> None" if "kv_deref r p \<noteq> None" for p
    using that by (cases p) (auto simp: smap_get_insert split: if_splits option.splits)
qed (auto simp: request_ok_def smap_ok_insert)

lemma request_ok_put_query: "request_ok r \<Longrightarrow> request_ok (r\<lparr>rq_map_query := smap_put k q (rq_map_query r)\<rparr>)"
  by (erule request_ok_grow) (auto simp: request_ok_def smap_ok_put kv_deref_cong [of "r\<lparr>rq_map_query := q\<rparr>" r for q])

lemma request_ok_index:
  assumes "request_ok r" "\<And>i. i < length kvs \<Longrightarrow> kv_deref r (ref i) \<noteq> None"
  shows "request_ok (r\<lparr>rq_map_slots_kv := index_slots ns ref kvs (rq_map_slots_kv r)\<rparr>)"
proof -
  have "kv_deref (r\<lparr>rq_map_slots_kv := m\<rparr>) p = kv_deref r p" for m p
    by (rule kv_deref_cong) simp_all
  then show ?thesis
    using assms by (auto simp: request_ok_def smap_ok_index_slots index_slots_at slot_positions_def)
qed

lemma request_ok_index_vector: "request_ok r \<Longrightarrow> request_ok (index_vector_kv r)"
  unfolding index_vector_kv_def by (erule request_ok_index) simp

lemma request_ok_index_entry:
  "request_ok r \<Longrightarrow> smap_get (rq_map_kv r) key = Some kvs \<Longrightarrow> request_ok (index_map_entry key kvs r)"
  unfolding index_map_entry_def by (erule request_ok_index) simp

lemma request_ok_index_entries:
  assumes "request_ok r" "set kvs \<subseteq> set (rq_map_kv r)"
  shows "request_ok (fold (\<lambda>(key, kvs). index_map_entry key kvs) kvs r)"
  using assms
proof (induction kvs arbitrary: r)
  case (Cons kv kvs)
  obtain key vs where kv: "kv = (key, vs)" by force
  have "smap_get (rq_map_kv r) key = Some vs"
    using Cons.prems by (intro smap_get_of_mem) (auto simp: request_ok_def kv)
  then have "request_ok (index_map_entry key vs r)"
    using Cons.prems by (simp add: request_ok_index_entry)
  moreover have "rq_map_kv (index_map_entry key vs r) = rq_map_kv r"
    by (simp add: index_map_entry_def)
  ultimately show ?case
    using Cons.IH [of "index_map_entry key vs r"] Cons.prems(2) by (simp add: kv)
qed simp

lemma read_namespace_ok: "read_namespace r = (b, r') \<Longrightarrow> request_ok r \<Longrightarrow> request_ok r'"
  by (auto simp: read_namespace_def Let_def split: if_splits)

lemma keeps_ok_simps [simp]: "keeps_ok (Inl e)" "keeps_ok (Inr (rc, r)) = request_ok r"
  by (simp_all add: keeps_ok_def)

lemma keeps_checked:
  "request_ok r \<Longrightarrow> (\<And>r'. request_ok r' \<Longrightarrow> keeps_ok (k r')) \<Longrightarrow> keeps_ok (checked m r k)"
  by (cases m) (auto simp: checked_def)

lemma keeps_proceed: "keeps_ok m \<Longrightarrow> (\<And>r. request_ok r \<Longrightarrow> keeps_ok (k r)) \<Longrightarrow> keeps_ok (proceed m k)"
  by (cases m) (auto simp: proceed_def)

lemma keeps_bind: "(\<And>x. m = Inr x \<Longrightarrow> keeps_ok (k x)) \<Longrightarrow> keeps_ok (bindR m k)"
  by (cases m) auto

lemma keeps_parse_body: "request_ok r \<Longrightarrow> (\<And>node. keeps_ok (k node)) \<Longrightarrow> keeps_ok (parse_body yj r k)"
  by (simp add: parse_body_def split: option.split)

lemma keeps_set_uri_ak: "request_ok r \<Longrightarrow> (\<And>r'. request_ok r' \<Longrightarrow> keeps_ok (k r')) \<Longrightarrow> keeps_ok (set_uri_ak uri ak r k)"
  by (simp add: set_uri_ak_def keeps_bind)

lemma keeps_namespace:
  "request_ok r \<Longrightarrow> (\<And>r'. request_ok r' \<Longrightarrow> keeps_ok (f r')) \<Longrightarrow> (\<And>r'. request_ok r' \<Longrightarrow> keeps_ok (g r')) \<Longrightarrow>
   keeps_ok (case read_namespace r of (False, r') \<Rightarrow> f r' | (True, r') \<Rightarrow> g r')"
  using read_namespace_ok [of r] by (cases "read_namespace r") (auto split: bool.split)

lemmas keeps = keeps_namespace keeps_checked keeps_proceed keeps_bind keeps_parse_body keeps_set_uri_ak
  request_ok_push_vector request_ok_push_map request_ok_put_query request_ok_index_vector

lemma read_members_keeps: "request_ok r \<Longrightarrow> keeps_ok (read_members vals r)"
  by (induction vals arbitrary: r) (auto intro!: keeps)

lemma read_keys_keeps: "request_ok r \<Longrightarrow> keeps_ok (read_keys yj vals r)"
  by (induction vals arbitrary: r) (auto simp: Let_def intro!: keeps)

lemma read_pairs_keeps: "request_ok r \<Longrightarrow> keeps_ok (read_pairs yj vals r)"
  by (induction vals arbitrary: r) (auto simp: Let_def intro!: keeps)

lemma read_zmembers_keeps: "request_ok r \<Longrightarrow> keeps_ok (read_zmembers yj key vals r)"
  by (induction vals arbitrary: r) (auto simp: Let_def intro!: keeps)

lemma read_zkeys_keeps: "request_ok r \<Longrightarrow> keeps_ok (read_zkeys yj vals r)"
  by (induction vals arbitrary: r)
    (auto simp: Let_def intro!: keeps_checked keeps_bind keeps_proceed read_zmembers_keeps split: option.split)

lemma read_query_keeps:
  "request_ok r \<Longrightarrow> (\<And>key q r. request_ok r \<Longrightarrow> keeps_ok (k key q r)) \<Longrightarrow> keeps_ok (read_query yj val r k)"
  by (auto simp: read_query_def Let_def intro!: keeps_checked keeps_bind)

lemma read_queries_keeps: "request_ok r \<Longrightarrow> keeps_ok (read_queries yj vals r)"
proof (induction vals arbitrary: r)
  case (Cons val vals)
  have "request_ok (r\<lparr>rq_vector_kv := rq_vector_kv r @ [kv], rq_map_query := smap_put key q (rq_map_query r)\<rparr>)"
    if "request_ok r" for r kv key q
    using request_ok_put_query [OF request_ok_push_vector [OF that]] by simp
  then show ?case using Cons by (auto intro!: read_query_keeps)
qed simp

lemma read_multi_keeps:
  "request_ok r \<Longrightarrow> (\<And>vals r. request_ok r \<Longrightarrow> keeps_ok (loop vals r)) \<Longrightarrow> keeps_ok (read_multi loop yj r)"
  unfolding read_multi_def Let_def
  by (auto intro!: keeps split: option.split)

section \<open>Properties\<close>

text \<open>C31: No body makes the readers of the key-value and fixed set interfaces crash.  Whatever the body
  parses to, \<open>ReadJsonGet\<close>, \<open>ReadJsonSet\<close>, \<open>ReadJsonMget\<close>, \<open>ReadJsonMset\<close> and the four fixed set readers
  return a status, since every pointer they follow was checked; the only assumption is that
  \<open>yajl_tree_get\<close> answers with values of the wanted type.\<close>

theorem readers_return:
  assumes "typed_get yj"
  shows "returns (ReadJsonGet yj request) \<and> returns (ReadJsonSet yj request) \<and> returns (ReadJsonMget yj request) \<and>
    returns (ReadJsonMset yj request) \<and> returns (ReadJsonZfixedsetAdd yj request) \<and>
    returns (ReadJsonZfixedsetBatchAdd yj request) \<and> returns (ReadJsonZfixedsetGetByScore yj request) \<and>
    returns (ReadJsonZfixedsetBatchGetByScore yj request)"
  using assms by (simp add: reader_returns ReadJsonMget_def ReadJsonMset_def read_multi_returns
      read_keys_returns read_pairs_returns)


theorem readers_return_witness:
  "typed_get (sample_yajl ''{}'' (YObject [])) \<and>
   returns (ReadJsonGet (sample_yajl ''{}'' (YObject [])) (new_request\<lparr>rq_request_buffer := ''{}''\<rparr>))"
  using readers_return [OF typed_tree_get, of "sample_yajl ''{}'' (YObject [])" "new_request\<lparr>rq_request_buffer := ''{}''\<rparr>"]
    typed_tree_get [of "sample_yajl ''{}'' (YObject [])"]
  by (simp add: sample_yajl_def)

text \<open>C34: Reading the response of the authority service gives the access record it describes: identifier,
  operation, expiry, compression threshold, the three lists and the three parts of the route, whether the
  quotation is an object of the response or a string holding its text.\<close>

theorem ReadACLResponse_doc:
  assumes "yj_tree_get yj = tree_get" "acl_ok acl"
    and "yj_tree_parse yj (c_str buf) = Some (acl_doc uri_id quotation acl)"
    and "quotation = quotation_doc (acl_quotation acl) \<or>
      (\<exists>t. quotation = YString t \<and> yj_tree_parse yj (c_str t) = Some (quotation_doc (acl_quotation acl)))"
  shows "ReadACLResponse yj buf new_acl =
    Inr (QKPACK_OK, \<lparr>acl_uri_id = ToString uri_id, acl_operation = acl_operation acl,
      acl_quotation = (acl_quotation acl)\<lparr>quo_limit := 0\<rparr>, acl_route = (acl_route acl)\<lparr>route_is_match_ip := False\<rparr>\<rparr>)"
proof -
  let ?n = "Some (acl_doc uri_id quotation acl)" and ?r = "acl_route acl"
  let ?quo = "if tree_get ?n QKPACK_ACL_QUOTATION Y_string = None then tree_get ?n QKPACK_ACL_QUOTATION Y_object
    else tree_get ?n QKPACK_ACL_QUOTATION Y_string"
  have quo: "?quo = Some quotation"
    using assms(4) by (auto simp: acl_doc_def quotation_doc_def names c_str_def NUL_def)
  have node: "quotation_node yj (Some quotation) = Some (quotation_doc (acl_quotation acl))"
    using assms(4) by (auto simp: quotation_node_def quotation_doc_def)
  have get: "tree_get ?n QKPACK_ACL_URI_ID Y_number = Some (YNumber uri_id 0)"
    "tree_get ?n QKPACK_ACL_OPERATION Y_number = Some (YNumber (acl_operation acl) 0)"
    "tree_get ?n QKPACK_ACL_ROUTE Y_object = Some (route_doc ?r)"
    by (simp_all add: acl_doc_def route_doc_def names c_str_def NUL_def)
  have route: "tree_get (Some (route_doc ?r)) QKPACK_ACL_ROUTE_DEFAULT Y_string = Some (YString (route_defaults ?r))"
    "tree_get (Some (route_doc ?r)) QKPACK_ACL_ROUTE_CLIENT Y_object = Some (YObject (map (\<lambda>(k, v). (k, YString v)) (route_map_client ?r)))"
    "tree_get (Some (route_doc ?r)) QKPACK_ACL_ROUTE_SERVER Y_object = Some (YObject (map (\<lambda>(k, v). (k, YString v)) (route_map_server ?r)))"
    by (simp_all add: route_doc_def names c_str_def NUL_def)
  have ok: "int32 (acl_operation acl)" "no_nul (route_defaults ?r)" "route_ok (route_map_client ?r)" "route_ok (route_map_server ?r)"
    using assms(2) unfolding acl_ok_def Let_def by blast+
  let ?acl = "new_acl\<lparr>acl_uri_id := ToString uri_id, acl_operation := acl_operation acl\<rparr>"
  have "ReadACLQuotation yj (Some quotation) ?acl =
    Inr (QKPACK_OK, False, upd_quo (\<lambda>q. (acl_quotation acl)\<lparr>quo_limit := quo_limit q\<rparr>) ?acl)"
    by (rule ReadACLQuotation_doc) (simp_all add: assms(1,2) node new_acl_def)
  then show ?thesis
    unfolding ReadACLResponse_def assms(3) option.case assms(1) get Let_def quo
    using ok by (simp add: route read_route_object_doc new_acl_def)
qed


theorem ReadACLResponse_doc_witness:
  "ReadACLResponse (sample_yajl ''r'' (acl_doc 1453 (quotation_doc (acl_quotation sample_acl)) sample_acl)) ''r'' new_acl =
    Inr (QKPACK_OK, sample_acl)"
proof -
  have "acl_ok sample_acl"
    by (simp add: sample_acl_def acl_ok_def int32_def no_nul_def route_ok_def smap_ok_def NUL_def)
  moreover have "ToString 1453 = ''1453''" by code_simp
  ultimately show ?thesis
    using ReadACLResponse_doc [of "sample_yajl ''r'' (acl_doc 1453 (quotation_doc (acl_quotation sample_acl)) sample_acl)"
        sample_acl "''r''" 1453 "quotation_doc (acl_quotation sample_acl)"]
    by (simp add: sample_yajl_def c_str_def NUL_def) (simp add: sample_acl_def)
qed



text \<open>A response of the authority service whose quotation is an object without an expiry or without a
  compression threshold is not refused: the reader releases the quotation and then the whole response, so
  the quotation is released twice.\<close>

theorem ReadACLResponse_double_free:
  assumes "yj_tree_get yj = tree_get" "yj_tree_parse yj (c_str buf) = Some node"
    and "tree_get (Some node) QKPACK_ACL_URI_ID Y_number = Some (YNumber u x)"
    and "tree_get (Some node) QKPACK_ACL_OPERATION Y_number = Some (YNumber p y)"
    and "tree_get (Some node) QKPACK_ACL_QUOTATION Y_object = Some quotation"
    and "tree_get (Some quotation) QKPACK_ACL_QUOTATION_EXPIRE Y_number = None \<or>
      tree_get (Some quotation) QKPACK_ACL_QUOTATION_COMMPRESSTHRESHOLD Y_number = None"
  shows "ReadACLResponse yj buf acl = Inl Double_free"
proof -
  obtain kvs where quo: "quotation = YObject kvs" "tree_get (Some node) QKPACK_ACL_QUOTATION Y_string = None"
    using assms(5) by (cases quotation) (auto simp: tree_get_def split: option.splits yajl_val.splits if_splits)
  then show ?thesis
    using assms by (auto simp: ReadACLResponse_def Let_def ReadACLQuotation_def quotation_node_def)
qed

theorem ReadACLResponse_double_free_witness:
  "ReadACLResponse (sample_yajl ''r'' (acl_doc 1453 (YObject []) sample_acl)) ''r'' new_acl = Inl Double_free"
  by (rule ReadACLResponse_double_free [where node = "acl_doc 1453 (YObject []) sample_acl" and quotation = "YObject []"])
    (simp_all add: sample_yajl_def acl_doc_def names c_str_def NUL_def)

text \<open>C33: After an MGET body is read, the keys are the objects of the request in the order of the body and
  the index of slots is exact: a slot is mapped precisely when a key hashes to it, and it then lists the
  keys that do, in order, so every key is fetched through one slot, its own.\<close>

theorem ReadJsonMget_slots:
  assumes "array_body yj QKPACK_JSON_KEYS uri ak vals (rq_request_buffer request)"
    and "list_all2 (key_elem yj) vals keys"
    and "c_str uri = pre @ CHR ''/'' # ns" "pre \<noteq> []" "CHR ''/'' \<notin> set ns" "length ns = 2"
    and "rq_vector_kv request = []" "rq_map_slots_kv request = []"
  shows "\<exists>request'. ReadJsonMget yj request = Inr (QKPACK_OK, request') \<and>
    map kv_key (rq_vector_kv request') = map c_str keys \<and> kv_namespaces (rq_kvpair request') = ns \<and>
    (\<forall>slot. smap_get (rq_map_slots_kv request') slot =
      (let is = filter (\<lambda>i. int (key_hash_slot (ns @ c_str (keys ! i))) = slot) [0..<length keys] in
       if is = [] then None else Some (map InVec is)))"
proof -
  let ?kvs = "map (\<lambda>k. new_kvpair\<lparr>kv_key := c_str k\<rparr>) keys"
  have "slot_positions ns ?kvs slot = filter (\<lambda>i. int (key_hash_slot (ns @ c_str (keys ! i))) = slot) [0..<length keys]" for slot
    by (auto simp: slot_positions_def intro!: filter_cong)
  then show ?thesis
    unfolding ReadJsonMget_def read_multi_good [of yj uri ak vals request "read_keys yj" ?kvs pre ns, OF assms(1) read_keys_good [OF assms(2)] assms(3-8)]
    by (simp add: index_slots_get comp_def)
qed

theorem ReadJsonMget_slots_witness:
  "\<exists>request'. ReadJsonMget (sample_yajl ''b'' (sample_mget [''k1'', ''k2''])) (new_request\<lparr>rq_request_buffer := ''b''\<rparr>) =
      Inr (QKPACK_OK, request') \<and> map kv_key (rq_vector_kv request') = [''k1'', ''k2'']"
proof -
  let ?y = "sample_yajl ''b'' (sample_mget [''k1'', ''k2''])" and ?r = "new_request\<lparr>rq_request_buffer := ''b''\<rparr>"
  have "array_body ?y QKPACK_JSON_KEYS ''qkd://BJTEST/Bd'' ''51v6sHF9Mk''
      (map (\<lambda>k. YObject [(QKPACK_JSON_KEY, YString k)]) [''k1'', ''k2'']) (rq_request_buffer ?r)"
    by (simp add: array_body_def sample_yajl_def sample_mget_def sample_body_fields_def names c_str_def NUL_def good_str_def accepted_def)
  moreover have "list_all2 (key_elem ?y) (map (\<lambda>k. YObject [(QKPACK_JSON_KEY, YString k)]) [''k1'', ''k2'']) [''k1'', ''k2'']"
    by (simp add: key_elem_def sample_yajl_def names c_str_def NUL_def good_str_def accepted_def)
  ultimately show ?thesis
    using ReadJsonMget_slots [of ?y "''qkd://BJTEST/Bd''" "''51v6sHF9Mk''"
        "map (\<lambda>k. YObject [(QKPACK_JSON_KEY, YString k)]) [''k1'', ''k2'']" ?r "[''k1'', ''k2'']" "''qkd://BJTEST''" "''Bd''"]
    by (auto simp: c_str_def NUL_def new_request_def)
qed

text \<open>A SADD or SREM body with a member that is not a string makes the proxy process crash, after the
  strings before it were accepted.\<close>

theorem ReadJsonSadd_nonstring:
  assumes "array_body yj QKPACK_JSON_MBS uri ak (map YString ms @ v # vals) (rq_request_buffer request)"
    and "yj_tree_parse yj (c_str (rq_request_buffer request)) = Some node"
    and "yj_tree_get yj (Some node) QKPACK_JSON_KEY Y_string = Some (YString key)" "good_str key"
    and "\<forall>m\<in>set ms. good_str m" "type_of_val v \<noteq> Y_string"
  shows "ReadJsonSadd yj request = Inl Null_deref"
proof -
  have members: "read_members (map YString ms @ v # vals) r = Inl Null_deref" for r
    using assms(5)
  proof (induction ms arbitrary: r)
    case Nil
    then show ?case
      using ValidateStrEmpty_other [of "Some v"] assms(6) by (simp add: str_or_null_def)
  next
    case (Cons m ms)
    then show ?case by (simp add: good_str_def ValidateStrEmpty_string)
  qed
  show ?thesis
    using assms(1-4)
    by (auto simp: ReadJsonSadd_def array_body_def good_str_def parse_body_def Let_def ValidateACLInfo_accepted
        validators require_str_accepted set_uri_ak_def members)
qed

theorem ReadJsonSadd_nonstring_witness:
  "ReadJsonSadd (sample_yajl ''b'' (YObject (sample_body_fields @ [(QKPACK_JSON_KEY, YString ''k''),
      (QKPACK_JSON_MBS, YArray [YString ''m2'', YNumber 3 0])]))) (new_request\<lparr>rq_request_buffer := ''b''\<rparr>) = Inl Null_deref"
  by (rule ReadJsonSadd_nonstring [of _ "''qkd://BJTEST/Bd''" "''51v6sHF9Mk''" "[''m2'']" "YNumber 3 0" "[]" _
      "YObject (sample_body_fields @ [(QKPACK_JSON_KEY, YString ''k''), (QKPACK_JSON_MBS, YArray [YString ''m2'', YNumber 3 0])])" "''k''"])
    (simp_all add: array_body_def sample_yajl_def sample_body_fields_def names c_str_def NUL_def good_str_def accepted_def)

end
