(* ===== verification/YajlWrite.thy ===== *)
theory YajlWrite
  imports YajlRead
begin

text \<open>
  The writers of \<open>parser/qkpack_yajl_json.cc\<close> and \<open>parser/qkpack_yajl_json_impl.cc\<close>.  A writer opens a
  generator, makes a sequence of \<open>yajl_gen\<close> calls, whose statuses it ignores, and copies the buffer;
  the sequence is a list of \<open>gen_call\<close>.  \<open>json\<close> is the type of JSON documents and \<open>gen_json\<close> the calls
  that print one, so a writer is correct when its calls are those of the intended document.
\<close>


section \<open>Writers\<close>

definition emit :: "yajl \<Rightarrow> bool \<Rightarrow> gen_call list \<Rightarrow> qkpack_request_t \<Rightarrow> int \<times> qkpack_request_t" where
  "emit yj beautify calls request =
    (if \<not> yj_gen_alloc yj then (QKPACK_ERROR, request)
     else case yj_gen_buf yj beautify calls of
       None \<Rightarrow> (QKPACK_ERROR, request)
     | Some buf \<Rightarrow> (QKPACK_OK, request\<lparr>rq_response_buffer := buf\<rparr>))"

definition WriterJsonCommon :: "qkpack_request_t \<Rightarrow> gen_call list" where
  "WriterJsonCommon request =
    [Gen_string QKPACK_JSON_E, Gen_map_open, Gen_string QKPACK_JSON_CODE, Gen_integer (rq_code request),
     Gen_string QKPACK_JSON_DESC, Gen_string (rq_desc request), Gen_map_close,
     Gen_string QKPACK_JSON_COST, Gen_integer (rq_cost request)]"

definition WriterJsonGet :: "yajl \<Rightarrow> qkpack_request_t \<Rightarrow> int \<times> qkpack_request_t" where
  "WriterJsonGet yj request =
    emit yj True
      ([Gen_map_open] @ WriterJsonCommon request @
       [Gen_string QKPACK_JSON_KEY, Gen_string (kv_key (rq_kvpair request)),
        Gen_string QKPACK_JSON_VALUE, Gen_string (kv_value (rq_kvpair request)), Gen_map_close]) request"

definition WriterJsonTtl :: "yajl \<Rightarrow> qkpack_request_t \<Rightarrow> int \<times> qkpack_request_t" where
  "WriterJsonTtl yj request =
    emit yj True
      ([Gen_map_open] @ WriterJsonCommon request @
       (if kv_command_type (rq_kvpair request) = REDIS_SISMEMBER
        then [Gen_string QKPACK_JSON_DATA, Gen_bool (kv_num (rq_kvpair request) \<noteq> 0)]
        else if kv_command_type (rq_kvpair request) = REDIS_SET
        then [Gen_string QKPACK_JSON_DATA, Gen_string (kv_value (rq_kvpair request))]
        else [Gen_string QKPACK_JSON_DATA, Gen_integer (kv_num (rq_kvpair request))]) @
       [Gen_map_close]) request"

definition WriterJsonSmembers :: "yajl \<Rightarrow> qkpack_request_t \<Rightarrow> int \<times> qkpack_request_t" where
  "WriterJsonSmembers yj request =
    emit yj True
      ([Gen_map_open] @ WriterJsonCommon request @
       [Gen_string QKPACK_JSON_KEY, Gen_string (kv_key (rq_kvpair request)),
        Gen_string QKPACK_JSON_MBS, Gen_array_open] @
       map (\<lambda>mb. Gen_string (zm_member mb)) (rq_vector_mbs request) @
       [Gen_array_close, Gen_map_close]) request"

definition WriterJsonMget :: "yajl \<Rightarrow> qkpack_request_t \<Rightarrow> int \<times> qkpack_request_t" where
  "WriterJsonMget yj request =
    emit yj False
      ([Gen_map_open] @ WriterJsonCommon request @ [Gen_string QKPACK_JSON_KEYS, Gen_array_open] @
       concat (map (\<lambda>kvpair.
         [Gen_map_open, Gen_string QKPACK_JSON_KEY, Gen_string (kv_key kvpair), Gen_string QKPACK_JSON_VALUE] @
         (if kv_value kvpair = [] then [Gen_string ''null''] else [Gen_string (kv_value kvpair)]) @
         [Gen_map_close]) (rq_vector_kv request)) @
       [Gen_array_close, Gen_map_close]) request"

definition WriterJsonMset :: "yajl \<Rightarrow> qkpack_request_t \<Rightarrow> int \<times> qkpack_request_t" where
  "WriterJsonMset yj request =
    emit yj True ([Gen_map_open] @ WriterJsonCommon request @ [Gen_map_close]) request"

text \<open>The count and the members of a fixed set, as both writers below print them.\<close>

definition gen_members :: "kvpair_t list \<Rightarrow> gen_call list" where
  "gen_members kvs =
    [Gen_string QKPACK_JSON_MC, Gen_integer (int (length kvs)), Gen_string QKPACK_JSON_MBS, Gen_array_open] @
    concat (map (\<lambda>kvpair.
      [Gen_map_open, Gen_string QKPACK_JSON_MB, Gen_string (kv_key kvpair), Gen_string QKPACK_JSON_SC,
       Gen_double (kv_score kvpair), Gen_string QKPACK_JSON_V, Gen_string (kv_value kvpair), Gen_map_close]) kvs) @
    [Gen_array_close]"

definition WriterJsonZfixedsetGetByScore :: "yajl \<Rightarrow> qkpack_request_t \<Rightarrow> int \<times> qkpack_request_t" where
  "WriterJsonZfixedsetGetByScore yj request =
    emit yj True
      ([Gen_map_open] @ WriterJsonCommon request @
       (case rq_map_kv request of
          [] \<Rightarrow> []
        | (key, kvs) # _ \<Rightarrow> [Gen_string QKPACK_JSON_KEY, Gen_string key] @ gen_members kvs) @
       [Gen_map_close]) request"

definition WriterJsonZfixedsetBatchGetByScore :: "yajl \<Rightarrow> qkpack_request_t \<Rightarrow> int \<times> qkpack_request_t" where
  "WriterJsonZfixedsetBatchGetByScore yj request =
    emit yj True
      ([Gen_map_open] @ WriterJsonCommon request @
       [Gen_string QKPACK_JSON_KC, Gen_integer (int (length (rq_vector_kv request))),
        Gen_string QKPACK_JSON_KEYS, Gen_array_open] @
       concat (map (\<lambda>kv.
         [Gen_map_open, Gen_string QKPACK_JSON_KEY, Gen_string (kv_key kv)] @
         (case smap_get (rq_map_kv request) (kv_key kv) of
            None \<Rightarrow>
              [Gen_string QKPACK_JSON_MC, Gen_integer 0, Gen_string QKPACK_JSON_MBS, Gen_array_open, Gen_array_close, Gen_map_close]
          | Some kvs \<Rightarrow> gen_members kvs @ [Gen_map_close])) (rq_vector_kv request)) @
       [Gen_array_close, Gen_map_close]) request"


section \<open>Documents\<close>

datatype json =
    JString bytes
  | JInt int
  | JDouble dbl
  | JBool bool
  | JObject "(bytes \<times> json) list"
  | JArray "json list"

primrec gen_json :: "json \<Rightarrow> gen_call list" where
  "gen_json (JString s) = [Gen_string s]"
| "gen_json (JInt i) = [Gen_integer i]"
| "gen_json (JDouble d) = [Gen_double d]"
| "gen_json (JBool b) = [Gen_bool b]"
| "gen_json (JObject kvs) =
    [Gen_map_open] @ concat (map (\<lambda>(k, calls). Gen_string k # calls) (map (map_prod id gen_json) kvs)) @ [Gen_map_close]"
| "gen_json (JArray vs) = [Gen_array_open] @ concat (map gen_json vs) @ [Gen_array_close]"

definition common_fields :: "qkpack_request_t \<Rightarrow> (bytes \<times> json) list" where
  "common_fields request =
    [(QKPACK_JSON_E, JObject [(QKPACK_JSON_CODE, JInt (rq_code request)), (QKPACK_JSON_DESC, JString (rq_desc request))]),
     (QKPACK_JSON_COST, JInt (rq_cost request))]"

definition respond :: "yajl \<Rightarrow> bool \<Rightarrow> (bytes \<times> json) list \<Rightarrow> qkpack_request_t \<Rightarrow> int \<times> qkpack_request_t" where
  "respond yj beautify payload request =
    emit yj beautify (gen_json (JObject (common_fields request @ payload))) request"

definition members_fields :: "kvpair_t list \<Rightarrow> (bytes \<times> json) list" where
  "members_fields kvs =
    [(QKPACK_JSON_MC, JInt (int (length kvs))),
     (QKPACK_JSON_MBS, JArray (map (\<lambda>kv. JObject [(QKPACK_JSON_MB, JString (kv_key kv)),
       (QKPACK_JSON_SC, JDouble (kv_score kv)), (QKPACK_JSON_V, JString (kv_value kv))]) kvs))]"


section \<open>Properties\<close>

lemma gen_common: "WriterJsonCommon request = concat (map (\<lambda>(k, v). Gen_string k # gen_json v) (common_fields request))"
  by (simp add: WriterJsonCommon_def common_fields_def)

lemma gen_members_fields: "gen_members kvs = concat (map (\<lambda>(k, v). Gen_string k # gen_json v) (members_fields kvs))"
  by (simp add: gen_members_def members_fields_def comp_def)

lemma gen_object:
  "gen_json (JObject kvs) = [Gen_map_open] @ concat (map (\<lambda>(k, v). Gen_string k # gen_json v) kvs) @ [Gen_map_close]"
  by (simp add: comp_def case_prod_unfold)

declare gen_json.simps(5) [simp del]

lemma WriterJsonMget_doc:
  "WriterJsonMget yj request =
    respond yj False [(QKPACK_JSON_KEYS, JArray (map (\<lambda>kv. JObject [(QKPACK_JSON_KEY, JString (kv_key kv)),
      (QKPACK_JSON_VALUE, JString (if kv_value kv = [] then ''null'' else kv_value kv))]) (rq_vector_kv request)))] request"
proof -
  have "(if v = [] then [Gen_string ''null''] else [Gen_string v]) = [Gen_string (if v = [] then ''null'' else v)]" for v
    by simp
  then show ?thesis
    by (simp add: WriterJsonMget_def respond_def gen_object gen_common comp_def)
qed

lemma WriterJsonZfixedsetBatchGetByScore_doc:
  "WriterJsonZfixedsetBatchGetByScore yj request =
    respond yj True [(QKPACK_JSON_KC, JInt (int (length (rq_vector_kv request)))),
      (QKPACK_JSON_KEYS, JArray (map (\<lambda>kv. JObject ((QKPACK_JSON_KEY, JString (kv_key kv)) #
        members_fields (smap_at [] (rq_map_kv request) (kv_key kv)))) (rq_vector_kv request)))] request"
proof -
  have "(case smap_get (rq_map_kv request) k of
      None \<Rightarrow> [Gen_string QKPACK_JSON_MC, Gen_integer 0, Gen_string QKPACK_JSON_MBS, Gen_array_open, Gen_array_close, Gen_map_close]
    | Some kvs \<Rightarrow> gen_members kvs @ [Gen_map_close]) =
    gen_members (smap_at [] (rq_map_kv request) k) @ [Gen_map_close]" for k
    by (simp add: smap_at_def gen_members_def split: option.split)
  then show ?thesis
    by (simp add: WriterJsonZfixedsetBatchGetByScore_def respond_def gen_object gen_common gen_members_fields comp_def)
qed


end
