(* ===== verification/Parser.thy ===== *)
theory Parser
  imports YajlWrite
begin

text \<open>
  The dispatcher of \<open>parser/qkpack_parser.cc\<close>: the request path selects the command, the command selects
  the reader of the body and the writer of the response.  A sub-request takes its cluster from its
  parent and, when the parent is an MGET or MSET, its command too.  \<open>QKPACK_TIME_MS_END\<close> reads the
  clock; the milliseconds since the request began are the argument \<open>elapsed\<close>.
\<close>


section \<open>Requests\<close>

definition ParseConf :: "yajl \<Rightarrow> qkpack_conf_t \<Rightarrow> (int \<times> qkpack_conf_t) result" where
  "ParseConf yj conf = ReadJsonConf yj conf"

definition ParseRequestUri :: "qkpack_request_t \<Rightarrow> int \<times> qkpack_request_t" where
  "ParseRequestUri request =
    (let uri = c_str (rq_request_uri request);
         select = (\<lambda>metrics command operation. (QKPACK_OK, upd_kv (\<lambda>kv. kv\<lparr>kv_metrics_command := metrics,
           kv_command_type := command, kv_operation_type := operation\<rparr>) request)) in
     if strcaseeq uri QKPACK_URI_GET then select QKPACK_METRICS_GET REDIS_GET QKPACK_OPERATION_READ
     else if strcaseeq uri QKPACK_URI_SET then select QKPACK_METRICS_SET REDIS_SET QKPACK_OPERATION_WRITE
     else if strcaseeq uri QKPACK_URI_DEL then select QKPACK_METRICS_DEL REDIS_DEL QKPACK_OPERATION_WRITE
     else if strcaseeq uri QKPACK_URI_TTL then select QKPACK_METRICS_TTL REDIS_TTL QKPACK_OPERATION_READ
     else if strcaseeq uri QKPACK_URI_INCR then select QKPACK_METRICS_INCR REDIS_INCR QKPACK_OPERATION_WRITE
     else if strcaseeq uri QKPACK_URI_INCRBY then select QKPACK_METRICS_INCRBY REDIS_INCRBY QKPACK_OPERATION_WRITE
     else if strcaseeq uri QKPACK_URI_SET_SADD then select QKPACK_METRICS_SADD REDIS_SADD QKPACK_OPERATION_WRITE
     else if strcaseeq uri QKPACK_URI_SET_SREM then select QKPACK_METRICS_SREM REDIS_SREM QKPACK_OPERATION_WRITE
     else if strcaseeq uri QKPACK_URI_SET_SCARD then select QKPACK_METRICS_SCARD REDIS_SCARD QKPACK_OPERATION_READ
     else if strcaseeq uri QKPACK_URI_SET_SMEMBERS then select QKPACK_METRICS_SMEMBERS REDIS_SMEMBERS QKPACK_OPERATION_READ
     else if strcaseeq uri QKPACK_URI_SET_SISMEMBER then select QKPACK_METRICS_SISMEMBER REDIS_SISMEMBER QKPACK_OPERATION_READ
     else if strcaseeq uri QKPACK_URI_MGET then select QKPACK_METRICS_MGET REDIS_MGET QKPACK_OPERATION_READ
     else if strcaseeq uri QKPACK_URI_MSET then select QKPACK_METRICS_MSET REDIS_MSET QKPACK_OPERATION_WRITE
     else if strcaseeq uri QKPACK_URI_ZFIXEDSET_ADD then select QKPACK_METRICS_ZFIXEDSETADD REDIS_ZADD QKPACK_OPERATION_WRITE
     else if strcaseeq uri QKPACK_URI_ZFIXEDSET_BATCHADD then select QKPACK_METRICS_ZFIXEDSETBATCHADD REDIS_ZBATCHADD QKPACK_OPERATION_WRITE
     else if strcaseeq uri QKPACK_URI_ZFIXEDSET_GETBYSCORE then select QKPACK_METRICS_ZFIXEDSETGETBYSCORE REDIS_ZRANGEBYSCORE QKPACK_OPERATION_READ
     else if strcaseeq uri QKPACK_URI_ZFIXEDSET_GETBYRANK then select QKPACK_METRICS_ZFIXEDSETGETBYRANK REDIS_ZRANGE QKPACK_OPERATION_READ
     else if strcaseeq uri QKPACK_URI_ZFIXEDSET_BATCHGETBYSCORE then select QKPACK_METRICS_ZFIXEDSETBATCHGETBYSCORE REDIS_BATCHZRANGEBYSCORE QKPACK_OPERATION_READ
     else (QKPACK_ERROR, request\<lparr>rq_code := QKPACK_RESPONSE_CODE_ILLEGAL_RIGHT\<rparr>))"

definition read_body :: "yajl \<Rightarrow> qkpack_request_t \<Rightarrow> (int \<times> qkpack_request_t) result" where
  "read_body yj request =
    (let command_type = kv_command_type (rq_kvpair request) in
     if command_type \<in> set [REDIS_GET, REDIS_TTL, REDIS_INCR, REDIS_DEL, REDIS_SCARD, REDIS_SMEMBERS]
     then ReadJsonGet yj request
     else if command_type \<in> set [REDIS_SET, REDIS_INCRBY, REDIS_SISMEMBER] then ReadJsonSet yj request
     else if command_type \<in> set [REDIS_SADD, REDIS_SREM] then ReadJsonSadd yj request
     else if command_type = REDIS_MGET then ReadJsonMget yj request
     else if command_type = REDIS_MSET then ReadJsonMset yj request
     else if command_type = REDIS_ZADD then ReadJsonZfixedsetAdd yj request
     else if command_type = REDIS_ZBATCHADD then ReadJsonZfixedsetBatchAdd yj request
     else if command_type \<in> set [REDIS_ZRANGEBYSCORE, REDIS_ZRANGE] then ReadJsonZfixedsetGetByScore yj request
     else if command_type = REDIS_BATCHZRANGEBYSCORE then ReadJsonZfixedsetBatchGetByScore yj request
     else Inr (QKPACK_OK, request))"

definition ParseRequestBody ::
  "yajl \<Rightarrow> qkpack_request_t option \<Rightarrow> qkpack_request_t \<Rightarrow> (int \<times> qkpack_request_t) result" where
  "ParseRequestBody yj parent request =
    (if rq_is_subrequest request then
       (case parent of
          None \<Rightarrow> Inl Null_deref
        | Some par \<Rightarrow>
            let request = request\<lparr>rq_cluster_name := rq_cluster_name par\<rparr>; kv = rq_kvpair par in
            if kv_command_type kv \<in> set [REDIS_MGET, REDIS_MSET]
            then Inr (QKPACK_OK, upd_kv (\<lambda>k. k\<lparr>kv_metrics_command := kv_metrics_command kv,
              kv_command_type := kv_command_type kv, kv_operation_type := kv_operation_type kv\<rparr>) request)
            else
              let (rc, request) = ParseRequestUri request in
              if rc \<noteq> QKPACK_OK then Inr (QKPACK_ERROR, request) else Inr (QKPACK_OK, request))
     else
       let (rc, request) = ParseRequestUri request in
       if rc \<noteq> QKPACK_OK then Inr (QKPACK_ERROR, request) else read_body yj request)"


section \<open>Responses\<close>

definition QKPACK_TIME_MS_END :: "int \<Rightarrow> qkpack_request_t \<Rightarrow> qkpack_request_t" where
  "QKPACK_TIME_MS_END elapsed request = request\<lparr>rq_cost := elapsed\<rparr>"

definition ParseResponseBody :: "yajl \<Rightarrow> int \<Rightarrow> qkpack_request_t \<Rightarrow> int \<times> qkpack_request_t" where
  "ParseResponseBody yj elapsed request =
    (let request = QKPACK_TIME_MS_END elapsed request; command_type = kv_command_type (rq_kvpair request) in
     if rq_is_subrequest request then (QKPACK_OK, request)
     else if rq_code request \<noteq> QKPACK_RESPONSE_CODE_OK then WriterJsonMset yj request
     else if command_type = REDIS_GET then WriterJsonGet yj request
     else if command_type \<in> set [REDIS_SET, REDIS_TTL, REDIS_DEL, REDIS_INCR, REDIS_INCRBY, REDIS_SADD, REDIS_SREM,
       REDIS_SCARD, REDIS_SISMEMBER] then WriterJsonTtl yj request
     else if command_type = REDIS_SMEMBERS then WriterJsonSmembers yj request
     else (QKPACK_OK, request))"

definition ParseResponseError :: "yajl \<Rightarrow> int \<Rightarrow> qkpack_request_t \<Rightarrow> int \<times> qkpack_request_t" where
  "ParseResponseError yj elapsed request =
    (let request = (if rq_code request = QKPACK_RESPONSE_CODE_OK
                    then request\<lparr>rq_code := QKPACK_RESPONSE_CODE_UNKNOWN\<rparr> else request) in
     WriterJsonMset yj (QKPACK_TIME_MS_END elapsed request))"

end
