(* ===== verification/SubRequest.thy ===== *)
theory SubRequest
  imports Parser "HOL-Library.Monad_Syntax"
begin

text \<open>
  The multi-key commands of \<open>parser/qkpack_parser_impl.cc\<close>: a phase machine that answers
  \<open>QKPACK_AGAIN\<close> with a batch of sub-requests to run and is called again when they are done.  The phases
  are the numbers of \<open>qkpack_common.h\<close>; \<open>vector_sub\<close> holds the sub-requests still to be sent and
  \<open>subrequest\<close> the batch being sent.  Iterator arithmetic outside the vector is a fault.  \<open>drive\<close> is the
  loop of the caller (\<open>ngx_http_qksubrequest_post\<close> and \<open>ngx_http_qksubrequest_start\<close>): it runs the batch
  and calls again while the answer is \<open>QKPACK_AGAIN\<close>, and may not end.
\<close>


section \<open>Helpers of the phase machine\<close>

record parser_impl =
  mset_max_count :: int
  batchadd_max_count :: int

definition FilterGetByScoreMemberNullValue :: "qkpack_request_t \<Rightarrow> qkpack_request_t" where
  "FilterGetByScoreMemberNullValue request =
    request\<lparr>rq_map_kv := filter (\<lambda>(key, kvs). kvs \<noteq> [])
      (map (\<lambda>(key, kvs). (key, filter (\<lambda>kv. kv_value kv \<noteq> ''null'') kvs)) (rq_map_kv request))\<rparr>"

definition SetSubRequest :: "subrequest_t \<Rightarrow> bytes \<Rightarrow> bytes \<Rightarrow> bytes \<Rightarrow> subrequest_t" where
  "SetSubRequest sub request_uri ak uri =
    sub\<lparr>sr_is_subrequest := True, sr_request_uri := request_uri @ ''/sub'', sr_args := ''is_subrequest=1'',
        sr_ak := ak, sr_uri := uri\<rparr>"

definition CheckSubRequestStatus :: "qkpack_request_t \<Rightarrow> int" where
  "CheckSubRequestStatus request =
    (if rq_code request \<noteq> QKPACK_RESPONSE_CODE_OK then QKPACK_ERROR else QKPACK_OK)"

definition CheckSubRequest :: "qkpack_request_t \<Rightarrow> bool" where
  "CheckSubRequest request \<longleftrightarrow>
    \<not> rq_is_subrequest request \<and>
    kv_command_type (rq_kvpair request) \<in> set [REDIS_MGET, REDIS_MSET, REDIS_ZADD, REDIS_ZBATCHADD,
      REDIS_ZRANGEBYSCORE, REDIS_ZRANGE, REDIS_BATCHZRANGEBYSCORE]"

text \<open>The sub-request of a slot and the sub-request of a key.\<close>

definition slot_sub :: "bytes \<Rightarrow> qkpack_request_t \<Rightarrow> int \<Rightarrow> subrequest_t" where
  "slot_sub path request slot =
    (let sub = SetSubRequest new_subrequest path (rq_ak request) (rq_uri request) in
     sub\<lparr>sr_args := sr_args sub @ ''&slotid='' @ ToString slot\<rparr>)"

definition add_key_args :: "qkpack_request_t \<Rightarrow> bytes \<Rightarrow> subrequest_t \<Rightarrow> subrequest_t" where
  "add_key_args request key sub =
    sub\<lparr>sr_args := sr_args sub @ ''&key='' @ key @ ''&slotid='' @
      ToString (int (key_hash_slot (kv_namespaces (rq_kvpair request) @ key)))\<rparr>"

text \<open>Moving the first \<open>n\<close> elements of \<open>vector_sub\<close> to \<open>subrequest\<close>, at most \<open>max_count\<close>.\<close>

definition move_batch :: "int \<Rightarrow> qkpack_request_t \<Rightarrow> (int \<times> qkpack_request_t) result" where
  "move_batch max_count request =
    (let vector_sub = rq_vector_sub request; sub_size = to_int (int (length vector_sub)) in
     if sub_size = 0 then Inr (QKPACK_ERROR, request)
     else
       let n = (if sub_size > max_count then max_count else sub_size) in
       if n < 0 then Inl Out_of_bounds
       else Inr (QKPACK_OK, request\<lparr>rq_subrequest := rq_subrequest request @ take (nat n) vector_sub,
              rq_vector_sub := drop (nat n) vector_sub\<rparr>))"


section \<open>MGET\<close>

definition CreateSubRequestMget :: "yajl \<Rightarrow> int \<Rightarrow> qkpack_request_t \<Rightarrow> int \<times> qkpack_request_t" where
  "CreateSubRequestMget yj elapsed request =
    (let request = (if rq_phase request = QKPACK_SUBREQUEST_START
                    then request\<lparr>rq_phase := QKPACK_SUBREQUEST_MGET\<rparr> else request) in
     if rq_phase request = QKPACK_SUBREQUEST_MGET
     then (QKPACK_AGAIN, request\<lparr>rq_subrequest := rq_subrequest request @
            map (\<lambda>(slot, kvs). slot_sub QKPACK_URI_MGET request slot) (rq_map_slots_kv request),
            rq_phase := QKPACK_SUBREQUEST_DONE\<rparr>)
     else if rq_phase request = QKPACK_SUBREQUEST_DONE
     then if CheckSubRequestStatus request \<noteq> QKPACK_OK then (QKPACK_ERROR, request)
          else WriterJsonMget yj (QKPACK_TIME_MS_END elapsed request)
     else (QKPACK_ERROR, request))"


section \<open>MSET\<close>

definition ProcessMset :: "parser_impl \<Rightarrow> int \<Rightarrow> qkpack_request_t \<Rightarrow> (int \<times> qkpack_request_t) result" where
  "ProcessMset pi elapsed request =
    (if rq_phase request = QKPACK_SUBREQUEST_MSET then
       let request = request\<lparr>rq_subrequest := []\<rparr>;
           request = (if rq_vector_sub request = []
             then request\<lparr>rq_vector_sub := map (\<lambda>(slot, kvs). slot_sub QKPACK_URI_MSET request slot) (rq_map_slots_kv request)\<rparr>
             else request) in
       bindR (move_batch (mset_max_count pi) request) (\<lambda>(rc, request).
         if rc \<noteq> QKPACK_OK then Inr (QKPACK_ERROR, request)
         else Inr (QKPACK_AGAIN, request\<lparr>rq_phase := QKPACK_SUBREQUEST_DONE\<rparr>))
     else if rq_phase request = QKPACK_SUBREQUEST_DONE then
       if CheckSubRequestStatus request \<noteq> QKPACK_OK then Inr (QKPACK_ERROR, request)
       else
         let request = QKPACK_TIME_MS_END elapsed request in
         if rq_vector_sub request \<noteq> [] then Inr (QKPACK_AGAIN, request\<lparr>rq_phase := QKPACK_SUBREQUEST_MSET\<rparr>)
         else Inr (QKPACK_OK, request)
     else Inr (QKPACK_ERROR, request))"

definition CreateSubRequestMset ::
  "parser_impl \<Rightarrow> yajl \<Rightarrow> int \<Rightarrow> qkpack_request_t \<Rightarrow> (int \<times> qkpack_request_t) result" where
  "CreateSubRequestMset pi yj elapsed request =
    (let request = (if rq_phase request = QKPACK_SUBREQUEST_START
                    then request\<lparr>rq_phase := QKPACK_SUBREQUEST_MSET\<rparr> else request) in
     bindR (ProcessMset pi elapsed request) (\<lambda>(rc, request).
       if rc = QKPACK_AGAIN \<and> rq_phase request = QKPACK_SUBREQUEST_MSET then ProcessMset pi elapsed request
       else if rc = QKPACK_AGAIN \<and> rq_phase request = QKPACK_SUBREQUEST_DONE then Inr (QKPACK_AGAIN, request)
       else if rc \<noteq> QKPACK_OK then Inr (QKPACK_ERROR, request)
       else Inr (WriterJsonMset yj request)))"


section \<open>Fixed sets\<close>

definition zadd_sub :: "qkpack_request_t \<Rightarrow> bytes \<Rightarrow> subrequest_t" where
  "zadd_sub request key =
    add_key_args request key (SetSubRequest new_subrequest QKPACK_URI_ZFIXEDSET_ADD (rq_ak request) (rq_uri request))"

definition CreateSubRequestZfixedsetAdd ::
  "parser_impl \<Rightarrow> yajl \<Rightarrow> int \<Rightarrow> qkpack_request_t \<Rightarrow> (int \<times> qkpack_request_t) result" where
  "CreateSubRequestZfixedsetAdd pi yj elapsed request =
    (let request = (if rq_phase request = QKPACK_SUBREQUEST_START
                    then request\<lparr>rq_phase := QKPACK_SUBREQUEST_ZFIXEDSET_ADD\<rparr> else request) in
     if rq_phase request = QKPACK_SUBREQUEST_ZFIXEDSET_ADD then
       let request = request\<lparr>rq_subrequest := []\<rparr>;
           request = (if rq_vector_sub request = []
             then request\<lparr>rq_vector_sub := map (\<lambda>(key, kvs). zadd_sub request key) (rq_map_kv request)\<rparr>
             else request) in
       bindR (move_batch (batchadd_max_count pi) request) (\<lambda>(rc, request).
         if rc \<noteq> QKPACK_OK then Inr (QKPACK_ERROR, request)
         else Inr (QKPACK_AGAIN, request\<lparr>rq_phase := QKPACK_SUBREQUEST_MSET\<rparr>))
     else if rq_phase request = QKPACK_SUBREQUEST_MSET then
       if CheckSubRequestStatus request \<noteq> QKPACK_OK then Inr (QKPACK_ERROR, request)
       else
         let request = request\<lparr>rq_subrequest := []\<rparr> in
         if rq_vector_sub request \<noteq> [] then Inr (QKPACK_AGAIN, request\<lparr>rq_phase := QKPACK_SUBREQUEST_ZFIXEDSET_BATCHADD\<rparr>)
         else CreateSubRequestMset pi yj elapsed request
     else CreateSubRequestMset pi yj elapsed request)"

definition ProcessZfixedsetBatchAdd ::
  "parser_impl \<Rightarrow> yajl \<Rightarrow> int \<Rightarrow> qkpack_request_t \<Rightarrow> (int \<times> qkpack_request_t) result" where
  "ProcessZfixedsetBatchAdd pi yj elapsed request =
    CreateSubRequestZfixedsetAdd pi yj elapsed
      (if rq_phase request = QKPACK_SUBREQUEST_ZFIXEDSET_BATCHADD
       then request\<lparr>rq_phase := QKPACK_SUBREQUEST_ZFIXEDSET_ADD\<rparr> else request)"

definition CreateSubRequestZfixedsetBatchAdd ::
  "parser_impl \<Rightarrow> yajl \<Rightarrow> int \<Rightarrow> qkpack_request_t \<Rightarrow> (int \<times> qkpack_request_t) result" where
  "CreateSubRequestZfixedsetBatchAdd pi yj elapsed request =
    (let request = (if rq_phase request = QKPACK_SUBREQUEST_START
                    then request\<lparr>rq_phase := QKPACK_SUBREQUEST_ZFIXEDSET_BATCHADD\<rparr> else request) in
     bindR (ProcessZfixedsetBatchAdd pi yj elapsed request) (\<lambda>(rc, request).
       if rc = QKPACK_AGAIN \<and> rq_phase request = QKPACK_SUBREQUEST_ZFIXEDSET_BATCHADD
       then ProcessZfixedsetBatchAdd pi yj elapsed request
       else Inr (rc, request)))"

definition query_sub :: "qkpack_request_t \<Rightarrow> bytes \<Rightarrow> subrequest_t" where
  "query_sub request key =
    (let command_type = kv_command_type (rq_kvpair request) in
     add_key_args request key
       (if command_type = REDIS_ZRANGEBYSCORE \<or> command_type = REDIS_BATCHZRANGEBYSCORE
        then SetSubRequest new_subrequest QKPACK_URI_ZFIXEDSET_GETBYSCORE (rq_ak request) (rq_uri request)
        else if command_type = REDIS_ZRANGE
        then SetSubRequest new_subrequest QKPACK_URI_ZFIXEDSET_GETBYRANK (rq_ak request) (rq_uri request)
        else new_subrequest))"

text \<open>The last phase: the answer without the members whose value is missing.\<close>

definition finish_getbyscore :: "yajl \<Rightarrow> int \<Rightarrow> qkpack_request_t \<Rightarrow> int \<times> qkpack_request_t" where
  "finish_getbyscore yj elapsed request =
    (if CheckSubRequestStatus request \<noteq> QKPACK_OK then (QKPACK_ERROR, request)
     else
       let request = QKPACK_TIME_MS_END elapsed (FilterGetByScoreMemberNullValue request) in
       if kv_command_type (rq_kvpair request) = REDIS_BATCHZRANGEBYSCORE
       then WriterJsonZfixedsetBatchGetByScore yj request
       else WriterJsonZfixedsetGetByScore yj request)"

definition CreateSubRequestZfixedsetGetByScore :: "yajl \<Rightarrow> int \<Rightarrow> qkpack_request_t \<Rightarrow> int \<times> qkpack_request_t" where
  "CreateSubRequestZfixedsetGetByScore yj elapsed request =
    (let request = (if rq_phase request = QKPACK_SUBREQUEST_START
                    then request\<lparr>rq_phase := QKPACK_SUBREQUEST_ZFIXEDSET_GETBYSCORE\<rparr> else request) in
     if rq_phase request = QKPACK_SUBREQUEST_ZFIXEDSET_GETBYSCORE
     then (QKPACK_AGAIN, request\<lparr>rq_subrequest := map (\<lambda>(key, q). query_sub request key) (rq_map_query request),
            rq_phase := QKPACK_SUBREQUEST_MGET\<rparr>)
     else if rq_phase request = QKPACK_SUBREQUEST_MGET then
       if CheckSubRequestStatus request \<noteq> QKPACK_OK then (QKPACK_ERROR, request)
       else
         let request = fold (\<lambda>(key, kvs). index_map_entry key kvs) (rq_map_kv request) (request\<lparr>rq_subrequest := []\<rparr>) in
         if rq_map_slots_kv request \<noteq> [] then CreateSubRequestMget yj elapsed request
         else finish_getbyscore yj elapsed (request\<lparr>rq_phase := QKPACK_SUBREQUEST_DONE\<rparr>)
     else if rq_phase request = QKPACK_SUBREQUEST_DONE then finish_getbyscore yj elapsed request
     else (QKPACK_ERROR, request))"

definition CreateSubRequestZfixedsetBatchGetByScore :: "yajl \<Rightarrow> int \<Rightarrow> qkpack_request_t \<Rightarrow> int \<times> qkpack_request_t" where
  "CreateSubRequestZfixedsetBatchGetByScore yj elapsed request =
    (let request = (if rq_phase request = QKPACK_SUBREQUEST_START
                    then request\<lparr>rq_phase := QKPACK_SUBREQUEST_ZFIXEDSET_BATCHGETBYSCORE\<rparr> else request);
         request = (if rq_phase request = QKPACK_SUBREQUEST_ZFIXEDSET_BATCHGETBYSCORE
                    then request\<lparr>rq_phase := QKPACK_SUBREQUEST_ZFIXEDSET_GETBYSCORE\<rparr> else request) in
     CreateSubRequestZfixedsetGetByScore yj elapsed request)"

definition CreateSubRequestBody ::
  "parser_impl \<Rightarrow> yajl \<Rightarrow> int \<Rightarrow> qkpack_request_t \<Rightarrow> (int \<times> qkpack_request_t) result" where
  "CreateSubRequestBody pi yj elapsed request =
    (let command_type = kv_command_type (rq_kvpair request) in
     if rq_code request \<noteq> QKPACK_RESPONSE_CODE_OK then Inr (QKPACK_ERROR, request)
     else if command_type = REDIS_MGET then Inr (CreateSubRequestMget yj elapsed request)
     else if command_type = REDIS_MSET then CreateSubRequestMset pi yj elapsed request
     else if command_type = REDIS_ZADD then CreateSubRequestZfixedsetAdd pi yj elapsed request
     else if command_type = REDIS_ZBATCHADD then CreateSubRequestZfixedsetBatchAdd pi yj elapsed request
     else if command_type = REDIS_ZRANGEBYSCORE \<or> command_type = REDIS_ZRANGE
     then Inr (CreateSubRequestZfixedsetGetByScore yj elapsed request)
     else if command_type = REDIS_BATCHZRANGEBYSCORE then Inr (CreateSubRequestZfixedsetBatchGetByScore yj elapsed request)
     else Inr (QKPACK_ERROR, request))"


section \<open>The caller\<close>

text \<open>\<open>create n\<close> is the call of round \<open>n\<close>, which may read the clock; \<open>serve\<close> is what running a batch does to
  the request.  The result is the list of the batches and the final answer; \<open>None\<close> means the loop never
  ends.\<close>

partial_function (option) drive ::
  "(subrequest_t list \<Rightarrow> qkpack_request_t \<Rightarrow> qkpack_request_t) \<Rightarrow>
   (nat \<Rightarrow> qkpack_request_t \<Rightarrow> (int \<times> qkpack_request_t) result) \<Rightarrow> nat \<Rightarrow> qkpack_request_t \<Rightarrow>
   (subrequest_t list list \<times> (int \<times> qkpack_request_t) result) option" where
  "drive serve create n request =
    (case create n request of
       Inl e \<Rightarrow> Some ([], Inl e)
     | Inr (rc, r) \<Rightarrow>
         if rc = QKPACK_AGAIN
         then Option.bind (drive serve create (Suc n) (serve (rq_subrequest r) r))
           (\<lambda>(batches, res). Some (rq_subrequest r # batches, res))
         else Some ([], Inr (rc, r)))"


section \<open>Specification\<close>

text \<open>Consecutive pieces of at most \<open>n\<close> elements.\<close>

function chunks :: "nat \<Rightarrow> 'a list \<Rightarrow> 'a list list" where
  "chunks n xs = (if n = 0 \<or> xs = [] then [] else take n xs # chunks n (drop n xs))"
  by auto
termination by (relation "measure (\<lambda>(n, xs). length xs)") auto

declare chunks.simps [simp del]

definition prepend :: "'a list \<Rightarrow> ('a list \<times> 'b) option \<Rightarrow> ('a list \<times> 'b) option" where
  "prepend bs res = map_option (apfst ((@) bs)) res"

text \<open>What the running of sub-requests leaves alone when none of them fails: phase, queue, status, the
  parsed command, and the keys of the index and of the members.\<close>

definition agree :: "qkpack_request_t \<Rightarrow> qkpack_request_t \<Rightarrow> bool" where
  "agree r r' \<longleftrightarrow> rq_code r' = rq_code r \<and> rq_kvpair r' = rq_kvpair r \<and> rq_ak r' = rq_ak r \<and> rq_uri r' = rq_uri r \<and>
    map fst (rq_map_slots_kv r') = map fst (rq_map_slots_kv r) \<and> map fst (rq_map_kv r') = map fst (rq_map_kv r)"

definition serve_ok :: "(subrequest_t list \<Rightarrow> qkpack_request_t \<Rightarrow> qkpack_request_t) \<Rightarrow> bool" where
  "serve_ok serve \<longleftrightarrow> (\<forall>subs r. agree r (serve subs r) \<and> rq_phase (serve subs r) = rq_phase r \<and>
    rq_vector_sub (serve subs r) = rq_vector_sub r)"

definition mset_subs :: "qkpack_request_t \<Rightarrow> subrequest_t list" where
  "mset_subs r = map (slot_sub QKPACK_URI_MSET r) (map fst (rq_map_slots_kv r))"

definition zadd_subs :: "qkpack_request_t \<Rightarrow> subrequest_t list" where
  "zadd_subs r = map (zadd_sub r) (map fst (rq_map_kv r))"

definition mset_waiting ::
  "parser_impl \<Rightarrow> (subrequest_t list \<Rightarrow> qkpack_request_t \<Rightarrow> qkpack_request_t) \<Rightarrow> qkpack_request_t \<Rightarrow>
   subrequest_t list \<Rightarrow> qkpack_request_t \<Rightarrow> bool" where
  "mset_waiting pi serve r0 rest r \<longleftrightarrow> serve_ok serve \<and> 0 < mset_max_count pi \<and> agree r0 r \<and>
    rq_code r0 = QKPACK_RESPONSE_CODE_OK \<and> kv_command_type (rq_kvpair r0) \<in> {REDIS_MSET, REDIS_ZADD, REDIS_ZBATCHADD} \<and>
    rq_phase r = QKPACK_SUBREQUEST_DONE \<and> rq_vector_sub r = rest \<and> length rest < 2 ^ 31"

definition zadd_waiting ::
  "parser_impl \<Rightarrow> (subrequest_t list \<Rightarrow> qkpack_request_t \<Rightarrow> qkpack_request_t) \<Rightarrow> qkpack_request_t \<Rightarrow>
   subrequest_t list \<Rightarrow> qkpack_request_t \<Rightarrow> bool" where
  "zadd_waiting pi serve r0 rest r \<longleftrightarrow> serve_ok serve \<and> 0 < batchadd_max_count pi \<and> agree r0 r \<and>
    rq_code r0 = QKPACK_RESPONSE_CODE_OK \<and> kv_command_type (rq_kvpair r0) = REDIS_ZBATCHADD \<and>
    rq_phase r = QKPACK_SUBREQUEST_MSET \<and> rq_vector_sub r = rest \<and> length rest < 2 ^ 31"


definition sample_mset_request :: qkpack_request_t where
  "sample_mset_request = new_request\<lparr>rq_map_slots_kv := [(3, [InVec 0]), (5, [InVec 1]), (9, [InVec 2])],
     rq_kvpair := new_kvpair\<lparr>kv_command_type := REDIS_MSET\<rparr>\<rparr>"

definition sample_batchadd_request :: qkpack_request_t where
  "sample_batchadd_request = new_request\<lparr>rq_map_kv := [(''u1'', []), (''u2'', [])],
     rq_map_slots_kv := [(3, [InMap ''u1'' 0]), (5, [InMap ''u1'' 1]), (9, [InMap ''u2'' 0])],
     rq_kvpair := new_kvpair\<lparr>kv_command_type := REDIS_ZBATCHADD\<rparr>\<rparr>"


section \<open>The caller's loop and the pieces\<close>

lemma prepend_simps [simp]:
  "prepend [] res = res" "prepend as (prepend bs res) = prepend (as @ bs) res" "prepend bs None = None"
  "prepend bs (Some (cs, x)) = Some (bs @ cs, x)"
  by (cases res; auto simp: prepend_def)+

lemma drive_again:
  "create n r = Inr (QKPACK_AGAIN, r') \<Longrightarrow>
   drive serve create n r = prepend [rq_subrequest r'] (drive serve create (Suc n) (serve (rq_subrequest r') r'))"
  by (subst drive.simps) (cases "drive serve create (Suc n) (serve (rq_subrequest r') r')"; auto)

lemma drive_stop: "create n r = Inr (rc, r') \<Longrightarrow> rc \<noteq> QKPACK_AGAIN \<Longrightarrow> drive serve create n r = Some ([], Inr (rc, r'))"
  by (subst drive.simps) simp

lemma drive_diverges:
  assumes step: "\<And>n r. stuck r \<Longrightarrow> \<exists>r'. create n r = Inr (QKPACK_AGAIN, r') \<and> stuck (serve (rq_subrequest r') r')"
    and "stuck r"
  shows "drive serve create n r = None"
proof -
  have "s = serve \<longrightarrow> c = create \<longrightarrow> \<not> stuck r" if "drive s c n r = Some y" for s c n r y
    using that
  proof (rule drive.raw_induct [where P = "\<lambda>s c n r _. s = serve \<longrightarrow> c = create \<longrightarrow> \<not> stuck r", rotated])
    fix f s c n r y
    assume IH: "\<And>s c n r y. f s c n r = Some y \<Longrightarrow> s = serve \<longrightarrow> c = create \<longrightarrow> \<not> stuck r"
      and body: "(case c n r of Inl e \<Rightarrow> Some ([], Inl e) | Inr (rc, r) \<Rightarrow>
        if rc = QKPACK_AGAIN then f s c (Suc n) (s (rq_subrequest r) r) \<bind> (\<lambda>(batches, res). Some (rq_subrequest r # batches, res))
        else Some ([], Inr (rc, r))) = Some y"
    show "s = serve \<longrightarrow> c = create \<longrightarrow> \<not> stuck r"
    proof (intro impI notI)
      assume "s = serve" "c = create" "stuck r"
      then obtain r' where "c n r = Inr (QKPACK_AGAIN, r')" "stuck (s (rq_subrequest r') r')" using step by blast
      moreover from this obtain y' where "f s c (Suc n) (s (rq_subrequest r') r') = Some y'"
        using body by (cases "f s c (Suc n) (s (rq_subrequest r') r')") auto
      ultimately show False using IH \<open>s = serve\<close> \<open>c = create\<close> by blast
    qed
  qed
  then show ?thesis using \<open>stuck r\<close> by (cases "drive serve create n r") auto
qed

lemma chunks_Nil [simp]: "chunks n [] = []"
  by (simp add: chunks.simps)

lemma chunks_step: "0 < n \<Longrightarrow> xs \<noteq> [] \<Longrightarrow> chunks n xs = take n xs # chunks n (drop n xs)"
  by (subst chunks.simps) simp

lemma concat_chunks: "0 < n \<Longrightarrow> concat (chunks n xs) = xs"
  by (induction n xs rule: chunks.induct) (subst chunks.simps, simp)

lemma chunks_bounds: "c \<in> set (chunks n xs) \<Longrightarrow> c \<noteq> [] \<and> length c \<le> n"
  by (induction n xs rule: chunks.induct) (subst (asm) (2) chunks.simps, auto split: if_splits)


section \<open>The contract of a batching phase\<close>

text \<open>A phase that, while sub-requests are left, asks for the next batch of at most \<open>size\<close> and keeps the
  others.  It sends them all, in order, in consecutive batches.\<close>

locale batch_phase =
  fixes create :: "nat \<Rightarrow> qkpack_request_t \<Rightarrow> (int \<times> qkpack_request_t) result"
    and serve :: "subrequest_t list \<Rightarrow> qkpack_request_t \<Rightarrow> qkpack_request_t"
    and waiting :: "subrequest_t list \<Rightarrow> qkpack_request_t \<Rightarrow> bool"
    and batch :: nat
  assumes positive: "waiting rest r \<Longrightarrow> 0 < batch"
    and step: "waiting rest r \<Longrightarrow> rest \<noteq> [] \<Longrightarrow> \<exists>r'. create n r = Inr (QKPACK_AGAIN, r') \<and>
      rq_subrequest r' = take batch rest \<and> waiting (drop batch rest) (serve (take batch rest) r')"
begin

lemma drains:
  "waiting rest r \<Longrightarrow> \<exists>m r'. waiting [] r' \<and> drive serve create n r = prepend (chunks batch rest) (drive serve create m r')"
proof (induction rest arbitrary: r n rule: length_induct)
  case (1 rest)
  show ?case
  proof (cases "rest = []")
    case True
    then show ?thesis using 1(2) by (intro exI [of _ n] exI [of _ r]) simp
  next
    case False
    then obtain r' where r': "create n r = Inr (QKPACK_AGAIN, r')" "rq_subrequest r' = take batch rest"
        "waiting (drop batch rest) (serve (take batch rest) r')"
      using step [OF 1(2)] by blast
    have "length (drop batch rest) < length rest" using positive [OF 1(2)] False by simp
    then obtain m r'' where m: "waiting [] r''" "drive serve create (Suc n) (serve (take batch rest) r') =
        prepend (chunks batch (drop batch rest)) (drive serve create m r'')"
      using 1(1) r'(3) by blast
    then show ?thesis
      using drive_again [of create n r r' serve] r'(1,2) m positive [OF 1(2)] False by (auto simp: chunks_step)
  qed
qed

end


section \<open>Lemmas\<close>

lemmas phases = QKPACK_SUBREQUEST_START_def QKPACK_SUBREQUEST_MGET_def QKPACK_SUBREQUEST_MSET_def
  QKPACK_SUBREQUEST_ZFIXEDSET_ADD_def QKPACK_SUBREQUEST_ZFIXEDSET_BATCHADD_def
  QKPACK_SUBREQUEST_ZFIXEDSET_GETBYSCORE_def QKPACK_SUBREQUEST_ZFIXEDSET_BATCHGETBYSCORE_def QKPACK_SUBREQUEST_DONE_def

lemmas commands = REDIS_MGET_def REDIS_MSET_def REDIS_ZADD_def REDIS_ZBATCHADD_def REDIS_ZRANGEBYSCORE_def
  REDIS_ZRANGE_def REDIS_BATCHZRANGEBYSCORE_def

lemma AGAIN_neq [simp]: "QKPACK_AGAIN \<noteq> QKPACK_OK" "QKPACK_OK \<noteq> QKPACK_AGAIN" "QKPACK_AGAIN \<noteq> QKPACK_ERROR"
  "QKPACK_ERROR \<noteq> QKPACK_AGAIN"
  by (simp_all add: codes)

lemma agree_refl [simp]: "agree r r"
  by (simp add: agree_def)

lemma agree_trans: "agree r s \<Longrightarrow> agree s t \<Longrightarrow> agree r t"
  by (simp add: agree_def)

lemma agree_queue:
  "agree r (s\<lparr>rq_vector_sub := b\<rparr>) = agree r s"
  "agree r (s\<lparr>rq_subrequest := a\<rparr>) = agree r s"
  "agree r (s\<lparr>rq_phase := p\<rparr>) = agree r s"
  "agree r (QKPACK_TIME_MS_END t s) = agree r s"
  by (simp_all add: agree_def QKPACK_TIME_MS_END_def)

lemma move_batch_some:
  assumes "rq_vector_sub r = rest" "rest \<noteq> []" "length rest < 2 ^ 31" "0 < max_count"
  shows "move_batch max_count r = Inr (QKPACK_OK, r\<lparr>rq_subrequest := rq_subrequest r @ take (nat max_count) rest,
    rq_vector_sub := drop (nat max_count) rest\<rparr>)"
  using assms by (auto simp: move_batch_def Let_def)

lemma ProcessMset_batch:
  assumes "rq_phase r = QKPACK_SUBREQUEST_MSET" "rq_vector_sub r = rest" "rest \<noteq> []" "length rest < 2 ^ 31" "0 < mset_max_count pi"
  shows "ProcessMset pi t r = Inr (QKPACK_AGAIN, r\<lparr>rq_subrequest := take (nat (mset_max_count pi)) rest,
    rq_vector_sub := drop (nat (mset_max_count pi)) rest, rq_phase := QKPACK_SUBREQUEST_DONE\<rparr>)"
  using assms by (simp add: ProcessMset_def Let_def move_batch_some)

lemma CreateSubRequestMset_next:
  assumes "rq_phase r = QKPACK_SUBREQUEST_DONE" "rq_code r = QKPACK_RESPONSE_CODE_OK" "rq_vector_sub r = rest" "rest \<noteq> []"
    "length rest < 2 ^ 31" "0 < mset_max_count pi"
  shows "CreateSubRequestMset pi yj t r = Inr (QKPACK_AGAIN, (QKPACK_TIME_MS_END t r)\<lparr>rq_subrequest := take (nat (mset_max_count pi)) rest,
    rq_vector_sub := drop (nat (mset_max_count pi)) rest, rq_phase := QKPACK_SUBREQUEST_DONE\<rparr>)"
proof -
  have "ProcessMset pi t r = Inr (QKPACK_AGAIN, (QKPACK_TIME_MS_END t r)\<lparr>rq_phase := QKPACK_SUBREQUEST_MSET\<rparr>)"
    using assms by (simp add: ProcessMset_def phases CheckSubRequestStatus_def QKPACK_TIME_MS_END_def)
  then show ?thesis
    using assms ProcessMset_batch [of "(QKPACK_TIME_MS_END t r)\<lparr>rq_phase := QKPACK_SUBREQUEST_MSET\<rparr>" rest pi t]
    by (simp add: CreateSubRequestMset_def phases QKPACK_TIME_MS_END_def)
qed

lemma CreateSubRequestMset_end:
  assumes "rq_phase r = QKPACK_SUBREQUEST_DONE" "rq_code r = QKPACK_RESPONSE_CODE_OK" "rq_vector_sub r = []"
  shows "CreateSubRequestMset pi yj t r = Inr (WriterJsonMset yj (QKPACK_TIME_MS_END t r))"
  using assms by (simp add: CreateSubRequestMset_def ProcessMset_def phases CheckSubRequestStatus_def QKPACK_TIME_MS_END_def)

text \<open>In the final phase the three writing commands behave alike.\<close>

lemma CreateSubRequestBody_done:
  assumes "rq_phase r = QKPACK_SUBREQUEST_DONE" "rq_code r = QKPACK_RESPONSE_CODE_OK"
    "kv_command_type (rq_kvpair r) \<in> {REDIS_MSET, REDIS_ZADD, REDIS_ZBATCHADD}"
    "CreateSubRequestMset pi yj t r = Inr (rc, r')" "rc = QKPACK_AGAIN \<longrightarrow> rq_phase r' \<noteq> QKPACK_SUBREQUEST_ZFIXEDSET_BATCHADD"
  shows "CreateSubRequestBody pi yj t r = Inr (rc, r')"
  using assms
  by (auto simp: CreateSubRequestBody_def CreateSubRequestZfixedsetAdd_def CreateSubRequestZfixedsetBatchAdd_def
      ProcessZfixedsetBatchAdd_def Let_def phases commands)

lemma Writer_rc: "WriterJsonMset yj r = (rc, r') \<Longrightarrow> rc \<noteq> QKPACK_AGAIN"
  by (auto simp: WriterJsonMset_def emit_def split: if_splits option.splits)

interpretation mset: batch_phase "\<lambda>n. CreateSubRequestBody pi yj (clock n)" serve "mset_waiting pi serve r0" "nat (mset_max_count pi)"
  for pi yj clock serve r0
proof unfold_locales
  fix rest r n
  assume w: "mset_waiting pi serve r0 rest r" and "rest \<noteq> []"
  let ?m = "nat (mset_max_count pi)"
  let ?r = "(QKPACK_TIME_MS_END (clock n) r)\<lparr>rq_subrequest := take ?m rest, rq_vector_sub := drop ?m rest, rq_phase := QKPACK_SUBREQUEST_DONE\<rparr>"
  have "CreateSubRequestMset pi yj (clock n) r = Inr (QKPACK_AGAIN, ?r)"
    using w \<open>rest \<noteq> []\<close> by (intro CreateSubRequestMset_next) (auto simp: mset_waiting_def agree_def)
  then have "CreateSubRequestBody pi yj (clock n) r = Inr (QKPACK_AGAIN, ?r)"
    using w by (intro CreateSubRequestBody_done) (auto simp: mset_waiting_def agree_def phases)
  moreover have "mset_waiting pi serve r0 (drop ?m rest) (serve (take ?m rest) ?r)"
  proof -
    have "serve_ok serve" "agree r0 ?r" using w by (simp_all add: mset_waiting_def agree_queue)
    then have "agree r0 (serve (take ?m rest) ?r)" "rq_phase (serve (take ?m rest) ?r) = QKPACK_SUBREQUEST_DONE"
      "rq_vector_sub (serve (take ?m rest) ?r) = drop ?m rest"
      using agree_trans by (fastforce simp: serve_ok_def)+
    then show ?thesis using w by (auto simp: mset_waiting_def)
  qed
  ultimately show "\<exists>r'. CreateSubRequestBody pi yj (clock n) r = Inr (QKPACK_AGAIN, r') \<and>
      rq_subrequest r' = take ?m rest \<and> mset_waiting pi serve r0 (drop ?m rest) (serve (take ?m rest) r')"
    by (intro exI [of _ ?r]) simp
qed (auto simp: mset_waiting_def)


lemma BatchAdd_batch:
  assumes "rq_phase r = QKPACK_SUBREQUEST_ZFIXEDSET_ADD" "rq_vector_sub r = rest" "rest \<noteq> []" "length rest < 2 ^ 31"
    "0 < batchadd_max_count pi"
  shows "CreateSubRequestZfixedsetAdd pi yj t r = Inr (QKPACK_AGAIN, r\<lparr>rq_subrequest := take (nat (batchadd_max_count pi)) rest,
    rq_vector_sub := drop (nat (batchadd_max_count pi)) rest, rq_phase := QKPACK_SUBREQUEST_MSET\<rparr>)"
  using assms by (simp add: CreateSubRequestZfixedsetAdd_def Let_def move_batch_some phases)

lemma BatchAdd_next:
  assumes "rq_phase r = QKPACK_SUBREQUEST_MSET" "rq_code r = QKPACK_RESPONSE_CODE_OK" "rq_vector_sub r = rest" "rest \<noteq> []"
    "length rest < 2 ^ 31" "0 < batchadd_max_count pi"
  shows "CreateSubRequestZfixedsetBatchAdd pi yj t r = Inr (QKPACK_AGAIN, r\<lparr>rq_subrequest := take (nat (batchadd_max_count pi)) rest,
    rq_vector_sub := drop (nat (batchadd_max_count pi)) rest, rq_phase := QKPACK_SUBREQUEST_MSET\<rparr>)"
proof -
  have "ProcessZfixedsetBatchAdd pi yj t r = Inr (QKPACK_AGAIN, r\<lparr>rq_subrequest := [], rq_phase := QKPACK_SUBREQUEST_ZFIXEDSET_BATCHADD\<rparr>)"
    using assms by (simp add: ProcessZfixedsetBatchAdd_def CreateSubRequestZfixedsetAdd_def CheckSubRequestStatus_def phases)
  moreover have "ProcessZfixedsetBatchAdd pi yj t (r\<lparr>rq_subrequest := [], rq_phase := QKPACK_SUBREQUEST_ZFIXEDSET_BATCHADD\<rparr>) =
      Inr (QKPACK_AGAIN, r\<lparr>rq_subrequest := take (nat (batchadd_max_count pi)) rest,
        rq_vector_sub := drop (nat (batchadd_max_count pi)) rest, rq_phase := QKPACK_SUBREQUEST_MSET\<rparr>)"
    using assms BatchAdd_batch [of "r\<lparr>rq_subrequest := [], rq_phase := QKPACK_SUBREQUEST_ZFIXEDSET_ADD\<rparr>" rest pi yj t]
    by (simp add: ProcessZfixedsetBatchAdd_def)
  ultimately show ?thesis
    using assms(1) by (simp add: CreateSubRequestZfixedsetBatchAdd_def phases)
qed

interpretation zadd: batch_phase "\<lambda>n. CreateSubRequestBody pi yj (clock n)" serve "zadd_waiting pi serve r0" "nat (batchadd_max_count pi)"
  for pi yj clock serve r0
proof unfold_locales
  fix rest r n
  assume w: "zadd_waiting pi serve r0 rest r" and "rest \<noteq> []"
  let ?m = "nat (batchadd_max_count pi)"
  let ?r = "r\<lparr>rq_subrequest := take ?m rest, rq_vector_sub := drop ?m rest, rq_phase := QKPACK_SUBREQUEST_MSET\<rparr>"
  have "CreateSubRequestZfixedsetBatchAdd pi yj (clock n) r = Inr (QKPACK_AGAIN, ?r)"
    using w \<open>rest \<noteq> []\<close> by (intro BatchAdd_next) (auto simp: zadd_waiting_def agree_def)
  then have "CreateSubRequestBody pi yj (clock n) r = Inr (QKPACK_AGAIN, ?r)"
    using w by (simp add: CreateSubRequestBody_def zadd_waiting_def agree_def commands)
  moreover have "zadd_waiting pi serve r0 (drop ?m rest) (serve (take ?m rest) ?r)"
  proof -
    have "serve_ok serve" "agree r0 ?r" using w by (simp_all add: zadd_waiting_def agree_queue)
    then have "agree r0 (serve (take ?m rest) ?r)" "rq_phase (serve (take ?m rest) ?r) = QKPACK_SUBREQUEST_MSET"
      "rq_vector_sub (serve (take ?m rest) ?r) = drop ?m rest"
      using agree_trans by (fastforce simp: serve_ok_def)+
    then show ?thesis using w by (auto simp: zadd_waiting_def)
  qed
  ultimately show "\<exists>r'. CreateSubRequestBody pi yj (clock n) r = Inr (QKPACK_AGAIN, r') \<and>
      rq_subrequest r' = take ?m rest \<and> zadd_waiting pi serve r0 (drop ?m rest) (serve (take ?m rest) r')"
    by (intro exI [of _ ?r]) simp
qed (auto simp: zadd_waiting_def)

text \<open>The end of the writing commands: all batches of the MSET phase, then the answer.\<close>

lemma mset_drive:
  assumes "mset_waiting pi serve r0 rest r"
  shows "\<exists>r' t. drive serve (\<lambda>n. CreateSubRequestBody pi yj (clock n)) n r =
    Some (chunks (nat (mset_max_count pi)) rest, Inr (WriterJsonMset yj (QKPACK_TIME_MS_END t r'))) \<and> agree r0 r'"
proof -
  let ?c = "\<lambda>n. CreateSubRequestBody pi yj (clock n)"
  obtain m r' where r': "mset_waiting pi serve r0 [] r'"
      "drive serve ?c n r = prepend (chunks (nat (mset_max_count pi)) rest) (drive serve ?c m r')"
    using mset.drains [OF assms] by blast
  obtain rc r'' where w: "WriterJsonMset yj (QKPACK_TIME_MS_END (clock m) r') = (rc, r'')" by force
  have "?c m r' = Inr (rc, r'')"
    using r'(1) Writer_rc [OF w] w
    by (intro CreateSubRequestBody_done) (auto simp: mset_waiting_def agree_def CreateSubRequestMset_end)
  then have "drive serve ?c m r' = Some ([], Inr (rc, r''))"
    using drive_stop [of ?c m r' rc r'' serve] Writer_rc [OF w] by simp
  then show ?thesis using r' w by (intro exI [of _ r'] exI [of _ "clock m"]) (simp add: mset_waiting_def)
qed

lemma mset_start:
  assumes "rq_phase r = QKPACK_SUBREQUEST_MSET" "rq_vector_sub r = []" "mset_subs r \<noteq> []" "length (mset_subs r) < 2 ^ 31"
    "0 < mset_max_count pi"
  shows "CreateSubRequestMset pi yj t r = Inr (QKPACK_AGAIN, r\<lparr>rq_subrequest := take (nat (mset_max_count pi)) (mset_subs r),
    rq_vector_sub := drop (nat (mset_max_count pi)) (mset_subs r), rq_phase := QKPACK_SUBREQUEST_DONE\<rparr>)"
proof -
  let ?s = "map (\<lambda>(slot, kvs). slot_sub QKPACK_URI_MSET (r\<lparr>rq_subrequest := []\<rparr>) slot) (rq_map_slots_kv r)"
  have s: "?s = mset_subs r"
    by (simp add: mset_subs_def slot_sub_def case_prod_unfold comp_def)
  show ?thesis
    using assms move_batch_some [of "r\<lparr>rq_subrequest := [], rq_vector_sub := mset_subs r\<rparr>" "mset_subs r" "mset_max_count pi"]
    by (simp add: CreateSubRequestMset_def ProcessMset_def s Let_def phases)
qed


lemma serve_after:
  assumes "serve_ok serve" "agree r0 r"
  shows "agree r0 (serve subs r)" "rq_phase (serve subs r) = rq_phase r" "rq_vector_sub (serve subs r) = rq_vector_sub r"
  using assms agree_trans by (fastforce simp: serve_ok_def)+

text \<open>From the first call of the MSET phase to the answer.\<close>

lemma mset_phase:
  assumes "serve_ok serve" "0 < mset_max_count pi" "agree r0 r" "rq_code r0 = QKPACK_RESPONSE_CODE_OK"
    and "kv_command_type (rq_kvpair r0) \<in> {REDIS_MSET, REDIS_ZADD, REDIS_ZBATCHADD}"
    and "subs \<noteq> []" "length subs < 2 ^ 31"
    and "CreateSubRequestBody pi yj (clock n) r = Inr (QKPACK_AGAIN, r')" "agree r0 r'"
    and "rq_subrequest r' = take (nat (mset_max_count pi)) subs" "rq_vector_sub r' = drop (nat (mset_max_count pi)) subs"
    and "rq_phase r' = QKPACK_SUBREQUEST_DONE"
  shows "\<exists>r' t. drive serve (\<lambda>n. CreateSubRequestBody pi yj (clock n)) n r =
    Some (chunks (nat (mset_max_count pi)) subs, Inr (WriterJsonMset yj (QKPACK_TIME_MS_END t r'))) \<and> agree r0 r'"
proof -
  let ?c = "\<lambda>n. CreateSubRequestBody pi yj (clock n)" and ?m = "nat (mset_max_count pi)"
  let ?s = "serve (take ?m subs) r'"
  have "mset_waiting pi serve r0 (drop ?m subs) ?s"
    using assms serve_after [OF assms(1,9)] by (auto simp: mset_waiting_def)
  then obtain r'' t where "drive serve ?c (Suc n) ?s = Some (chunks ?m (drop ?m subs), Inr (WriterJsonMset yj (QKPACK_TIME_MS_END t r'')))"
      "agree r0 r''"
    using mset_drive by blast
  then show ?thesis
    using drive_again [of ?c n r r' serve] assms(2,6,8,10) by (auto simp: chunks_step)
qed

lemma length_subs [simp]: "length (mset_subs r) = length (rq_map_slots_kv r)" "length (zadd_subs r) = length (rq_map_kv r)"
  by (simp_all add: mset_subs_def zadd_subs_def)

lemma subs_Nil [simp]: "mset_subs r = [] \<longleftrightarrow> rq_map_slots_kv r = []" "zadd_subs r = [] \<longleftrightarrow> rq_map_kv r = []"
  by (simp_all add: mset_subs_def zadd_subs_def)

lemma subs_agree:
  assumes "agree r r'"
  shows "mset_subs r' = mset_subs r" "zadd_subs r' = zadd_subs r"
proof -
  have f: "map fst (rq_map_slots_kv r') = map fst (rq_map_slots_kv r)" "map fst (rq_map_kv r') = map fst (rq_map_kv r)"
    "rq_ak r' = rq_ak r" "rq_uri r' = rq_uri r" "rq_kvpair r' = rq_kvpair r"
    using assms by (simp_all add: agree_def)
  have "slot_sub path r' = slot_sub path r" "zadd_sub r' = zadd_sub r" for path
    by (simp_all add: fun_eq_iff slot_sub_def zadd_sub_def add_key_args_def f)
  then show "mset_subs r' = mset_subs r" "zadd_subs r' = zadd_subs r"
    by (simp_all only: mset_subs_def zadd_subs_def f)
qed


lemma move_batch_bound:
  "move_batch k r = Inr (QKPACK_OK, r') \<Longrightarrow> rq_subrequest r = [] \<Longrightarrow> length (rq_subrequest r') \<le> nat k"
  by (auto simp: move_batch_def Let_def split: if_splits)

lemma ProcessMset_bound:
  "ProcessMset pi t r = Inr (QKPACK_AGAIN, r') \<Longrightarrow> rq_phase r' = QKPACK_SUBREQUEST_DONE \<or> rq_phase r = QKPACK_SUBREQUEST_MSET \<Longrightarrow>
   length (rq_subrequest r') \<le> nat (mset_max_count pi)"
  by (auto simp: ProcessMset_def Let_def bindR_Inr_iff phases split: if_splits dest!: move_batch_bound)

lemma CreateSubRequestMset_bound:
  "CreateSubRequestMset pi yj t r = Inr (QKPACK_AGAIN, r') \<Longrightarrow> length (rq_subrequest r') \<le> nat (mset_max_count pi)"
  by (auto simp: CreateSubRequestMset_def bindR_Inr_iff Let_def split: if_splits dest!: Writer_rc intro: ProcessMset_bound)

lemma CreateSubRequestZfixedsetAdd_bound:
  assumes "CreateSubRequestZfixedsetAdd pi yj t r = Inr (QKPACK_AGAIN, r')"
  shows "length (rq_subrequest r') \<le> max (nat (mset_max_count pi)) (nat (batchadd_max_count pi))"
proof -
  note bound = CreateSubRequestMset_bound [THEN le_trans, OF _ max.cobounded1]
  show ?thesis
    using assms
    by (auto simp: CreateSubRequestZfixedsetAdd_def bindR_Inr_iff Let_def split: if_splits
        dest!: move_batch_bound bound)
qed

section \<open>Properties\<close>

text \<open>MSET ends: when its sub-requests succeed, the loop of calls stops with the answer of success after
  it has sent one sub-request per slot, in the order of the slots, in consecutive batches of at most
  \<open>mset_max_count_\<close>.\<close>

theorem mset_completes:
  assumes "serve_ok serve" "0 < mset_max_count pi"
    and "kv_command_type (rq_kvpair request) = REDIS_MSET" "rq_code request = QKPACK_RESPONSE_CODE_OK"
    and "rq_phase request = QKPACK_SUBREQUEST_START" "rq_vector_sub request = []"
    and "rq_map_slots_kv request \<noteq> []" "length (rq_map_slots_kv request) < 2 ^ 31"
  shows "\<exists>request' t. drive serve (\<lambda>n. CreateSubRequestBody pi yj (clock n)) 0 request =
    Some (chunks (nat (mset_max_count pi)) (map (slot_sub QKPACK_URI_MSET request) (map fst (rq_map_slots_kv request))),
      Inr (WriterJsonMset yj (QKPACK_TIME_MS_END t request'))) \<and> rq_code request' = QKPACK_RESPONSE_CODE_OK"
proof -
  let ?r = "request\<lparr>rq_phase := QKPACK_SUBREQUEST_MSET\<rparr>" and ?m = "nat (mset_max_count pi)"
  have subs: "mset_subs ?r = mset_subs request" by (rule subs_agree) (simp add: agree_queue)
  let ?r' = "?r\<lparr>rq_subrequest := take ?m (mset_subs ?r), rq_vector_sub := drop ?m (mset_subs ?r), rq_phase := QKPACK_SUBREQUEST_DONE\<rparr>"
  have "CreateSubRequestMset pi yj t ?r = Inr (QKPACK_AGAIN, ?r')" for t
    by (rule mset_start) (use assms in simp_all)
  then have "CreateSubRequestBody pi yj (clock 0) request = Inr (QKPACK_AGAIN, ?r')"
    using assms by (simp add: CreateSubRequestBody_def CreateSubRequestMset_def phases commands)
  then have "\<exists>r' t. drive serve (\<lambda>n. CreateSubRequestBody pi yj (clock n)) 0 request =
      Some (chunks ?m (mset_subs request), Inr (WriterJsonMset yj (QKPACK_TIME_MS_END t r'))) \<and> agree request r'"
    by (rule mset_phase [where r' = ?r', rotated 7]) (use assms subs in \<open>auto simp: agree_queue\<close>)
  then show ?thesis
    using assms(4) unfolding mset_subs_def by (auto simp: agree_def)
qed

theorem mset_completes_witness:
  "\<exists>request' t. drive (\<lambda>subs r. r) (\<lambda>n. CreateSubRequestBody \<lparr>mset_max_count = 2, batchadd_max_count = 1\<rparr>
      (sample_yajl ''b'' YNull) 0) 0 sample_mset_request =
    Some (chunks 2 (map (slot_sub QKPACK_URI_MSET sample_mset_request) [3, 5, 9]),
      Inr (WriterJsonMset (sample_yajl ''b'' YNull) (QKPACK_TIME_MS_END t request'))) \<and> rq_code request' = QKPACK_RESPONSE_CODE_OK"
  using mset_completes [of "\<lambda>subs r. r" "\<lparr>mset_max_count = 2, batchadd_max_count = 1\<rparr>" sample_mset_request
      "sample_yajl ''b'' YNull" "\<lambda>n. 0"]
  by (simp add: serve_ok_def sample_mset_request_def new_request_def codes)

text \<open>C30: A batch add ends as well: first one sub-request per key with its members, in batches of at most
  \<open>batchadd_max_count_\<close>, then one per slot with the values, in batches of at most \<open>mset_max_count_\<close>, and then
  the answer.\<close>

theorem batchadd_completes:
  assumes "serve_ok serve" "0 < mset_max_count pi" "0 < batchadd_max_count pi"
    and "kv_command_type (rq_kvpair request) = REDIS_ZBATCHADD" "rq_code request = QKPACK_RESPONSE_CODE_OK"
    and "rq_phase request = QKPACK_SUBREQUEST_START" "rq_vector_sub request = []"
    and "rq_map_kv request \<noteq> []" "length (rq_map_kv request) < 2 ^ 31"
    and "rq_map_slots_kv request \<noteq> []" "length (rq_map_slots_kv request) < 2 ^ 31"
  shows "\<exists>request' t. drive serve (\<lambda>n. CreateSubRequestBody pi yj (clock n)) 0 request =
    Some (chunks (nat (batchadd_max_count pi)) (map (zadd_sub request) (map fst (rq_map_kv request))) @
        chunks (nat (mset_max_count pi)) (map (slot_sub QKPACK_URI_MSET request) (map fst (rq_map_slots_kv request))),
      Inr (WriterJsonMset yj (QKPACK_TIME_MS_END t request'))) \<and> rq_code request' = QKPACK_RESPONSE_CODE_OK"
proof -
  let ?c = "\<lambda>n. CreateSubRequestBody pi yj (clock n)" and ?b = "nat (batchadd_max_count pi)" and ?m = "nat (mset_max_count pi)"
  let ?r = "request\<lparr>rq_phase := QKPACK_SUBREQUEST_ZFIXEDSET_ADD, rq_subrequest := []\<rparr>"
  let ?r' = "request\<lparr>rq_subrequest := take ?b (zadd_subs request), rq_vector_sub := drop ?b (zadd_subs request), rq_phase := QKPACK_SUBREQUEST_MSET\<rparr>"
  have subs: "map (\<lambda>(key, kvs). zadd_sub ?r key) (rq_map_kv request) = zadd_subs request"
    using subs_agree(2) [of request ?r] by (simp add: zadd_subs_def case_prod_unfold comp_def agree_queue)
  have first: "?c 0 request = Inr (QKPACK_AGAIN, ?r')"
    using assms move_batch_some [of "?r\<lparr>rq_vector_sub := zadd_subs request\<rparr>" "zadd_subs request" "batchadd_max_count pi"] subs
    by (simp add: CreateSubRequestBody_def CreateSubRequestZfixedsetBatchAdd_def ProcessZfixedsetBatchAdd_def
        CreateSubRequestZfixedsetAdd_def Let_def phases commands)
  let ?s = "serve (take ?b (zadd_subs request)) ?r'"
  have "zadd_waiting pi serve request (drop ?b (zadd_subs request)) ?s"
    using assms serve_after [OF assms(1), of request ?r'] by (auto simp: zadd_waiting_def agree_queue)
  then obtain m r1 where r1: "zadd_waiting pi serve request [] r1"
      "drive serve ?c (Suc 0) ?s = prepend (chunks ?b (drop ?b (zadd_subs request))) (drive serve ?c m r1)"
    using zadd.drains by blast
  have z: "drive serve ?c 0 request = prepend (chunks ?b (zadd_subs request)) (drive serve ?c m r1)"
    using drive_again [of ?c 0 request ?r' serve] first r1(2) assms(3,8) by (simp add: chunks_step)
  let ?q = "r1\<lparr>rq_subrequest := []\<rparr>"
  have q: "agree request r1" "rq_phase r1 = QKPACK_SUBREQUEST_MSET" "rq_vector_sub r1 = []"
    using r1(1) by (simp_all add: zadd_waiting_def)
  have qs: "mset_subs ?q = mset_subs request" by (rule subs_agree) (simp add: agree_queue q)
  let ?q' = "?q\<lparr>rq_subrequest := take ?m (mset_subs ?q), rq_vector_sub := drop ?m (mset_subs ?q), rq_phase := QKPACK_SUBREQUEST_DONE\<rparr>"
  have "CreateSubRequestMset pi yj t ?q = Inr (QKPACK_AGAIN, ?q')" for t
    by (rule mset_start) (use assms q qs in simp_all)
  then have "?c m r1 = Inr (QKPACK_AGAIN, ?q')"
    using assms(4,5) q by (simp add: CreateSubRequestBody_def CreateSubRequestZfixedsetBatchAdd_def ProcessZfixedsetBatchAdd_def
        CreateSubRequestZfixedsetAdd_def CheckSubRequestStatus_def agree_def Let_def phases commands)
  then obtain r' t where "drive serve ?c m r1 =
      Some (chunks ?m (mset_subs request), Inr (WriterJsonMset yj (QKPACK_TIME_MS_END t r')))" "agree request r'"
    using mset_phase [of serve pi request r1 "mset_subs request" yj clock m ?q'] assms q qs by (auto simp: agree_queue)
  then show ?thesis
    using z assms(5) unfolding mset_subs_def zadd_subs_def by (intro exI [of _ r'] exI [of _ t]) (simp add: agree_def)
qed


theorem batchadd_completes_witness:
  "\<exists>request' t. drive (\<lambda>subs r. r) (\<lambda>n. CreateSubRequestBody \<lparr>mset_max_count = 2, batchadd_max_count = 1\<rparr>
      (sample_yajl ''b'' YNull) 0) 0 sample_batchadd_request =
    Some (chunks 1 (map (zadd_sub sample_batchadd_request) [''u1'', ''u2'']) @
        chunks 2 (map (slot_sub QKPACK_URI_MSET sample_batchadd_request) [3, 5, 9]),
      Inr (WriterJsonMset (sample_yajl ''b'' YNull) (QKPACK_TIME_MS_END t request'))) \<and> rq_code request' = QKPACK_RESPONSE_CODE_OK"
  using batchadd_completes [of "\<lambda>subs r. r" "\<lparr>mset_max_count = 2, batchadd_max_count = 1\<rparr>" sample_batchadd_request
      "sample_yajl ''b'' YNull" "\<lambda>n. 0"]
  by (simp add: serve_ok_def sample_batchadd_request_def new_request_def codes)

text \<open>C38: With \<open>mset_max_count_\<close> set to zero an MSET is never answered: every call moves an empty batch and
  asks to be called again, so the loop does not end.\<close>

theorem mset_zero_diverges:
  assumes "serve_ok serve" "mset_max_count pi = 0"
    and "kv_command_type (rq_kvpair request) = REDIS_MSET" "rq_code request = QKPACK_RESPONSE_CODE_OK"
    and "rq_phase request = QKPACK_SUBREQUEST_START" "rq_vector_sub request = []"
    and "rq_map_slots_kv request \<noteq> []" "length (rq_map_slots_kv request) < 2 ^ 31"
  shows "drive serve (\<lambda>n. CreateSubRequestBody pi yj (clock n)) 0 request = None"
proof -
  let ?c = "\<lambda>n. CreateSubRequestBody pi yj (clock n)"
  let ?stuck = "\<lambda>r. agree request r \<and> rq_phase r = QKPACK_SUBREQUEST_DONE \<and> rq_vector_sub r = mset_subs request"
  have move: "move_batch 0 q = Inr (QKPACK_OK, q)" if "rq_vector_sub q = mset_subs request" for q
    using that assms(7,8) by (simp add: move_batch_def)
  have step: "\<exists>r'. ?c n r = Inr (QKPACK_AGAIN, r') \<and> ?stuck (serve (rq_subrequest r') r')" if "?stuck r" for n r
  proof -
    have "\<exists>r'. ?c n r = Inr (QKPACK_AGAIN, r') \<and> ?stuck r'"
      using that assms(2-5,7)
      by (auto simp: CreateSubRequestBody_def CreateSubRequestMset_def ProcessMset_def CheckSubRequestStatus_def
          QKPACK_TIME_MS_END_def agree_def phases commands Let_def move)
    then show ?thesis using serve_after [OF assms(1)] by (metis (lifting))
  qed
  have subs: "map (\<lambda>(slot, kvs). slot_sub QKPACK_URI_MSET (request\<lparr>rq_phase := p, rq_subrequest := []\<rparr>) slot) (rq_map_slots_kv request) = mset_subs request" for p
    by (simp add: mset_subs_def slot_sub_def case_prod_unfold comp_def)
  have "\<exists>r'. ?c 0 request = Inr (QKPACK_AGAIN, r') \<and> ?stuck r'"
    using assms(2-6) subs [of QKPACK_SUBREQUEST_MSET]
    by (auto simp: CreateSubRequestBody_def CreateSubRequestMset_def ProcessMset_def agree_def phases commands Let_def move)
  then obtain r' where r': "?c 0 request = Inr (QKPACK_AGAIN, r')" "?stuck r'" by blast
  have "?stuck (serve (rq_subrequest r') r')" using r'(2) serve_after [OF assms(1), of request r'] by simp
  then have "drive serve ?c (Suc 0) (serve (rq_subrequest r') r') = None"
    using drive_diverges [of ?stuck ?c serve "serve (rq_subrequest r') r'" "Suc 0"] step by blast
  then show ?thesis using drive_again [of ?c 0 request r' serve] r'(1) by simp
qed

theorem mset_zero_diverges_witness:
  "drive (\<lambda>subs r. r) (\<lambda>n. CreateSubRequestBody \<lparr>mset_max_count = 0, batchadd_max_count = 1\<rparr>
    (sample_yajl ''b'' YNull) 0) 0 sample_mset_request = None"
  using mset_zero_diverges [of "\<lambda>subs r. r" "\<lparr>mset_max_count = 0, batchadd_max_count = 1\<rparr>" sample_mset_request
      "sample_yajl ''b'' YNull" "\<lambda>n. 0"]
  by (simp add: serve_ok_def sample_mset_request_def new_request_def codes)


text \<open>C37: Whatever state the request is in and whatever the sub-requests did, a call of a writing command
  never asks for more sub-requests at a time than the larger of the two configured limits.\<close>

theorem batch_bound:
  assumes "CreateSubRequestBody pi yj t request = Inr (QKPACK_AGAIN, request')"
    and "kv_command_type (rq_kvpair request) \<in> {REDIS_MSET, REDIS_ZADD, REDIS_ZBATCHADD}"
  shows "length (rq_subrequest request') \<le> max (nat (mset_max_count pi)) (nat (batchadd_max_count pi))"
proof -
  note bound = CreateSubRequestMset_bound [THEN le_trans, OF _ max.cobounded1]
  show ?thesis
    using assms
    by (auto simp: CreateSubRequestBody_def CreateSubRequestZfixedsetBatchAdd_def ProcessZfixedsetBatchAdd_def bindR_Inr_iff
        Let_def commands split: if_splits dest!: bound CreateSubRequestZfixedsetAdd_bound)
qed

theorem batch_bound_witness:
  "\<exists>request'. CreateSubRequestBody \<lparr>mset_max_count = 2, batchadd_max_count = 1\<rparr> (sample_yajl ''b'' YNull) 0 sample_mset_request =
      Inr (QKPACK_AGAIN, request') \<and> length (rq_subrequest request') \<le> max (nat 2) (nat 1)"
proof -
  let ?c = "CreateSubRequestBody \<lparr>mset_max_count = 2, batchadd_max_count = 1\<rparr> (sample_yajl ''b'' YNull) 0 sample_mset_request"
  obtain r' where "?c = Inr (QKPACK_AGAIN, r')"
    by (simp add: CreateSubRequestBody_def CreateSubRequestMset_def ProcessMset_def move_batch_def
        sample_mset_request_def new_request_def phases commands codes Let_def)
  then show ?thesis
    using batch_bound [of "\<lparr>mset_max_count = 2, batchadd_max_count = 1\<rparr>" "sample_yajl ''b'' YNull" 0 sample_mset_request r']
    by (simp add: sample_mset_request_def)
qed

text \<open>No accepted path is left without an answer: the command it selects either is one of the multi-key
  commands of the phase machine or has a writer, whose document opens with the code, the description and the
  cost of the request.\<close>

theorem accepted_path_answered:
  assumes "ParseRequestUri request = (QKPACK_OK, request')" "\<not> rq_is_subrequest request"
    and "rq_code request = QKPACK_RESPONSE_CODE_OK"
  shows "CheckSubRequest request' \<or>
    (\<exists>beautify rest. ParseResponseBody yj t request' =
      emit yj beautify (Gen_map_open # WriterJsonCommon (QKPACK_TIME_MS_END t request') @ rest) (QKPACK_TIME_MS_END t request'))"
proof -
  let ?c = "kv_command_type (rq_kvpair request')"
  have c: "?c \<in> {REDIS_GET, REDIS_SET, REDIS_DEL, REDIS_TTL, REDIS_INCR, REDIS_INCRBY, REDIS_SADD, REDIS_SREM, REDIS_SCARD,
      REDIS_SISMEMBER} \<union> {REDIS_SMEMBERS} \<union> {REDIS_MGET, REDIS_MSET, REDIS_ZADD, REDIS_ZBATCHADD, REDIS_ZRANGEBYSCORE,
      REDIS_ZRANGE, REDIS_BATCHZRANGEBYSCORE}"
    and r: "\<not> rq_is_subrequest request'" "rq_code request' = QKPACK_RESPONSE_CODE_OK"
    using assms unfolding ParseRequestUri_def Let_def by (auto split: if_splits)
  consider "CheckSubRequest request'" | "ParseResponseBody yj t request' \<in> (\<lambda>write. write yj (QKPACK_TIME_MS_END t request')) `
      {WriterJsonGet, WriterJsonTtl, WriterJsonSmembers}"
    using c r unfolding CheckSubRequest_def ParseResponseBody_def Let_def QKPACK_TIME_MS_END_def by auto
  then show ?thesis
    by cases (auto simp: WriterJsonGet_def WriterJsonTtl_def WriterJsonSmembers_def)
qed

theorem accepted_path_answered_witness:
  "let request = snd (ParseRequestUri (new_request\<lparr>rq_request_uri := ''/hdp/kvstore/kv/get''\<rparr>)) in
    \<exists>beautify rest. ParseResponseBody (sample_yajl ''b'' YNull) 3 request = emit (sample_yajl ''b'' YNull) beautify
      (Gen_map_open # WriterJsonCommon (QKPACK_TIME_MS_END 3 request) @ rest) (QKPACK_TIME_MS_END 3 request)"
proof -
  let ?r = "new_request\<lparr>rq_request_uri := ''/hdp/kvstore/kv/get''\<rparr>"
  let ?q = "upd_kv (\<lambda>kv. kv\<lparr>kv_metrics_command := QKPACK_METRICS_GET, kv_command_type := REDIS_GET,
      kv_operation_type := QKPACK_OPERATION_READ\<rparr>) ?r"
  have uri: "c_str (rq_request_uri ?r) = QKPACK_URI_GET" by (simp add: c_str_def NUL_def uris)
  have r: "ParseRequestUri ?r = (QKPACK_OK, ?q)"
    by (simp only: ParseRequestUri_def Let_def uri strcaseeq_def simp_thms if_True)
  show ?thesis
    using accepted_path_answered [OF r, of "sample_yajl ''b'' YNull" 3]
    unfolding r by (simp add: Let_def new_request_def codes commands CheckSubRequest_def)
qed

end
