(* ===== verification/NgxArgs.thy ===== *)
theory NgxArgs
  imports SubRequest
begin

text \<open>
  How a sub-request gets its parameters back.  The parent writes them into the argument string of the
  sub-request (\<open>is_subrequest=1&key=..&slotid=..\<close>); \<open>ngx_http_qkupstream_init\<close> reads them with
  \<open>ngx_http_arg\<close> and \<open>ngx_atoi\<close> of the server core (\<open>http/ngx_http_parse.c\<close>, \<open>core/ngx_string.c\<close>).  The
  argument string is a byte string and a pointer into it is an index.
\<close>


section \<open>Definitions\<close>

text \<open>\<open>ngx_strncasecmp(s1, s2, n) == 0\<close>.\<close>

fun ngx_strncaseeq :: "bytes \<Rightarrow> bytes \<Rightarrow> nat \<Rightarrow> bool" where
  "ngx_strncaseeq s1 s2 0 = True"
| "ngx_strncaseeq (c1 # s1) (c2 # s2) (Suc n) =
    (lower c1 = lower c2 \<and> (lower c1 = NUL \<or> ngx_strncaseeq s1 s2 n))"
| "ngx_strncaseeq _ _ (Suc n) = False"

definition ngx_strlcasestrn :: "bytes \<Rightarrow> nat \<Rightarrow> nat \<Rightarrow> bytes \<Rightarrow> nat \<Rightarrow> nat option" where
  "ngx_strlcasestrn s s1 lim s2 n =
    find (\<lambda>p. lower (s ! p) = lower (hd s2) \<and> ngx_strncaseeq (drop (Suc p) s) (tl s2) n) [s1..<lim - n]"

text \<open>\<open>ngx_strlchr(p, last, c)\<close>, the end of the string when there is none.\<close>

definition arg_end :: "bytes \<Rightarrow> nat \<Rightarrow> nat" where
  "arg_end args p = p + scan (\<lambda>c. c = CHR ''&'') (drop p args)"

function ngx_http_arg_from :: "bytes \<Rightarrow> bytes \<Rightarrow> nat \<Rightarrow> bytes option" where
  "ngx_http_arg_from args name p =
    (if p < length args
     then case ngx_strlcasestrn args p (length args - 1) name (length name - 1) of
         None \<Rightarrow> None
       | Some p \<Rightarrow>
           if (p = 0 \<or> args ! (p - 1) = CHR ''&'') \<and> args ! (p + length name) = CHR ''=''
           then let data = p + length name + 1 in Some (take (arg_end args p - data) (drop data args))
           else ngx_http_arg_from args name (Suc p)
     else None)"
  by auto
termination
  by (relation "measure (\<lambda>(args, name, p). length args - p)")
    (auto simp: ngx_strlcasestrn_def dest!: find_upt_Some)

declare ngx_http_arg_from.simps [simp del]

definition ngx_http_arg :: "bytes \<Rightarrow> bytes \<Rightarrow> bytes option" where
  "ngx_http_arg args name = (if args = [] then None else ngx_http_arg_from args name 0)"

text \<open>The result of \<open>ngx_atoi\<close>; \<open>NGX_ERROR\<close> is -1 and signed overflow a fault.\<close>

fun ngx_atoi_loop :: "bytes \<Rightarrow> int \<Rightarrow> int result" where
  "ngx_atoi_loop [] v = Inr v"
| "ngx_atoi_loop (c # line) v =
    (if of_char c < (48 :: int) \<or> of_char c > (57 :: int) then Inr (- 1)
     else
       let v = v * 10 + (of_char c - 48) in
       if v \<ge> 2 ^ 63 then Inl Out_of_range else ngx_atoi_loop line v)"

definition ngx_atoi :: "bytes \<Rightarrow> int result" where
  "ngx_atoi line = (if line = [] then Inr (- 1) else ngx_atoi_loop line 0)"

text \<open>The sub-request part of \<open>ngx_http_qkupstream_init\<close>: \<open>None\<close> is \<open>NGX_ERROR\<close>.\<close>

definition qkupstream_init_sub :: "bytes \<Rightarrow> qkpack_request_t option result" where
  "qkupstream_init_sub args =
    (let slotid_str = (case ngx_http_arg args ''slotid'' of None \<Rightarrow> [] | Some s \<Rightarrow> s);
         key_str = (case ngx_http_arg args ''key'' of None \<Rightarrow> [] | Some s \<Rightarrow> s) in
     bindR (if slotid_str \<noteq> [] then bindR (ngx_atoi slotid_str) (\<lambda>v. Inr (to_int v)) else Inr (rq_slot_id new_request)) (\<lambda>slot_id.
       if slot_id < 0 then Inr None
       else
         let request = new_request\<lparr>rq_slot_id := slot_id\<rparr> in
         Inr (Some (if key_str \<noteq> [] then upd_kv (\<lambda>k. k\<lparr>kv_key := key_str\<rparr>) request else request))))"


section \<open>Lemmas\<close>

text \<open>The name occurs at the position, in any case.\<close>

definition occurs :: "bytes \<Rightarrow> bytes \<Rightarrow> nat \<Rightarrow> bool" where
  "occurs args name p \<longleftrightarrow> map lower (take (length name) (drop p args)) = map lower name"

definition is_arg :: "bytes \<Rightarrow> bytes \<Rightarrow> nat \<Rightarrow> bool" where
  "is_arg args name p \<longleftrightarrow> p + length name < length args \<and> occurs args name p \<and>
    (p = 0 \<or> args ! (p - 1) = CHR ''&'') \<and> args ! (p + length name) = CHR ''=''"

lemma ngx_strncaseeq_map:
  "NUL \<notin> set (map lower s2) \<Longrightarrow> length s2 = n \<Longrightarrow> n \<le> length s1 \<Longrightarrow>
   ngx_strncaseeq s1 s2 n \<longleftrightarrow> map lower (take n s1) = map lower s2"
  by (induction s1 s2 n rule: ngx_strncaseeq.induct) auto

lemma strlcasestrn_occurs:
  assumes "NUL \<notin> set (map lower name)" "name \<noteq> []"
  shows "ngx_strlcasestrn args p (length args - 1) name (length name - 1) = find (occurs args name) [p..<length args - length name]"
proof -
  have "lower (args ! q) = lower (hd name) \<and> ngx_strncaseeq (drop (Suc q) args) (tl name) (length name - 1) \<longleftrightarrow> occurs args name q"
    if "q < length args - length name" for q
  proof -
    have "NUL \<notin> set (map lower (tl name))" using assms by (cases name) auto
    moreover have "drop q args = args ! q # drop (Suc q) args" using that by (simp add: Cons_nth_drop_Suc)
    ultimately show ?thesis
      using assms(2) that ngx_strncaseeq_map [of "tl name" "length name - 1" "drop (Suc q) args"]
      by (cases name) (auto simp: occurs_def)
  qed
  moreover have len: "length args - 1 - (length name - 1) = length args - length name" using assms(2) by (cases name) auto
  ultimately show ?thesis
    unfolding ngx_strlcasestrn_def len by (intro find_cong) auto
qed

text \<open>The search stops at the first argument with the name.\<close>

lemma ngx_http_arg_from_first:
  assumes "NUL \<notin> set (map lower name)" "name \<noteq> []" "is_arg args name q" "p \<le> q" "\<forall>x. p \<le> x \<and> x < q \<longrightarrow> \<not> is_arg args name x"
  shows "ngx_http_arg_from args name p =
    (let data = q + length name + 1 in Some (take (arg_end args q - data) (drop data args)))"
  using assms(4,5)
proof (induction "q - p" arbitrary: p rule: less_induct)
  case less
  let ?f = "find (occurs args name) [p..<length args - length name]"
  have q: "occurs args name q" "q < length args - length name" using assms(3) by (auto simp: is_arg_def)
  then obtain x where x: "?f = Some x" using less.prems(1)
    by (cases ?f) (auto simp: find_None_iff)
  have x': "p \<le> x" "x < length args - length name" "occurs args name x" "\<forall>y. p \<le> y \<and> y < x \<longrightarrow> \<not> occurs args name y"
    using find_upt_Some [OF x] by auto
  have "x \<le> q" using x'(4) q(1) less.prems(1) by (meson not_le_imp_less)
  have p: "p < length args" using x'(1,2) by simp
  show ?case
  proof (cases "x = q")
    case True
    then show ?thesis
      using assms(3) p x strlcasestrn_occurs [OF assms(1,2)]
      by (subst ngx_http_arg_from.simps) (auto simp: is_arg_def)
  next
    case False
    then have "x < q" using \<open>x \<le> q\<close> by simp
    then have "\<not> is_arg args name x" using less.prems(2) x'(1) by blast
    then have "ngx_http_arg_from args name p = ngx_http_arg_from args name (Suc x)"
      using p x x' strlcasestrn_occurs [OF assms(1,2)]
      by (subst ngx_http_arg_from.simps) (auto simp: is_arg_def)
    then show ?thesis
      using less.hyps [of "Suc x"] \<open>x < q\<close> less.prems(2) x'(1) by (simp add: diff_less_mono2)
  qed
qed


lemma ngx_http_arg_from_none:
  assumes "NUL \<notin> set (map lower name)" "name \<noteq> []" "\<forall>x. p \<le> x \<longrightarrow> \<not> is_arg args name x"
  shows "ngx_http_arg_from args name p = None"
  using assms(3)
proof (induction "length args - p" arbitrary: p rule: less_induct)
  case less
  show ?case
  proof (cases "find (occurs args name) [p..<length args - length name]")
    case None
    then show ?thesis
      using strlcasestrn_occurs [OF assms(1,2)] by (subst ngx_http_arg_from.simps) simp
  next
    case (Some x)
    then have x: "p \<le> x" "x < length args - length name" "occurs args name x" using find_upt_Some by blast+
    then have "ngx_http_arg_from args name p = ngx_http_arg_from args name (Suc x)"
      using strlcasestrn_occurs [OF assms(1,2)] Some less.prems
      by (subst ngx_http_arg_from.simps) (auto simp: is_arg_def)
    moreover have "length args - Suc x < length args - p" using x(1,2) by linarith
    ultimately show ?thesis
      using less.hyps [of "Suc x"] less.prems x(1) by simp
  qed
qed

lemma is_arg_head: "is_arg args (n # ns) p \<Longrightarrow> lower (args ! p) = lower n"
proof -
  assume a: "is_arg args (n # ns) p"
  then have "drop p args = args ! p # drop (Suc p) args" by (intro Cons_nth_drop_Suc [symmetric]) (auto simp: is_arg_def)
  then show ?thesis using a by (simp add: is_arg_def occurs_def)
qed

lemma is_arg_boundary: "is_arg args name p \<Longrightarrow> p = 0 \<or> args ! (p - 1) = CHR ''&''"
  by (auto simp: is_arg_def)

text \<open>An argument between separators is found when no earlier one has the name.\<close>

lemma ngx_http_arg_at:
  assumes "NUL \<notin> set (map lower name)" "name \<noteq> []" "CHR ''&'' \<notin> set name" "CHR ''&'' \<notin> set v"
    and "pre = [] \<or> last pre = CHR ''&''" "rest = [] \<or> hd rest = CHR ''&''"
    and "\<forall>x<length pre. \<not> is_arg (pre @ name @ ''='' @ v @ rest) name x"
  shows "ngx_http_arg (pre @ name @ ''='' @ v @ rest) name = Some v"
proof -
  let ?a = "pre @ name @ ''='' @ v @ rest"
  have b: "length pre = 0 \<or> ?a ! (length pre - 1) = CHR ''&''"
    using assms(5) by (cases pre rule: rev_cases) (auto simp: nth_append)
  have "is_arg ?a name (length pre)"
    using b by (auto simp: is_arg_def occurs_def nth_append)
  then have "ngx_http_arg_from ?a name 0 =
      (let data = length pre + length name + 1 in Some (take (arg_end ?a (length pre) - data) (drop data ?a)))"
    by (intro ngx_http_arg_from_first) (use assms in auto)
  moreover have "arg_end ?a (length pre) = length pre + length name + 1 + length v"
  proof -
    have "scan (\<lambda>c. c = CHR ''&'') ((name @ ''='' @ v) @ rest) = length (name @ ''='' @ v)"
    proof (cases rest)
      case Nil
      have "\<not> (\<exists>c\<in>set (name @ ''='' @ v). c = CHR ''&'')" using assms(3,4) by auto
      then show ?thesis
        unfolding Nil append_Nil2 using scan_eq_length_iff [of "\<lambda>c. c = CHR ''&''"] by blast
    next
      case (Cons c cs)
      have "\<forall>c\<in>set (name @ ''='' @ v). \<not> c = CHR ''&''" using assms(3,4) by auto
      moreover have "c = CHR ''&''" using assms(6) Cons by simp
      ultimately show ?thesis
        unfolding Cons using scan_skip [of "name @ ''='' @ v" "\<lambda>c. c = CHR ''&''" c cs] by simp
    qed
    then show ?thesis by (simp add: arg_end_def)
  qed
  ultimately show ?thesis by (simp add: ngx_http_arg_def)
qed

lemma sep_in_prefix: "(p @ v @ r) ! y = c \<Longrightarrow> y < length p + length v \<Longrightarrow> c \<notin> set v \<Longrightarrow> y < length p \<and> p ! y = c"
  by (auto simp: nth_append split: if_splits)

lemma sub_args:
  assumes "CHR ''&'' \<notin> set key" "CHR ''&'' \<notin> set slot" "rest = [] \<or> hd rest = CHR ''&''"
  shows "ngx_http_arg (''is_subrequest=1&key='' @ key @ ''&slotid='' @ slot @ rest) ''key'' = Some key"
    and "ngx_http_arg (''is_subrequest=1&key='' @ key @ ''&slotid='' @ slot @ rest) ''slotid'' = Some slot"
proof -
  let ?a = "''is_subrequest=1&key='' @ key @ ''&slotid='' @ slot @ rest"
  have "\<not> is_arg ?a ''key'' x" if "x < length ''is_subrequest=1&''" for x
  proof
    assume a: "is_arg ?a ''key'' x"
    have "x = 0" using is_arg_boundary [OF a] that by (auto simp: nth_Cons' split: if_splits)
    then show False using is_arg_head [OF a] by (simp add: lower_def)
  qed
  then show "ngx_http_arg ?a ''key'' = Some key"
    using ngx_http_arg_at [of "''key''" key "''is_subrequest=1&''" "''&slotid='' @ slot @ rest"] assms(1)
    by (simp add: lower_def NUL_def)
  have "\<not> is_arg ?a ''slotid'' x" if "x < length (''is_subrequest=1&key='' @ key @ ''&'')" for x
  proof
    assume a: "is_arg ?a ''slotid'' x"
    let ?p = "''is_subrequest=1&key=''"
    show False
      using is_arg_boundary [OF a]
    proof
      assume "x = 0"
      then show False using is_arg_head [OF a] by (simp add: lower_def)
    next
      assume sep: "?a ! (x - 1) = CHR ''&''"
      have "x - 1 < length ?p + length key" using that by simp
      from sep_in_prefix [OF sep this assms(1)] have "x - 1 = 15"
        by (auto simp: nth_Cons' split: if_splits)
      then have "x = 16" by simp
      then show False using is_arg_head [OF a] by (simp add: lower_def)
    qed
  qed
  then show "ngx_http_arg ?a ''slotid'' = Some slot"
    using ngx_http_arg_at [of "''slotid''" slot "''is_subrequest=1&key='' @ key @ ''&''" rest] assms
    by (simp add: lower_def NUL_def)
qed


lemma slot_args:
  assumes "CHR ''&'' \<notin> set slot"
  shows "ngx_http_arg (''is_subrequest=1&slotid='' @ slot) ''key'' = None"
    and "ngx_http_arg (''is_subrequest=1&slotid='' @ slot) ''slotid'' = Some slot"
proof -
  let ?a = "''is_subrequest=1&slotid='' @ slot @ []" and ?p = "''is_subrequest=1&slotid=''"
  have pos: "x = 0 \<or> x = 16" if "is_arg ?a name x" for name x
    using is_arg_boundary [OF that]
  proof
    assume sep: "?a ! (x - 1) = CHR ''&''"
    have "x - 1 < length ?p + length slot" using that by (auto simp: is_arg_def)
    from sep_in_prefix [OF sep this assms] have "x - 1 = 15"
      by (auto simp: nth_Cons' split: if_splits)
    then show ?thesis by linarith
  qed simp
  have "\<not> is_arg ?a ''key'' x" for x
    using pos [of "''key''" x] is_arg_head [of ?a "CHR ''k''" "''ey''" x] by (auto simp: lower_def)
  then have "ngx_http_arg_from ?a ''key'' 0 = None"
    by (intro ngx_http_arg_from_none) (simp_all add: lower_def NUL_def)
  then show "ngx_http_arg (''is_subrequest=1&slotid='' @ slot) ''key'' = None"
    by (simp add: ngx_http_arg_def)
  have "\<not> is_arg ?a ''slotid'' x" if "x < length ''is_subrequest=1&''" for x
    using pos [of "''slotid''" x] is_arg_head [of ?a "CHR ''s''" "''lotid''" x] that by (auto simp: lower_def)
  then show "ngx_http_arg (''is_subrequest=1&slotid='' @ slot) ''slotid'' = Some slot"
    using ngx_http_arg_at [of "''slotid''" slot "''is_subrequest=1&''" "[]"] assms
    by (simp add: lower_def NUL_def)
qed

lemma ngx_atoi_loop_dec:
  "n < 2 ^ 63 \<Longrightarrow> ngx_atoi_loop (dec_nat n @ ys) 0 = ngx_atoi_loop ys (int n)"
proof (induction n arbitrary: ys rule: dec_nat.induct)
  case (1 n)
  have digit: "ngx_atoi_loop (dec_digit d # ys) (int m) = ngx_atoi_loop ys (int (m * 10 + d))"
    if "d < 10" "m * 10 + d < 2 ^ 63" for m d
  proof -
    have "(of_char (dec_digit d) :: int) = int (48 + d)"
      using of_char_dec_digit [OF that(1)] by (metis of_nat_of_char)
    then show ?thesis using that by simp
  qed
  show ?case
  proof (cases "n < 10")
    case True
    then show ?thesis using digit [of n 0] by (simp add: dec_nat.simps)
  next
    case False
    then have "ngx_atoi_loop (dec_nat n @ ys) 0 = ngx_atoi_loop (dec_digit (n mod 10) # ys) (int (n div 10))"
      using 1(1) [of "dec_digit (n mod 10) # ys"] 1(2) by (subst dec_nat.simps) simp
    then show ?thesis using digit [of "n mod 10" "n div 10"] 1(2) by simp
  qed
qed

lemma ngx_atoi_dec: "n < 2 ^ 63 \<Longrightarrow> ngx_atoi (dec_nat n) = Inr (int n)"
  using ngx_atoi_loop_dec [of n "[]"] by (simp add: ngx_atoi_def)

lemma dec_nat_no_amp: "CHR ''&'' \<notin> set (dec_nat n)"
  by (rule dec_nat_no) (simp add: is_digit_def digit_val_def)

lemma ToString_nat: "n < 2 ^ 31 \<Longrightarrow> ToString (int n) = dec_nat n"
  by (simp add: ToString_def dec_int_def)

lemma init_sub_key:
  assumes "CHR ''&'' \<notin> set key" "key \<noteq> []" "n < 2 ^ 31" "rest = [] \<or> hd rest = CHR ''&''"
  shows "qkupstream_init_sub (''is_subrequest=1&key='' @ key @ ''&slotid='' @ dec_nat n @ rest) =
    Inr (Some (upd_kv (\<lambda>k. k\<lparr>kv_key := key\<rparr>) (new_request\<lparr>rq_slot_id := int n\<rparr>)))"
  using sub_args [OF assms(1) dec_nat_no_amp assms(4)] assms(2,3)
  by (simp add: qkupstream_init_sub_def Let_def ngx_atoi_dec)


section \<open>Properties\<close>

text \<open>C36: The parameters of a sub-request survive the way through the argument string: a key without the
  separator \<open>&\<close> and its hash slot, or the slot of a multi-key command, are read back as they were sent.\<close>

theorem subrequest_args_round_trip:
  assumes "CHR ''&'' \<notin> set key" "key \<noteq> []" "slot < 2 ^ 31"
    and "kv_command_type (rq_kvpair request) \<in> {REDIS_ZRANGEBYSCORE, REDIS_BATCHZRANGEBYSCORE, REDIS_ZRANGE}"
  shows "(\<forall>sub\<in>{zadd_sub request key, query_sub request key}.
      qkupstream_init_sub (sr_args sub) =
        Inr (Some (upd_kv (\<lambda>k. k\<lparr>kv_key := key\<rparr>)
          (new_request\<lparr>rq_slot_id := int (key_hash_slot (kv_namespaces (rq_kvpair request) @ key))\<rparr>)))) \<and>
    qkupstream_init_sub (sr_args (slot_sub path request (int slot))) = Inr (Some (new_request\<lparr>rq_slot_id := int slot\<rparr>))"
proof
  let ?n = "key_hash_slot (kv_namespaces (rq_kvpair request) @ key)"
  have n: "?n < 2 ^ 31" using key_hash_slot_bound [of "kv_namespaces (rq_kvpair request) @ key"] by simp
  have args: "sr_args sub = ''is_subrequest=1&key='' @ key @ ''&slotid='' @ dec_nat ?n @ []"
    if "sub \<in> {zadd_sub request key, query_sub request key}" for sub
    using that assms(4) n
    by (auto simp: zadd_sub_def query_sub_def add_key_args_def SetSubRequest_def ToString_nat)
  then show "\<forall>sub\<in>{zadd_sub request key, query_sub request key}. qkupstream_init_sub (sr_args sub) =
        Inr (Some (upd_kv (\<lambda>k. k\<lparr>kv_key := key\<rparr>) (new_request\<lparr>rq_slot_id := int ?n\<rparr>)))"
    using init_sub_key [OF assms(1,2) n, of "[]"] by (metis (no_types, lifting))
  have "sr_args (slot_sub path request (int slot)) = ''is_subrequest=1&slotid='' @ dec_nat slot"
    using assms(3) by (simp add: slot_sub_def SetSubRequest_def ToString_nat)
  then show "qkupstream_init_sub (sr_args (slot_sub path request (int slot))) = Inr (Some (new_request\<lparr>rq_slot_id := int slot\<rparr>))"
    using slot_args [OF dec_nat_no_amp [of slot]] assms(3)
    by (simp add: qkupstream_init_sub_def Let_def ngx_atoi_dec)
qed

theorem subrequest_args_round_trip_witness:
  "qkupstream_init_sub (sr_args (slot_sub QKPACK_URI_MGET (upd_kv (\<lambda>k. k\<lparr>kv_command_type := REDIS_ZRANGE\<rparr>) new_request) (int 77))) =
    Inr (Some (new_request\<lparr>rq_slot_id := int 77\<rparr>))"
  using subrequest_args_round_trip [of "''k''" 77 "upd_kv (\<lambda>k. k\<lparr>kv_command_type := REDIS_ZRANGE\<rparr>) new_request" QKPACK_URI_MGET]
  by simp

text \<open>A key is not escaped in the argument string.  A fixed set key that contains \<open>&slotid=\<close> and a
  number is cut off there and its sub-request goes to that slot, whatever the hash of the key.\<close>

theorem subrequest_args_injection:
  assumes "CHR ''&'' \<notin> set key" "key \<noteq> []" "n < 2 ^ 31"
  shows "qkupstream_init_sub (sr_args (zadd_sub request (key @ ''&slotid='' @ dec_nat n))) =
    Inr (Some (upd_kv (\<lambda>k. k\<lparr>kv_key := key\<rparr>) (new_request\<lparr>rq_slot_id := int n\<rparr>)))"
proof -
  let ?rest = "''&slotid='' @ ToString (int (key_hash_slot (kv_namespaces (rq_kvpair request) @ key @ ''&slotid='' @ dec_nat n)))"
  have "sr_args (zadd_sub request (key @ ''&slotid='' @ dec_nat n)) =
      ''is_subrequest=1&key='' @ key @ ''&slotid='' @ dec_nat n @ ?rest"
    by (simp add: zadd_sub_def add_key_args_def SetSubRequest_def)
  then show ?thesis using init_sub_key [OF assms, of ?rest] by simp
qed

theorem subrequest_args_injection_witness:
  "qkupstream_init_sub (sr_args (zadd_sub new_request (''user'' @ ''&slotid='' @ dec_nat 0))) =
    Inr (Some (upd_kv (\<lambda>k. k\<lparr>kv_key := ''user''\<rparr>) (new_request\<lparr>rq_slot_id := int 0\<rparr>)))"
  by (rule subrequest_args_injection) simp_all

end
