(* ===== verification/Acl.thy ===== *)
theory Acl
  imports YajlRead
begin

text \<open>
  Access control: \<open>config/qkpack_acl.cc\<close> and the HTTP client \<open>config/easycurl.cc\<close> it asks the authority
  service with.  libcurl is a parameter: whether a handle can be opened, and the result code and the chunks
  a transfer delivers to the write callback for the options set on the handle.  The records the service
  returns are cached in \<open>map_acl_\<close>; the flag \<open>is_match_ip\<close> of a request is written into the cached record.
\<close>

unbundle bit_operations_syntax


section \<open>HTTP client\<close>

record curl_opts =
  co_post :: bool
  co_url :: bytes
  co_headers :: "bytes list"
  co_body :: bytes
  co_timeout_ms :: int
  co_connecttimeout_ms :: int

record curl_lib =
  cu_easy_init :: bool
  cu_perform :: "curl_opts \<Rightarrow> int \<times> bytes list"

record easy_curl =
  ec_curl :: "curl_opts option"
  ec_code :: int
  ec_response :: bytes

definition CURLE_OK :: int where [codes]: "CURLE_OK = 0"

definition new_EasyCurl :: "curl_lib \<Rightarrow> easy_curl" where
  "new_EasyCurl lib =
    \<lparr>ec_curl = (if cu_easy_init lib
       then Some \<lparr>co_post = False, co_url = [], co_headers = [], co_body = [], co_timeout_ms = 10000, co_connecttimeout_ms = 10000\<rparr>
       else None), ec_code = 0, ec_response = []\<rparr>"

definition writeCallback :: "bytes \<Rightarrow> easy_curl \<Rightarrow> easy_curl" where
  "writeCallback ptr p = p\<lparr>ec_response := ec_response p @ ptr\<rparr>"

definition curl_transfer :: "curl_lib \<Rightarrow> curl_opts \<Rightarrow> easy_curl \<Rightarrow> int \<times> easy_curl" where
  "curl_transfer lib opts p =
    (let (code, chunks) = cu_perform lib opts;
         p = fold writeCallback chunks (p\<lparr>ec_curl := Some opts, ec_response := []\<rparr>)\<lparr>ec_code := code\<rparr> in
     if code \<noteq> CURLE_OK then (QKPACK_ERROR, p) else (QKPACK_OK, p))"

definition set_timeout :: "int \<Rightarrow> curl_opts \<Rightarrow> curl_opts" where
  "set_timeout timeout opts =
    (if timeout > 0 then opts\<lparr>co_timeout_ms := timeout, co_connecttimeout_ms := timeout\<rparr> else opts)"

definition EasyCurl_Get :: "curl_lib \<Rightarrow> bytes \<Rightarrow> int \<Rightarrow> easy_curl \<Rightarrow> int \<times> easy_curl" where
  "EasyCurl_Get lib url timeout p =
    (case ec_curl p of
       None \<Rightarrow> (QKPACK_ERROR, p)
     | Some opts \<Rightarrow> curl_transfer lib ((set_timeout timeout (opts\<lparr>co_post := False\<rparr>))\<lparr>co_url := c_str url\<rparr>) p)"

definition EasyCurl_Post :: "curl_lib \<Rightarrow> bytes \<Rightarrow> bytes list \<Rightarrow> bytes \<Rightarrow> int \<Rightarrow> easy_curl \<Rightarrow> int \<times> easy_curl" where
  "EasyCurl_Post lib url headers data timeout p =
    (case ec_curl p of
       None \<Rightarrow> (QKPACK_ERROR, p)
     | Some opts \<Rightarrow>
         let opts = (set_timeout timeout (opts\<lparr>co_post := True\<rparr>))\<lparr>co_url := c_str url\<rparr>;
             opts = (if headers \<noteq> [] then opts\<lparr>co_headers := map c_str headers\<rparr> else opts);
             opts = (if data \<noteq> [] then opts\<lparr>co_body := data\<rparr> else opts) in
         curl_transfer lib opts p)"


section \<open>The request's own fields\<close>

record qkpack_acl =
  pa_acl_url :: bytes
  pa_timeout :: int
  pa_map_acl :: "(bytes, qkpack_acl_t) smap"

definition new_QkPackACL :: "bytes \<Rightarrow> int \<Rightarrow> qkpack_acl" where
  "new_QkPackACL acl_url timeout = \<lparr>pa_acl_url = acl_url, pa_timeout = timeout, pa_map_acl = []\<rparr>"

text \<open>The position of the third slash, and the number of slashes seen up to there.\<close>

fun third_slash :: "bytes \<Rightarrow> nat \<Rightarrow> nat \<Rightarrow> nat \<times> nat" where
  "third_slash [] j num = (j, num)"
| "third_slash (c # cs) j num =
    (let num = (if c = CHR ''/'' then num + 1 else num) in
     if num = 3 then (j, num) else third_slash cs (j + 1) num)"

definition SetNameSpace :: "qkpack_request_t \<Rightarrow> int \<times> qkpack_request_t" where
  "SetNameSpace request =
    (let data = rq_uri request in
     if \<not> starts_with QKPACK_ACL_URI_FORMAT data then (QKPACK_ERROR, request\<lparr>rq_desc := QKPACK_ERROR_ACL_FORMAT\<rparr>)
     else
       let (j, num) = third_slash data 0 0 in
       if j \<le> 0 \<or> num \<noteq> 3 then (QKPACK_ERROR, request\<lparr>rq_desc := QKPACK_ERROR_ACL_NAMESPACE_NOT_EMPTY\<rparr>)
       else
         let namespaces = c_str (drop (j + 1) data);
             request = upd_kv (\<lambda>kv. kv\<lparr>kv_namespaces := namespaces\<rparr>) request in
         if length namespaces \<noteq> QKPACK_ACL_NAMESPACE_LENGTH
         then (QKPACK_ERROR, request\<lparr>rq_desc := QKPACK_ERROR_ACL_NAMESPACE_LENGTH\<rparr>)
         else (QKPACK_OK, request))"

fun cluster_slashes :: "bytes \<Rightarrow> nat \<Rightarrow> nat \<Rightarrow> nat \<Rightarrow> nat \<times> nat \<times> nat" where
  "cluster_slashes [] j num first = (j, first, 0)"
| "cluster_slashes (c # cs) j num first =
    (let num = (if c = CHR ''/'' then num + 1 else num);
         first = (if num = 2 \<and> first = 0 then j else first) in
     if num = 3 then (j, first, j) else cluster_slashes cs (j + 1) num first)"

definition SetClusterName_acl :: "qkpack_request_t \<Rightarrow> int \<times> qkpack_request_t" where
  "SetClusterName_acl request =
    (let data = rq_uri request; (j, first, end) = cluster_slashes data 0 0 0 in
     if j \<le> 0 \<or> first = 0 \<or> end = 0 then (QKPACK_ERROR, request)
     else (QKPACK_OK, request\<lparr>rq_cluster_name := take (end - first - 1) (drop (first + 1) data)\<rparr>))"


section \<open>Limits\<close>

text \<open>The loop over \<open>map_kv\<close>: \<open>status\<close> is declared outside it.  The second component is the key length
  for which no policy was found.\<close>

fun zset_limits ::
  "limit_policies_t list \<Rightarrow> bool \<Rightarrow> (bytes, kvpair_t list) smap \<Rightarrow> ((bytes, kvpair_t list) smap \<times> int option) result" where
  "zset_limits policies status [] = Inr ([], None)"
| "zset_limits policies status ((key, kvs) # entries) =
    (let key_len = to_int (int (length key)) in
     case find (\<lambda>p. key_len \<ge> lp_min p \<and> key_len \<le> lp_max p) policies of
       Some p \<Rightarrow>
         (case kvs of
            [] \<Rightarrow> Inl Out_of_bounds
          | kv # rest \<Rightarrow> bindR (zset_limits policies True entries)
              (\<lambda>(entries, unmatched). Inr ((key, kv\<lparr>kv_limit := Some (lp_limit p)\<rparr> # rest) # entries, unmatched)))
     | None \<Rightarrow>
         if \<not> status then Inr ((key, kvs) # entries, Some key_len)
         else bindR (zset_limits policies status entries)
           (\<lambda>(entries, unmatched). Inr ((key, kvs) # entries, unmatched)))"

definition GetZsetLimit :: "limit_policies_t list \<Rightarrow> qkpack_request_t \<Rightarrow> (int \<times> qkpack_request_t) result" where
  "GetZsetLimit policies request =
    (if kv_command_type (rq_kvpair request) \<noteq> REDIS_ZADD \<and> kv_command_type (rq_kvpair request) \<noteq> REDIS_ZBATCHADD
     then Inr (QKPACK_OK, request)
     else bindR (zset_limits policies False (rq_map_kv request)) (\<lambda>(entries, unmatched).
       let request = request\<lparr>rq_map_kv := entries\<rparr> in
       case unmatched of
         None \<Rightarrow> Inr (QKPACK_OK, request)
       | Some key_len \<Rightarrow> Inr (QKPACK_ERROR,
           request\<lparr>rq_desc := rq_desc request @ QKPACK_ERROR_ACL_LIMITPOLICIES_LIMIT @ ToString key_len\<rparr>)))"

definition CheckInterfaceTimeout :: "timeouts_t list \<Rightarrow> qkpack_request_t \<Rightarrow> int \<times> qkpack_request_t" where
  "CheckInterfaceTimeout timeouts request =
    (case find (\<lambda>t. find_at (to_interface_name t) (rq_request_uri request) \<noteq> None) timeouts of
       None \<Rightarrow> (QKPACK_OK, request)
     | Some t \<Rightarrow> (QKPACK_OK, request\<lparr>rq_timeout := to_timeout t mod 2 ^ 32, rq_tries := to_tries t mod 2 ^ 32\<rparr>))"

fun check_limits :: "limits_length_t list \<Rightarrow> qkpack_request_t \<Rightarrow> int \<times> qkpack_request_t" where
  "check_limits [] request = (QKPACK_OK, request)"
| "check_limits (l # limits) request =
    (let keylen = to_int (int (length (kv_key (rq_kvpair request))));
         vallen = to_int (int (length (kv_value (rq_kvpair request))));
         datalen = to_int (int (length (rq_request_buffer request))) in
     if find_at (ll_interface_name l) (rq_request_uri request) = None then check_limits limits request
     else if keylen \<noteq> 0 \<and> keylen > ll_keylen l then (QKPACK_ERROR, request\<lparr>rq_desc := QKPACK_ERROR_ACL_LIMITSLENGTH_KEYLEN\<rparr>)
     else if vallen \<noteq> 0 \<and> vallen > ll_vallen l then (QKPACK_ERROR, request\<lparr>rq_desc := QKPACK_ERROR_ACL_LIMITSLENGTH_VALLEN\<rparr>)
     else if datalen \<noteq> 0 \<and> datalen > ll_datalen l then (QKPACK_ERROR, request\<lparr>rq_desc := QKPACK_ERROR_ACL_LIMITSLENGTH_DATALEN\<rparr>)
     else check_limits limits request)"

definition CheckInterfaceLimitsLength :: "limits_length_t list \<Rightarrow> qkpack_request_t \<Rightarrow> int \<times> qkpack_request_t" where
  "CheckInterfaceLimitsLength limits request = check_limits limits request"


section \<open>Routes\<close>

text \<open>Copying the address up to its second dot into \<open>rest[10]\<close>.\<close>

fun copy_prefix :: "bytes \<Rightarrow> nat \<Rightarrow> bytes \<Rightarrow> bytes result" where
  "copy_prefix [] num rest = Inr rest"
| "copy_prefix (p # data) num rest =
    (if length rest \<ge> 10 then Inl Out_of_bounds
     else
       let num = (if p = CHR ''.'' then num + 1 else num) in
       if num = 2 then Inr rest else copy_prefix data num (rest @ [p]))"

definition GetNodeList :: "qkpack_request_t \<Rightarrow> qkpack_acl_t \<Rightarrow> (int \<times> qkpack_request_t \<times> qkpack_acl_t) result" where
  "GetNodeList request acl =
    (let request = upd_kv (\<lambda>kv. kv\<lparr>kv_exptime := quo_expire (acl_quotation acl), kv_uri_id := acl_uri_id acl,
           kv_compress_threshold := Some (quo_compress_threshold (acl_quotation acl))\<rparr>) request;
         set_match = (\<lambda>b. acl\<lparr>acl_route := (acl_route acl)\<lparr>route_is_match_ip := b\<rparr>\<rparr>) in
     bindR (copy_prefix (rq_x_real_ip request) 0 []) (\<lambda>key.
       case smap_get (route_map_client (acl_route acl)) key of
         None \<Rightarrow> Inr (QKPACK_OK, request, set_match False)
       | Some server \<Rightarrow>
           (case smap_get (route_map_server (acl_route acl)) server of
              None \<Rightarrow> Inr (QKPACK_OK, request, set_match False)
            | Some _ \<Rightarrow> Inr (QKPACK_OK, request, set_match True))))"


section \<open>The authority service\<close>

definition authority_body :: "bytes \<Rightarrow> bytes \<Rightarrow> bytes" where
  "authority_body ak uri = ''{\"app_key\":\"'' @ ak @ ''\",\"uri\":\"'' @ uri @ ''\"}''"

definition GetCurlResponse ::
  "yajl \<Rightarrow> curl_lib \<Rightarrow> qkpack_acl \<Rightarrow> qkpack_acl_t \<Rightarrow> bytes \<Rightarrow> bytes \<Rightarrow> (int \<times> qkpack_acl_t) result" where
  "GetCurlResponse yj lib st acl ak uri =
    (let (rc, curl) = EasyCurl_Post lib (pa_acl_url st) [''Content-Type: application/json;charset=UTF-8'']
           (authority_body ak uri) (pa_timeout st) (new_EasyCurl lib) in
     if rc \<noteq> QKPACK_OK \<or> length (ec_response curl) = 0 then Inr (QKPACK_ERROR, acl)
     else bindR (ReadACLResponse yj (ec_response curl) acl) (\<lambda>(rc, acl).
       if rc \<noteq> QKPACK_OK then Inr (QKPACK_ERROR, acl) else Inr (QKPACK_OK, acl)))"

definition acl_key :: "bytes \<Rightarrow> bytes \<Rightarrow> bytes" where
  "acl_key ak uri = uri @ ''&&'' @ ak"

definition SetACL :: "yajl \<Rightarrow> curl_lib \<Rightarrow> bytes \<Rightarrow> bytes \<Rightarrow> qkpack_acl \<Rightarrow> (qkpack_acl_t option \<times> qkpack_acl) result" where
  "SetACL yj lib ak uri st =
    (case smap_get (pa_map_acl st) (acl_key ak uri) of
       Some acl \<Rightarrow> Inr (Some acl, st)
     | None \<Rightarrow> bindR (GetCurlResponse yj lib st new_acl ak uri) (\<lambda>(rc, acl).
         if rc \<noteq> QKPACK_OK then Inr (None, st)
         else Inr (Some acl, st\<lparr>pa_map_acl := smap_insert (acl_key ak uri) acl (pa_map_acl st)\<rparr>)))"

text \<open>What follows once the record is there; the pointer \<open>acl\<close> refers to the entry of the cache.\<close>

definition authorise ::
  "qkpack_acl_t \<Rightarrow> qkpack_acl \<Rightarrow> qkpack_request_t \<Rightarrow> (qkpack_acl_t option \<times> qkpack_acl \<times> qkpack_request_t) result" where
  "authorise acl st request =
    (let key = acl_key (rq_ak request) (rq_uri request); (rc, request) = SetClusterName_acl request in
     if rc \<noteq> QKPACK_OK then Inr (None, st, request)
     else bindR (GetNodeList request acl) (\<lambda>(rc, request, acl).
       let st = st\<lparr>pa_map_acl := smap_put key acl (pa_map_acl st)\<rparr>; operation_type = kv_operation_type (rq_kvpair request) in
       if rc \<noteq> QKPACK_OK then Inr (None, st, request)
       else if acl_operation acl AND operation_type = 0 then
         Inr (None, st, request\<lparr>rq_desc := if operation_type = QKPACK_OPERATION_READ then QKPACK_ERROR_INTERFACE_OPERATION_READ
           else QKPACK_ERROR_INTERFACE_OPERATION_WRITE\<rparr>)
       else
         let (rc, request) = CheckInterfaceLimitsLength (quo_vector_limits_length (acl_quotation acl)) request in
         if rc \<noteq> QKPACK_OK then Inr (None, st, request)
         else bindR (GetZsetLimit (quo_vector_policies (acl_quotation acl)) request) (\<lambda>(rc, request).
           if rc \<noteq> QKPACK_OK then Inr (None, st, request)
           else
             let (rc, request) = CheckInterfaceTimeout (quo_vector_timeouts (acl_quotation acl)) request in
             if rc \<noteq> QKPACK_OK then Inr (None, st, request) else Inr (Some acl, st, request))))"

definition Process ::
  "yajl \<Rightarrow> curl_lib \<Rightarrow> qkpack_acl \<Rightarrow> qkpack_request_t \<Rightarrow> (qkpack_acl_t option \<times> qkpack_acl \<times> qkpack_request_t) result" where
  "Process yj lib st request =
    (let (rc, request) = SetNameSpace request in
     if rc \<noteq> QKPACK_OK then Inr (None, st, request)
     else bindR (SetACL yj lib (rq_ak request) (rq_uri request) st) (\<lambda>(acl, st).
       case acl of
         None \<Rightarrow> Inr (None, st, request\<lparr>rq_desc := QKPACK_ERROR_ACL_NO_AUTH\<rparr>)
       | Some acl \<Rightarrow> authorise acl st request))"


section \<open>Specification\<close>

text \<open>Sizes that fit the \<open>int\<close> variables they are copied to.\<close>

definition small_request :: "qkpack_request_t \<Rightarrow> bool" where
  "small_request request \<longleftrightarrow> length (kv_key (rq_kvpair request)) < 2 ^ 31 \<and> length (kv_value (rq_kvpair request)) < 2 ^ 31 \<and>
    length (rq_request_buffer request) < 2 ^ 31"

definition within_limits :: "limits_length_t list \<Rightarrow> qkpack_request_t \<Rightarrow> bool" where
  "within_limits limits request \<longleftrightarrow> list_all (\<lambda>l. find_at (ll_interface_name l) (rq_request_uri request) = None \<or>
    int (length (kv_key (rq_kvpair request))) \<le> max 0 (ll_keylen l) \<and>
    int (length (kv_value (rq_kvpair request))) \<le> max 0 (ll_vallen l) \<and>
    int (length (rq_request_buffer request)) \<le> max 0 (ll_datalen l)) limits"

text \<open>A resource address: the cluster and the two characters of the namespace.\<close>

definition address :: "bytes \<Rightarrow> bytes \<Rightarrow> bytes" where
  "address cluster ns = ''qkd://'' @ cluster @ ''/'' @ ns"

text \<open>What the access control has to know to let a request through: a cached record that allows it.\<close>

definition allows :: "qkpack_acl \<Rightarrow> bytes \<Rightarrow> bytes \<Rightarrow> int \<Rightarrow> qkpack_request_t \<Rightarrow> bool" where
  "allows qa ak uri operation request \<longleftrightarrow> (\<exists>acl prefix. smap_get (pa_map_acl qa) (acl_key ak uri) = Some acl \<and>
    acl_operation acl AND operation \<noteq> 0 \<and> within_limits (quo_vector_limits_length (acl_quotation acl)) request \<and> small_request request \<and>
    copy_prefix (rq_x_real_ip request) 0 [] = Inr prefix)"

text \<open>The request after the access control: namespace and cluster of its address, expiry, threshold and time limits of the record.\<close>

definition granted :: "qkpack_acl_t \<Rightarrow> bytes \<Rightarrow> bytes \<Rightarrow> int \<Rightarrow> int \<Rightarrow> qkpack_request_t \<Rightarrow> qkpack_request_t" where
  "granted acl cluster ns timeout tries request =
    (upd_kv (\<lambda>kv. kv\<lparr>kv_namespaces := ns, kv_exptime := quo_expire (acl_quotation acl), kv_uri_id := acl_uri_id acl,
      kv_compress_threshold := Some (quo_compress_threshold (acl_quotation acl))\<rparr>) request)
    \<lparr>rq_cluster_name := cluster, rq_timeout := timeout, rq_tries := tries\<rparr>"

text \<open>A cache with one record and a reading request for it.\<close>

definition sample_acl_state :: qkpack_acl where
  "sample_acl_state = \<lparr>pa_acl_url = ''http://acl'', pa_timeout = 100, pa_map_acl = [(''qkd://BJ02/lj&&key'', sample_acl)]\<rparr>"

definition sample_get_request :: qkpack_request_t where
  "sample_get_request = upd_kv (\<lambda>kv. kv\<lparr>kv_key := ''k'', kv_operation_type := QKPACK_OPERATION_READ, kv_command_type := REDIS_GET\<rparr>)
    (new_request\<lparr>rq_uri := ''qkd://BJ02/lj'', rq_ak := ''key'', rq_request_uri := ''/hdp/kvstore/kv/get'', rq_x_real_ip := ''10.100.1.2''\<rparr>)"


section \<open>Lemmas\<close>

lemma third_slash_2: "third_slash xs j 2 = (j + scan (\<lambda>c. c = CHR ''/'') xs, if CHR ''/'' \<in> set xs then 3 else 2)"
  by (induction xs j "2::nat" rule: third_slash.induct) (auto simp: Let_def)

lemma cluster_slashes_2:
  "0 < first \<Longrightarrow> cluster_slashes xs j 2 first =
    (let i = j + scan (\<lambda>c. c = CHR ''/'') xs in (i, first, if CHR ''/'' \<in> set xs then i else 0))"
  by (induction xs j "2::nat" first rule: cluster_slashes.induct) (auto simp: Let_def)

lemma qkd_slashes:
  "third_slash (''qkd://'' @ xs) 0 0 = third_slash xs 6 2"
  "cluster_slashes (''qkd://'' @ xs) 0 0 0 = cluster_slashes xs 6 2 5"
  by (simp_all add: Let_def eval_nat_numeral)

lemma drop_qkd: "drop (n + 6) (''qkd://'' @ xs) = drop n xs"
  by (simp flip: drop_drop)

lemma SetNameSpace_OK:
  assumes "SetNameSpace request = (QKPACK_OK, request')" "NUL \<notin> set (rq_uri request)"
  obtains cluster ns where "rq_uri request = address cluster ns" "CHR ''/'' \<notin> set cluster" "length ns = 2"
    "request' = upd_kv (\<lambda>kv. kv\<lparr>kv_namespaces := ns\<rparr>) request"
proof -
  have "starts_with ''qkd://'' (rq_uri request)"
    using assms(1) by (auto simp: SetNameSpace_def names codes Let_def split: if_splits)
  then obtain xs where xs: "rq_uri request = ''qkd://'' @ xs"
    unfolding starts_with_def by (metis append_take_drop_id)
  let ?n = "scan (\<lambda>c. c = CHR ''/'') xs"
  have slash: "CHR ''/'' \<in> set xs"
    using assms(1) unfolding SetNameSpace_def xs Let_def qkd_slashes third_slash_2 by (auto simp: codes split: if_splits)
  have nul: "NUL \<notin> set (drop (?n + 1) xs)"
    using assms(2) xs in_set_dropD [of NUL "?n + 1" xs] by auto
  have drop6: "drop (6 + ?n + 1) (''qkd://'' @ xs) = drop (?n + 1) xs" using drop_qkd [of "?n + 1" xs] by (simp only: ac_simps)
  have rest: "length (drop (?n + 1) xs) = 2 \<and> request' = upd_kv (\<lambda>kv. kv\<lparr>kv_namespaces := drop (?n + 1) xs\<rparr>) request"
    using assms(1) slash unfolding SetNameSpace_def xs Let_def qkd_slashes third_slash_2 prod.case drop6 c_str_id [unfolded no_nul_def, OF nul]
    by (simp add: QKPACK_ACL_NAMESPACE_LENGTH_def split: if_splits)
  have n: "?n < length xs" using slash scan_eq_length_iff [of "\<lambda>c. c = CHR ''/''" xs] scan_le_length [of _ xs]
    by (metis le_neq_implies_less)
  have cut: "xs = take ?n xs @ CHR ''/'' # drop (?n + 1) xs"
    using n scan_nth [OF n] by (metis Suc_eq_plus1 append_take_drop_id Cons_nth_drop_Suc)
  have "CHR ''/'' \<notin> set (take ?n xs)" unfolding take_scan by (auto dest: set_takeWhileD)
  then show thesis
    using that [of "take ?n xs" "drop (?n + 1) xs"] rest cut xs by (simp add: address_def)
qed

lemma SetClusterName_address:
  assumes "rq_uri request = address cluster ns" "CHR ''/'' \<notin> set cluster"
  shows "SetClusterName_acl request = (QKPACK_OK, request\<lparr>rq_cluster_name := cluster\<rparr>)"
proof -
  have n: "scan (\<lambda>c. c = CHR ''/'') (cluster @ CHR ''/'' # ns) = length cluster"
    using assms(2) by (induction cluster) auto
  show ?thesis
    unfolding SetClusterName_acl_def assms(1) address_def Let_def qkd_slashes
    by (simp add: cluster_slashes_2 n Let_def)
qed

lemma check_limits_OK:
  "check_limits limits request = (QKPACK_OK, request') \<Longrightarrow> small_request request \<Longrightarrow> within_limits limits request \<and> request' = request"
proof (induction limits)
  case (Cons l limits)
  have short: "xs = [] \<or> \<not> m < int (length xs) \<Longrightarrow> int (length xs) \<le> max 0 m" for xs :: bytes and m
    by auto
  show ?case
    using Cons
    by (cases "find_at (ll_interface_name l) (rq_request_uri request)")
      (simp_all add: within_limits_def small_request_def Let_def short split: if_splits del: max.bounded_iff)
qed (simp add: within_limits_def)

lemma GetZsetLimit_frame:
  "GetZsetLimit policies request = Inr (rc, request') \<Longrightarrow> rq_cluster_name request' = rq_cluster_name request \<and>
    rq_kvpair request' = rq_kvpair request"
  by (auto simp: GetZsetLimit_def bindR_Inr_iff Let_def split: if_splits option.splits)

lemma CheckInterfaceTimeout_frame:
  "rq_cluster_name (snd (CheckInterfaceTimeout ts request)) = rq_cluster_name request"
  "rq_kvpair (snd (CheckInterfaceTimeout ts request)) = rq_kvpair request"
  by (auto simp: CheckInterfaceTimeout_def split: option.splits)

lemma authorise_Some:
  assumes "authorise acl0 st request = Inr (Some acl, st', request')" "small_request request"
    and "rq_uri request = address cluster ns" "CHR ''/'' \<notin> set cluster"
  shows "acl_operation acl AND kv_operation_type (rq_kvpair request) \<noteq> 0"
    "within_limits (quo_vector_limits_length (acl_quotation acl)) request"
    "rq_cluster_name request' = cluster"
    "kv_namespaces (rq_kvpair request') = kv_namespaces (rq_kvpair request)"
    "kv_exptime (rq_kvpair request') = quo_expire (acl_quotation acl)"
    "kv_compress_threshold (rq_kvpair request') = Some (quo_compress_threshold (acl_quotation acl))"
    "smap_get (pa_map_acl st') (acl_key (rq_ak request) (rq_uri request)) = Some acl"
    "acl = acl0\<lparr>acl_route := (acl_route acl0)\<lparr>route_is_match_ip := route_is_match_ip (acl_route acl)\<rparr>\<rparr>"
proof -
  let ?r1 = "upd_kv (\<lambda>kv. kv\<lparr>kv_exptime := quo_expire (acl_quotation acl), kv_uri_id := acl_uri_id acl,
    kv_compress_threshold := Some (quo_compress_threshold (acl_quotation acl))\<rparr>) (request\<lparr>rq_cluster_name := cluster\<rparr>)"
  obtain r2 r3 where r:
      "acl = acl0\<lparr>acl_route := (acl_route acl0)\<lparr>route_is_match_ip := route_is_match_ip (acl_route acl)\<rparr>\<rparr>"
      "acl_operation acl AND kv_operation_type (rq_kvpair request) \<noteq> 0"
      "check_limits (quo_vector_limits_length (acl_quotation acl)) ?r1 = (QKPACK_OK, r2)"
      "GetZsetLimit (quo_vector_policies (acl_quotation acl)) r2 = Inr (QKPACK_OK, r3)"
      "request' = snd (CheckInterfaceTimeout (quo_vector_timeouts (acl_quotation acl)) r3)"
      "st' = st\<lparr>pa_map_acl := smap_put (acl_key (rq_ak request) (rq_uri request)) acl (pa_map_acl st)\<rparr>"
    using assms(1) unfolding authorise_def SetClusterName_address [OF assms(3,4)] GetNodeList_def CheckInterfaceLimitsLength_def
    by (auto simp: bindR_Inr_iff Let_def split: if_splits option.splits prod.splits)
  have "small_request ?r1" using assms(2) by (simp add: small_request_def)
  then have r2: "within_limits (quo_vector_limits_length (acl_quotation acl)) ?r1" "r2 = ?r1"
    using check_limits_OK [OF r(3)] by blast+
  show "within_limits (quo_vector_limits_length (acl_quotation acl)) request" using r2(1) by (simp add: within_limits_def)
  have r': "rq_cluster_name request' = rq_cluster_name ?r1" "rq_kvpair request' = rq_kvpair ?r1"
    using GetZsetLimit_frame [OF r(4)] unfolding r(5) CheckInterfaceTimeout_frame r2(2) by simp_all
  show "rq_cluster_name request' = cluster"
    "kv_namespaces (rq_kvpair request') = kv_namespaces (rq_kvpair request)"
    "kv_exptime (rq_kvpair request') = quo_expire (acl_quotation acl)"
    "kv_compress_threshold (rq_kvpair request') = Some (quo_compress_threshold (acl_quotation acl))"
    unfolding r' by simp_all
  show "smap_get (pa_map_acl st') (acl_key (rq_ak request) (rq_uri request)) = Some acl"
    by (simp add: r(6) smap_get_put)
  show "acl_operation acl AND kv_operation_type (rq_kvpair request) \<noteq> 0"
    "acl = acl0\<lparr>acl_route := (acl_route acl0)\<lparr>route_is_match_ip := route_is_match_ip (acl_route acl)\<rparr>\<rparr>"
    by (fact r)+
qed

lemma SetACL_cached: "smap_get (pa_map_acl st) (acl_key ak uri) = Some acl \<Longrightarrow> SetACL yj lib ak uri st = Inr (Some acl, st)"
  by (simp add: SetACL_def)

lemma SetACL_caches: "SetACL yj lib ak uri st = Inr (Some acl, st') \<Longrightarrow> smap_get (pa_map_acl st') (acl_key ak uri) = Some acl"
  by (auto simp: SetACL_def bindR_Inr_iff smap_get_insert split: option.splits if_splits)

lemma Process_Some:
  assumes "Process yj lib st request = Inr (Some acl, st', request')"
  obtains request1 acl0 st1 where "SetNameSpace request = (QKPACK_OK, request1)"
    "SetACL yj lib (rq_ak request1) (rq_uri request1) st = Inr (Some acl0, st1)" "authorise acl0 st1 request1 = Inr (Some acl, st', request')"
  using assms unfolding Process_def
  by (auto simp: bindR_Inr_iff Let_def split: if_splits option.splits prod.splits)

lemma SetNameSpace_frame: "SetNameSpace request = (rc, request') \<Longrightarrow> rq_uri request' = rq_uri request \<and> rq_ak request' = rq_ak request"
  by (auto simp: SetNameSpace_def Let_def split: if_splits prod.splits)

lemma authorise_caches:
  assumes "authorise acl0 st request = Inr (Some acl, st', request')"
  shows "smap_get (pa_map_acl st') (acl_key (rq_ak request) (rq_uri request)) = Some acl"
  using assms unfolding authorise_def
  by (auto simp: bindR_Inr_iff Let_def smap_get_put split_beta split: if_splits)

lemma Process_cached:
  assumes "smap_get (pa_map_acl st) (acl_key (rq_ak request) (rq_uri request)) = Some acl"
  shows "Process yj lib st request =
    (let (rc, request) = SetNameSpace request in
     if rc \<noteq> QKPACK_OK then Inr (None, st, request) else authorise acl st request)"
proof -
  obtain rc r where r: "SetNameSpace request = (rc, r)" by force
  show ?thesis using assms SetNameSpace_frame [OF r] by (simp add: Process_def r SetACL_cached)
qed

lemma address_inject:
  assumes "CHR ''/'' \<notin> set c" "CHR ''/'' \<notin> set d" "length ns = 2" "length ms = 2" "address c ns @ a = address d ms @ b"
  shows "c = d \<and> ns = ms \<and> a = b"
proof -
  have eq: "c @ CHR ''/'' # ns @ a = d @ CHR ''/'' # ms @ b" using assms(5) by (simp add: address_def)
  have "takeWhile (\<lambda>x. x \<noteq> CHR ''/'') (c @ CHR ''/'' # ns @ a) = c" "takeWhile (\<lambda>x. x \<noteq> CHR ''/'') (d @ CHR ''/'' # ms @ b) = d"
    using assms(1,2) by (auto simp: takeWhile_append takeWhile_eq_all_conv)
  then have "c = d" using eq by metis
  then show ?thesis using eq assms(3,4) by simp
qed


lemma copy_prefix_overflow:
  "length rest \<le> 10 \<Longrightarrow> num < 2 \<Longrightarrow> copy_prefix data num rest = Inl e \<longleftrightarrow>
    e = Out_of_bounds \<and> 10 < length rest + length data \<and> num + count_list (take (10 - length rest) data) (CHR ''.'') < 2"
proof (induction data num rest rule: copy_prefix.induct)
  case (2 p data num rest)
  show ?case
  proof (cases "length rest = 10")
    case False
    then obtain m where m: "10 - length rest = Suc m" "10 - length (rest @ [p]) = m" using 2 by (cases "10 - length rest") auto
    show ?thesis
    proof (cases "p = CHR ''.'' \<and> num = 1")
      case True
      then show ?thesis using False 2(2) m by auto
    next
      case num: False
      let ?num = "if p = CHR ''.'' then num + 1 else num"
      have "copy_prefix (p # data) num rest = copy_prefix data ?num (rest @ [p])" "?num < 2"
        using False 2(2,3) num by (auto simp: Let_def)
      then show ?thesis using 2(1) [OF _ refl] False 2(2) m by (auto simp: Let_def)
    qed
  qed (use 2 in auto)
qed auto

lemma zset_limits_matched:
  "\<forall>(key, kvs)\<in>set entries. kvs \<noteq> [] \<Longrightarrow> \<exists>entries'. zset_limits policies True entries = Inr (entries', None)"
  by (induction entries) (fastforce simp: Let_def neq_Nil_conv split: option.split)+

lemma sample_grant:
  "Process yj lib sample_acl_state sample_get_request =
    (let acl = sample_acl\<lparr>acl_route := (acl_route sample_acl)\<lparr>route_is_match_ip := True\<rparr>\<rparr> in
     Inr (Some acl, sample_acl_state\<lparr>pa_map_acl := [(''qkd://BJ02/lj&&key'', acl)]\<rparr>,
       (upd_kv (\<lambda>kv. kv\<lparr>kv_namespaces := ''lj'', kv_exptime := 86400, kv_uri_id := ''1453'', kv_compress_threshold := Some 1\<rparr>)
         sample_get_request)\<lparr>rq_cluster_name := ''BJ02'', rq_timeout := 10, rq_tries := 5\<rparr>))"
proof -
  let ?r = "upd_kv (\<lambda>kv. kv\<lparr>kv_namespaces := ''lj''\<rparr>) sample_get_request"
  have ns: "SetNameSpace sample_get_request = (QKPACK_OK, ?r)"
    by (simp add: SetNameSpace_def sample_get_request_def names QKPACK_ACL_NAMESPACE_LENGTH_def starts_with_def c_str_def NUL_def Let_def)
  have cluster: "SetClusterName_acl ?r = (QKPACK_OK, ?r\<lparr>rq_cluster_name := ''BJ02''\<rparr>)"
    by (rule SetClusterName_address [of _ _ "''lj''"]) (simp_all add: sample_get_request_def address_def)
  have cached: "smap_get (pa_map_acl sample_acl_state) (acl_key (rq_ak sample_get_request) (rq_uri sample_get_request)) = Some sample_acl"
    by (simp add: sample_acl_state_def acl_key_def sample_get_request_def)
  have found: "find_at ''kv/get'' ''/hdp/kvstore/kv/get'' = Some 13" by (simp add: starts_with_def)
  let ?q = "(upd_kv (\<lambda>kv. kv\<lparr>kv_exptime := 86400, kv_uri_id := ''1453'', kv_compress_threshold := Some 1\<rparr>) ?r)\<lparr>rq_cluster_name := ''BJ02''\<rparr>"
  let ?acl = "sample_acl\<lparr>acl_route := (acl_route sample_acl)\<lparr>route_is_match_ip := True\<rparr>\<rparr>"
  have node: "GetNodeList (?r\<lparr>rq_cluster_name := ''BJ02''\<rparr>) sample_acl = Inr (QKPACK_OK, ?q, ?acl)"
    by (simp add: GetNodeList_def sample_get_request_def sample_acl_def Let_def)
  have limits: "CheckInterfaceLimitsLength (quo_vector_limits_length (acl_quotation ?acl)) ?q = (QKPACK_OK, ?q)"
    by (simp add: found CheckInterfaceLimitsLength_def sample_acl_def sample_get_request_def new_request_def new_kvpair_def Let_def del: find_at.simps)
  have zset: "GetZsetLimit (quo_vector_policies (acl_quotation ?acl)) ?q = Inr (QKPACK_OK, ?q)"
    by (simp add: GetZsetLimit_def sample_get_request_def REDIS_GET_def REDIS_ZADD_def REDIS_ZBATCHADD_def)
  have timeout: "CheckInterfaceTimeout (quo_vector_timeouts (acl_quotation ?acl)) ?q = (QKPACK_OK, ?q\<lparr>rq_timeout := 10, rq_tries := 5\<rparr>)"
    by (simp add: found CheckInterfaceTimeout_def sample_acl_def sample_get_request_def del: find_at.simps)
  have op: "acl_operation ?acl AND kv_operation_type (rq_kvpair ?q) \<noteq> 0"
    by (simp add: sample_acl_def sample_get_request_def QKPACK_OPERATION_READ_def)
  show ?thesis
    unfolding Process_cached [OF cached] ns authorise_def cluster Let_def prod.case node bindR.simps limits zset timeout
    using op by (simp add: sample_acl_state_def acl_key_def sample_get_request_def)
qed

lemma SetNameSpace_address:
  assumes "rq_uri request = address cluster ns" "CHR ''/'' \<notin> set cluster" "length ns = 2" "no_nul ns"
  shows "SetNameSpace request = (QKPACK_OK, upd_kv (\<lambda>kv. kv\<lparr>kv_namespaces := ns\<rparr>) request)"
proof -
  have n: "scan (\<lambda>c. c = CHR ''/'') (cluster @ ''/'' @ ns) = length cluster"
    using assms(2) by (induction cluster) auto
  have d: "drop (6 + length cluster + 1) (''qkd://'' @ cluster @ ''/'' @ ns) = ns"
    using drop_qkd [of "length cluster + 1" "cluster @ ''/'' @ ns"] by (simp add: ac_simps)
  show ?thesis
    unfolding SetNameSpace_def assms(1) address_def Let_def qkd_slashes third_slash_2 n prod.case d c_str_id [OF assms(4)]
    using assms(3) by (simp add: names starts_with_def QKPACK_ACL_NAMESPACE_LENGTH_def)
qed

lemma check_limits_within:
  "within_limits limits request \<Longrightarrow> small_request request \<Longrightarrow> check_limits limits request = (QKPACK_OK, request)"
proof (induction limits)
  case (Cons l limits)
  have short: "int (length xs) \<le> max 0 m \<Longrightarrow> xs = [] \<or> \<not> m < int (length xs)" for xs :: bytes and m
    by (cases xs) auto
  have "check_limits limits request = (QKPACK_OK, request)" using Cons by (simp add: within_limits_def)
  then show ?case
    using Cons.prems short [of "kv_key (rq_kvpair request)" "ll_keylen l"] short [of "kv_value (rq_kvpair request)" "ll_vallen l"]
      short [of "rq_request_buffer request" "ll_datalen l"]
    by (auto simp: within_limits_def small_request_def Let_def)
qed simp

lemma CheckInterfaceTimeout_some: "\<exists>t n. CheckInterfaceTimeout timeouts request = (QKPACK_OK, request\<lparr>rq_timeout := t, rq_tries := n\<rparr>)"
proof (cases "find (\<lambda>t. find_at (to_interface_name t) (rq_request_uri request) \<noteq> None) timeouts")
  case None
  then show ?thesis by (intro exI [of _ "rq_timeout request"] exI [of _ "rq_tries request"]) (simp add: CheckInterfaceTimeout_def)
next
  case (Some t)
  then show ?thesis unfolding CheckInterfaceTimeout_def by simp blast
qed

lemma Process_allows:
  assumes "rq_uri request = address cluster ns" "CHR ''/'' \<notin> set cluster" "length ns = 2" "no_nul ns"
    and "allows qa (rq_ak request) (rq_uri request) (kv_operation_type (rq_kvpair request)) request"
    and "kv_command_type (rq_kvpair request) \<notin> {REDIS_ZADD, REDIS_ZBATCHADD}"
  shows "\<exists>acl acl' qa' timeout tries. Process yj lib qa request = Inr (Some acl', qa', granted acl cluster ns timeout tries request)"
proof -
  obtain acl prefix where acl: "smap_get (pa_map_acl qa) (acl_key (rq_ak request) (rq_uri request)) = Some acl"
      "acl_operation acl AND kv_operation_type (rq_kvpair request) \<noteq> 0" "within_limits (quo_vector_limits_length (acl_quotation acl)) request"
      "small_request request" "copy_prefix (rq_x_real_ip request) 0 [] = Inr prefix"
    using assms(5) unfolding allows_def by blast
  let ?r1 = "upd_kv (\<lambda>kv. kv\<lparr>kv_namespaces := ns\<rparr>) request"
  let ?r2 = "?r1\<lparr>rq_cluster_name := cluster\<rparr>"
  let ?r3 = "upd_kv (\<lambda>kv. kv\<lparr>kv_exptime := quo_expire (acl_quotation acl), kv_uri_id := acl_uri_id acl,
      kv_compress_threshold := Some (quo_compress_threshold (acl_quotation acl))\<rparr>) ?r2"
  have "\<exists>b. GetNodeList ?r2 acl = Inr (QKPACK_OK, ?r3, acl\<lparr>acl_route := (acl_route acl)\<lparr>route_is_match_ip := b\<rparr>\<rparr>)"
    using acl(5) by (auto simp: GetNodeList_def Let_def split: option.split)
  then obtain b where node: "GetNodeList ?r2 acl = Inr (QKPACK_OK, ?r3, acl\<lparr>acl_route := (acl_route acl)\<lparr>route_is_match_ip := b\<rparr>\<rparr>)" ..
  have "check_limits (quo_vector_limits_length (acl_quotation acl)) ?r3 = (QKPACK_OK, ?r3)"
    using acl(3,4) by (intro check_limits_within) (simp_all add: within_limits_def small_request_def)
  moreover have "GetZsetLimit policies ?r3 = Inr (QKPACK_OK, ?r3)" for policies
    using assms(6) by (simp add: GetZsetLimit_def)
  moreover obtain t n where "CheckInterfaceTimeout (quo_vector_timeouts (acl_quotation acl)) ?r3 = (QKPACK_OK, ?r3\<lparr>rq_timeout := t, rq_tries := n\<rparr>)"
    using CheckInterfaceTimeout_some by blast
  ultimately have "\<exists>qa'. authorise acl qa ?r1 = Inr (Some (acl\<lparr>acl_route := (acl_route acl)\<lparr>route_is_match_ip := b\<rparr>\<rparr>), qa',
      ?r3\<lparr>rq_timeout := t, rq_tries := n\<rparr>)"
    using assms(1,2) node acl(2) SetClusterName_address [of ?r1 cluster ns] by (simp add: authorise_def Let_def CheckInterfaceLimitsLength_def)
  moreover have "?r3\<lparr>rq_timeout := t, rq_tries := n\<rparr> = granted acl cluster ns t n request" by (simp add: granted_def)
  ultimately obtain qa' where "authorise acl qa ?r1 = Inr (Some (acl\<lparr>acl_route := (acl_route acl)\<lparr>route_is_match_ip := b\<rparr>\<rparr>), qa', granted acl cluster ns t n request)"
    by auto
  then show ?thesis
    using SetNameSpace_address [OF assms(1-4)] acl(1)
    by (intro exI [of _ acl] exI [of _ t] exI [of _ n] exI) (simp add: Process_def SetACL_cached)
qed


section \<open>Properties\<close>

text \<open>C39: What a granted request has passed: its resource address has the documented form and gives the cluster and the
  namespace the request continues with, the operation of the command is among those of the access record, the key, the
  value and the body are within the limits of every interface that the path matches, and the record is the one in the cache.\<close>

theorem Process_grants:
  assumes "Process yj lib st request = Inr (Some acl, st', request')" "NUL \<notin> set (rq_uri request)" "small_request request"
  shows "acl_operation acl AND kv_operation_type (rq_kvpair request) \<noteq> 0 \<and>
    within_limits (quo_vector_limits_length (acl_quotation acl)) request \<and>
    (\<exists>cluster ns. rq_uri request = address cluster ns \<and> CHR ''/'' \<notin> set cluster \<and> length ns = 2 \<and>
      rq_cluster_name request' = cluster \<and> kv_namespaces (rq_kvpair request') = ns) \<and>
    kv_exptime (rq_kvpair request') = quo_expire (acl_quotation acl) \<and>
    kv_compress_threshold (rq_kvpair request') = Some (quo_compress_threshold (acl_quotation acl)) \<and>
    smap_get (pa_map_acl st') (acl_key (rq_ak request) (rq_uri request)) = Some acl"
proof -
  obtain r1 acl0 st1 where s: "SetNameSpace request = (QKPACK_OK, r1)" and a: "authorise acl0 st1 r1 = Inr (Some acl, st', request')"
    using Process_Some [OF assms(1)] by metis
  obtain c ns where c: "rq_uri request = address c ns" "CHR ''/'' \<notin> set c" "length ns = 2"
    and r1: "r1 = upd_kv (\<lambda>kv. kv\<lparr>kv_namespaces := ns\<rparr>) request"
    by (rule SetNameSpace_OK [OF s assms(2)])
  have "small_request r1" "rq_uri r1 = address c ns" using assms(3) c(1) by (simp_all add: r1 small_request_def)
  note granted = authorise_Some [OF a this c(2)]
  then show ?thesis using c by (simp add: r1 within_limits_def)
qed

theorem Process_grants_witness:
  "\<forall>yj lib. \<exists>acl st' request'. Process yj lib sample_acl_state sample_get_request = Inr (Some acl, st', request') \<and>
      acl_operation acl AND kv_operation_type (rq_kvpair sample_get_request) \<noteq> 0 \<and>
      within_limits (quo_vector_limits_length (acl_quotation acl)) sample_get_request"
proof (intro allI)
  fix yj lib
  have "NUL \<notin> set (rq_uri sample_get_request)" "small_request sample_get_request"
    by (simp_all add: sample_get_request_def NUL_def small_request_def new_request_def new_kvpair_def)
  then show "\<exists>acl st' request'. Process yj lib sample_acl_state sample_get_request = Inr (Some acl, st', request') \<and>
      acl_operation acl AND kv_operation_type (rq_kvpair sample_get_request) \<noteq> 0 \<and>
      within_limits (quo_vector_limits_length (acl_quotation acl)) sample_get_request"
    using Process_grants [OF sample_grant [of yj lib, unfolded Let_def]] sample_grant [of yj lib, unfolded Let_def] by blast
qed




text \<open>The network prefix of the client address is copied to a buffer of ten characters without a bound.  The copy leaves
  the buffer exactly when the address is longer than ten characters and its first ten contain fewer than two dots.\<close>

theorem GetNodeList_overflow:
  "GetNodeList request acl = Inl e \<longleftrightarrow> e = Out_of_bounds \<and> 10 < length (rq_x_real_ip request) \<and>
    count_list (take 10 (rq_x_real_ip request)) (CHR ''.'') < 2"
  using copy_prefix_overflow [of "[]" 0 "rq_x_real_ip request"]
  by (cases "copy_prefix (rq_x_real_ip request) 0 []") (auto simp: GetNodeList_def Let_def split: option.splits)

text \<open>Once one key of a fixed-set write has a length that some policy covers, the later keys are accepted whatever their
  length, and those that no policy covers go on without a limit.\<close>

theorem GetZsetLimit_status:
  assumes "kv_command_type (rq_kvpair request) \<in> {REDIS_ZADD, REDIS_ZBATCHADD}"
    and "rq_map_kv request = (key, kv # kvs) # (key2, kvs2) # entries" "\<forall>(key, kvs)\<in>set ((key2, kvs2) # entries). kvs \<noteq> []"
    and "\<exists>p\<in>set policies. lp_min p \<le> int (length key) \<and> int (length key) \<le> lp_max p" "length key < 2 ^ 31"
    and "\<forall>p\<in>set policies. \<not> (lp_min p \<le> int (length key2) \<and> int (length key2) \<le> lp_max p)" "length key2 < 2 ^ 31"
  shows "\<exists>kv' entries'. GetZsetLimit policies request =
    Inr (QKPACK_OK, request\<lparr>rq_map_kv := (key, kv' # kvs) # (key2, kvs2) # entries'\<rparr>)"
proof -
  obtain p where p: "find (\<lambda>p. int (length key) \<ge> lp_min p \<and> int (length key) \<le> lp_max p) policies = Some p"
    using assms(4)
    by (cases "find (\<lambda>p. int (length key) \<ge> lp_min p \<and> int (length key) \<le> lp_max p) policies") (auto simp: find_None_iff)
  have none: "find (\<lambda>p. int (length key2) \<ge> lp_min p \<and> int (length key2) \<le> lp_max p) policies = None"
    using assms(6) by (simp add: find_None_iff)
  obtain entries' where "zset_limits policies True entries = Inr (entries', None)"
    using zset_limits_matched [of entries policies] assms(3) by auto
  then have "zset_limits policies False (rq_map_kv request) =
      Inr ((key, kv\<lparr>kv_limit := Some (lp_limit p)\<rparr> # kvs) # (key2, kvs2) # entries', None)"
    using assms(2,5,7) p none by (simp add: Let_def)
  then have "GetZsetLimit policies request = Inr (QKPACK_OK,
      request\<lparr>rq_map_kv := (key, kv\<lparr>kv_limit := Some (lp_limit p)\<rparr> # kvs) # (key2, kvs2) # entries'\<rparr>)"
    using assms(1) unfolding GetZsetLimit_def by (elim insertE emptyE) simp_all
  then show ?thesis by blast
qed

theorem GetZsetLimit_status_witness:
  "\<exists>kv' entries'. GetZsetLimit [\<lparr>lp_min = 1, lp_max = 2, lp_limit = 5\<rparr>]
      ((upd_kv (\<lambda>kv. kv\<lparr>kv_command_type := REDIS_ZBATCHADD\<rparr>) new_request)\<lparr>rq_map_kv := [(''a'', [new_kvpair]), (''abc'', [new_kvpair])]\<rparr>) =
    Inr (QKPACK_OK, (upd_kv (\<lambda>kv. kv\<lparr>kv_command_type := REDIS_ZBATCHADD\<rparr>) new_request)
      \<lparr>rq_map_kv := (''a'', [kv']) # (''abc'', [new_kvpair]) # entries'\<rparr>)"
  using GetZsetLimit_status [of "(upd_kv (\<lambda>kv. kv\<lparr>kv_command_type := REDIS_ZBATCHADD\<rparr>) new_request)
      \<lparr>rq_map_kv := [(''a'', [new_kvpair]), (''abc'', [new_kvpair])]\<rparr>" "''a''" new_kvpair "[]" "''abc''" "[new_kvpair]" "[]"
      "[\<lparr>lp_min = 1, lp_max = 2, lp_limit = 5\<rparr>]"]
  by (simp del: ex_simps)

end
