(* ===== verification/Handler.thy ===== *)
theory Handler
  imports SubRequest RedisCluster Acl
begin

text \<open>
  The request handler of \<open>core/qkpack_handler.cc\<close>, which composes the parser, access control, the cluster map
  and the protocol: creating the request to the storage, repeating it after a redirection, and processing the
  reply.  The state is that of the four objects the handler owns.  The request and the request it is part of,
  if any, are passed and returned; the metrics calls change neither.
\<close>


section \<open>State\<close>

record qkpack_handler =
  qh_parser :: parser_impl
  qh_cluster :: redis_cluster
  qh_acl :: qkpack_acl
  qh_proto :: redis_proto

text \<open>What the process gets from outside: the libraries, the connections, the file system and the clock.\<close>

record handler_env =
  he_yajl :: yajl
  he_curl :: curl_lib
  he_nodes :: cluster_nodes_fn
  he_proto :: proto_env
  he_file :: "bytes \<Rightarrow> bytes option"
  he_time_us :: "nat \<Rightarrow> int"
  he_time_ms :: int

type_synonym handled = "(int \<times> qkpack_request_t \<times> qkpack_request_t option \<times> qkpack_handler) result"

definition QKPACK_TIME_END :: "handler_env \<Rightarrow> nat \<Rightarrow> qkpack_request_t \<Rightarrow> qkpack_request_t" where
  "QKPACK_TIME_END env n request = request\<lparr>rq_cost := he_time_us env n\<rparr>"

text \<open>\<open>FilekvParser::Parse\<close> into a string: a file that cannot be opened contributes nothing.\<close>

definition FilekvParser_Parse :: "handler_env \<Rightarrow> bytes \<Rightarrow> bytes \<Rightarrow> bool \<times> bytes" where
  "FilekvParser_Parse env file str = (True, str @ (case he_file env (c_str file) of None \<Rightarrow> [] | Some content \<Rightarrow> content))"

definition new_conf :: "handler_env \<Rightarrow> bytes \<Rightarrow> qkpack_conf_t" where
  "new_conf env str = \<lparr>conf_str = str, conf_add_zset_script = [], conf_add_multikv_script = [], conf_incrby_script = [],
     conf_add_rset_script = [], conf_acl_url = [], conf_timeout = pe_junk_int (he_proto env)\<rparr>"

definition Init :: "handler_env \<Rightarrow> bytes \<Rightarrow> bytes \<Rightarrow> int \<Rightarrow> int \<Rightarrow> (int \<times> qkpack_handler option) result" where
  "Init env so_conf backup_server mset_max batchadd_max =
    (let (ok, conf_str) = FilekvParser_Parse env so_conf [] in
     if \<not> ok then Inr (QKPACK_ERROR, None)
     else bindR (ParseConf (he_yajl env) (new_conf env conf_str)) (\<lambda>(rc, conf).
       if rc \<noteq> QKPACK_OK then Inr (QKPACK_ERROR, None)
       else Inr (QKPACK_OK, Some
         \<lparr>qh_parser = \<lparr>mset_max_count = mset_max, batchadd_max_count = batchadd_max\<rparr>,
          qh_cluster = new_redis_cluster backup_server,
          qh_acl = new_QkPackACL (conf_acl_url conf) (conf_timeout conf),
          qh_proto = new_redis_proto (conf_add_multikv_script conf) (conf_add_zset_script conf)
            (conf_incrby_script conf) (conf_add_rset_script conf)\<rparr>)))"


section \<open>Errors\<close>

text \<open>Both error functions first copy the code and the description to the request this one is part of.\<close>

definition copy_error :: "qkpack_request_t \<Rightarrow> qkpack_request_t option \<Rightarrow> qkpack_request_t option" where
  "copy_error request parent = map_option (\<lambda>p. p\<lparr>rq_code := rq_code request, rq_desc := rq_desc request\<rparr>) parent"

definition ProcessBodyError ::
  "handler_env \<Rightarrow> qkpack_request_t option \<Rightarrow> qkpack_request_t \<Rightarrow> int \<times> qkpack_request_t \<times> qkpack_request_t option" where
  "ProcessBodyError env parent request =
    (let parent = copy_error request parent; (_, request) = ParseResponseError (he_yajl env) (he_time_ms env) request in
     (QKPACK_OK, request, parent))"

definition CreateRequestError ::
  "handler_env \<Rightarrow> qkpack_request_t option \<Rightarrow> qkpack_request_t \<Rightarrow> qkpack_handler \<Rightarrow> handled" where
  "CreateRequestError env parent request h =
    (let parent = copy_error request parent in
     if CheckSubRequest request then
       let (_, request, parent) = ProcessBodyError env parent request in Inr (QKPACK_OK, request, parent, h)
     else
       let request = request\<lparr>rq_node_ip := GetBackUpNode (qh_cluster h)\<rparr> in
       bindR (RedisProtoEncode (he_proto env) parent request (qh_proto h)) (\<lambda>(rc, request, rp).
         let h = h\<lparr>qh_proto := rp\<rparr> in
         if rc \<noteq> QKPACK_OK then Inr (QKPACK_ERROR, request, parent, h) else Inr (QKPACK_OK, request, parent, h)))"

abbreviation with_code :: "int \<Rightarrow> qkpack_request_t \<Rightarrow> qkpack_request_t" where
  "with_code code request \<equiv> request\<lparr>rq_code := code\<rparr>"


section \<open>Creating the request\<close>

text \<open>From the label \<open>subrequest\<close> on.\<close>

definition encode_request ::
  "handler_env \<Rightarrow> qkpack_request_t option \<Rightarrow> qkpack_request_t \<Rightarrow> qkpack_handler \<Rightarrow> handled" where
  "encode_request env parent request h =
    bindR (RedisProtoEncode (he_proto env) parent request (qh_proto h)) (\<lambda>(rc, request, rp).
      let h = h\<lparr>qh_proto := rp\<rparr> in
      if rc \<noteq> QKPACK_OK then CreateRequestError env parent (with_code QKPACK_RESPONSE_CODE_UNKNOWN request) h
      else Inr (QKPACK_OK, QKPACK_TIME_END env 4 request, parent, h))"

definition create_subrequest ::
  "handler_env \<Rightarrow> qkpack_request_t option \<Rightarrow> qkpack_request_t \<Rightarrow> qkpack_handler \<Rightarrow> handled" where
  "create_subrequest env parent request h =
    (if rq_node_ip request = [] then
       bindR (GetNode_slot parent request (qh_cluster h)) (\<lambda>(rc, request).
         if rc \<noteq> QKPACK_OK then CreateRequestError env parent (with_code QKPACK_RESPONSE_CODE_UNKNOWN request) h
         else encode_request env parent (QKPACK_TIME_END env 3 request) h)
     else encode_request env parent request h)"

definition CreateRequest ::
  "handler_env \<Rightarrow> qkpack_request_t option \<Rightarrow> qkpack_request_t \<Rightarrow> qkpack_handler \<Rightarrow> handled" where
  "CreateRequest env parent request h =
    bindR (ParseRequestBody (he_yajl env) parent request) (\<lambda>(rc, request).
      if rc \<noteq> QKPACK_OK then CreateRequestError env parent (with_code QKPACK_RESPONSE_CODE_PARSE_ERROR request) h
      else
        let request = QKPACK_TIME_END env 0 request in
        if rq_is_subrequest request then create_subrequest env parent request h
        else bindR (Process (he_yajl env) (he_curl env) (qh_acl h) request) (\<lambda>(acl, qa, request).
          let h = h\<lparr>qh_acl := qa\<rparr> in
          case acl of
            None \<Rightarrow> CreateRequestError env parent (with_code QKPACK_RESPONSE_CODE_ILLEGAL_RIGHT request) h
          | Some acl \<Rightarrow>
              let request = QKPACK_TIME_END env 1 request in
              bindR (GetNode (he_nodes env) (pe_junk_int (he_proto env)) (acl_route acl) request (qh_cluster h))
                (\<lambda>(rc, request, cluster).
                  let h = h\<lparr>qh_cluster := cluster\<rparr> in
                  if rc \<noteq> QKPACK_OK then CreateRequestError env parent (with_code QKPACK_RESPONSE_CODE_UNKNOWN request) h
                  else
                    let request = QKPACK_TIME_END env 2 request in
                    if CheckSubRequest request then
                      bindR (CreateSubRequestBody (qh_parser h) (he_yajl env) (he_time_ms env) request) (\<lambda>(rc, request).
                        if rc = QKPACK_ERROR then
                          let (rc, request, parent) = ProcessBodyError env parent request in Inr (rc, request, parent, h)
                        else Inr (rc, request, parent, h))
                    else create_subrequest env parent request h)))"


section \<open>Repeating the request\<close>

definition ASKING_cmd :: bytes where
  "ASKING_cmd = ''*1'' @ CRLF @ ''$6'' @ CRLF @ ''ASKING'' @ CRLF"

text \<open>\<open>tries\<close> and \<open>now_tries\<close> are unsigned: the difference wraps around at 0.\<close>

definition ReinitRequest ::
  "handler_env \<Rightarrow> qkpack_request_t option \<Rightarrow> qkpack_request_t \<Rightarrow> qkpack_handler \<Rightarrow> handled" where
  "ReinitRequest env parent request h =
    (if rq_now_tries request = (rq_tries request - 1) mod 2 ^ 32 then
       CreateRequestError env parent
         (with_code QKPACK_RESPONSE_CODE_5XX_TIMEOUT (upd_kv (\<lambda>kv. kv\<lparr>kv_moved_ask := QKPACK_OK\<rparr>) request)) h
     else if kv_moved_ask (rq_kvpair request) = REDIS_ASK then
       Inr (QKPACK_OK, upd_kv (\<lambda>kv. kv\<lparr>kv_proto_str := ASKING_cmd @ kv_proto_str kv, kv_moved_ask := REDIS_ASKING\<rparr>) request, parent, h)
     else Inr (QKPACK_OK, request, parent, h))"


section \<open>Processing the reply\<close>

definition reply_error ::
  "handler_env \<Rightarrow> qkpack_request_t option \<Rightarrow> qkpack_request_t \<Rightarrow> qkpack_handler \<Rightarrow> handled" where
  "reply_error env parent request h =
    (let (rc, request, parent) = ProcessBodyError env parent request in Inr (rc, request, parent, h))"

text \<open>MOVED, ASK and TRYAGAIN.\<close>

definition redirect ::
  "handler_env \<Rightarrow> int \<Rightarrow> qkpack_request_t option \<Rightarrow> qkpack_request_t \<Rightarrow> qkpack_handler \<Rightarrow> handled" where
  "redirect env rc parent request h =
    (if kv_moved_ask (rq_kvpair request) = REDIS_ASKING_END
     then reply_error env parent (with_code QKPACK_RESPONSE_CODE_REDIS_STORAGE_ERROR request) h
     else
       let request = upd_kv (\<lambda>kv. kv\<lparr>kv_moved_ask := if rc = REDIS_TRYAGAIN then REDIS_MOVED else rc\<rparr>) request in
       bindR (ProcessMoved (rq_response_buffer request) (rq_cluster_name request) (rq_node_ip request) rc (qh_cluster h))
         (\<lambda>(rc, node_ip, cluster).
           let request = request\<lparr>rq_node_ip := node_ip\<rparr>; h = h\<lparr>qh_cluster := cluster\<rparr> in
           if rc \<noteq> QKPACK_OK then reply_error env parent (with_code QKPACK_RESPONSE_CODE_REDIS_STORAGE_ERROR request) h
           else Inr (QKPACK_UPSTREAM_INVALID_HEADER, request, parent, h)))"

definition ProcessBody ::
  "handler_env \<Rightarrow> qkpack_request_t option \<Rightarrow> qkpack_request_t \<Rightarrow> qkpack_handler \<Rightarrow> handled" where
  "ProcessBody env parent request h =
    (if CheckSubRequest request then
       bindR (CreateSubRequestBody (qh_parser h) (he_yajl env) (he_time_ms env) request) (\<lambda>(rc, request).
         if rc = QKPACK_ERROR then reply_error env parent request h else Inr (rc, request, parent, h))
     else bindR (RedisProtoDecode (he_proto env) parent request (qh_proto h)) (\<lambda>(rc, request, parent, rp).
       let h = h\<lparr>qh_proto := rp\<rparr> in
       if rc \<noteq> QKPACK_OK then
         if rc = REDIS_MOVED \<or> rc = REDIS_ASK \<or> rc = REDIS_TRYAGAIN then redirect env rc parent request h
         else reply_error env parent request h
       else
         let (rc, request) = ParseResponseBody (he_yajl env) (he_time_ms env) (QKPACK_TIME_END env 0 request) in
         if rc \<noteq> QKPACK_OK then reply_error env parent request h
         else Inr (QKPACK_OK, QKPACK_TIME_END env 1 request, parent, h)))"


section \<open>Sample data\<close>

definition sample_handler_env :: handler_env where
  "sample_handler_env = \<lparr>he_yajl = sample_yajl ''body'' YNull, he_curl = \<lparr>cu_easy_init = False, cu_perform = (\<lambda>opts. (0, []))\<rparr>,
     he_nodes = sample_nodes, he_proto = sample_env, he_file = (\<lambda>file. None), he_time_us = (\<lambda>n. 7), he_time_ms = 3\<rparr>"

definition sample_handler :: qkpack_handler where
  "sample_handler = \<lparr>qh_parser = \<lparr>mset_max_count = 2, batchadd_max_count = 2\<rparr>, qh_cluster = sample_cluster,
     qh_acl = sample_acl_state, qh_proto = sample_scripts\<rparr>"


definition sample_asked :: qkpack_request_t where
  "sample_asked = upd_kv (\<lambda>kv. kv\<lparr>kv_proto_str := ''x''\<rparr>) ((sample_request REDIS_GET ''k'' [])
     \<lparr>rq_tries := 3, rq_now_tries := 0, rq_response_buffer := moved_text ''-ASK'' 7 ''10.0.0.2'' 7000\<rparr>)"


section \<open>Specification\<close>

text \<open>The request and the cluster map after a redirection.\<close>

definition redirected :: "int \<Rightarrow> bytes \<Rightarrow> qkpack_request_t \<Rightarrow> qkpack_request_t" where
  "redirected status ip request = (upd_kv (\<lambda>kv. kv\<lparr>kv_moved_ask := status\<rparr>) request)\<lparr>rq_node_ip := ip\<rparr>"

definition moved_cluster :: "int \<Rightarrow> bytes \<Rightarrow> int \<Rightarrow> bytes \<Rightarrow> redis_cluster \<Rightarrow> redis_cluster" where
  "moved_cluster status name slot ip rc =
    (if status = REDIS_MOVED then rc\<lparr>rc_map_cluster := smap_put name (smap_put slot ip (smap_at [] (rc_map_cluster rc) name)) (rc_map_cluster rc)\<rparr>
     else rc)"


section \<open>Lemmas\<close>

lemma handler_same [simp]:
  "h\<lparr>qh_proto := qh_proto h\<rparr> = h" "h\<lparr>qh_cluster := qh_cluster h\<rparr> = h"
  by simp_all

lemma Encode_ping:
  assumes "rq_code request \<noteq> QKPACK_RESPONSE_CODE_OK"
  shows "RedisProtoEncode env parent request rp =
    Inr (QKPACK_OK, upd_kv (\<lambda>kv. kv\<lparr>kv_proto_str := resp_request [''ping'']\<rparr>) request, rp)"
  using assms send_cmd_exact [of "[''ping'']" request rp]
  by (simp add: RedisProtoEncode_def RedisProtoEncodePing_def send_array_eq)

lemma CheckSubRequest_cong:
  "rq_is_subrequest r = rq_is_subrequest q \<Longrightarrow> kv_command_type (rq_kvpair r) = kv_command_type (rq_kvpair q) \<Longrightarrow>
    CheckSubRequest r = CheckSubRequest q"
  by (simp add: CheckSubRequest_def)

lemma CreateRequestError_eq:
  assumes "rq_code request \<noteq> QKPACK_RESPONSE_CODE_OK" "\<not> CheckSubRequest request"
  shows "CreateRequestError env parent request h = Inr (QKPACK_OK, (upd_kv (\<lambda>kv. kv\<lparr>kv_proto_str := resp_request [''ping'']\<rparr>) request)
    \<lparr>rq_node_ip := GetBackUpNode (qh_cluster h)\<rparr>, copy_error request parent, h)"
  using assms by (simp add: CreateRequestError_def Encode_ping)

lemma Decode_code: "rq_code request \<noteq> QKPACK_RESPONSE_CODE_OK \<Longrightarrow>
  RedisProtoDecode env parent request rp = Inr (QKPACK_ERROR, request, parent, rp)"
  by (simp add: RedisProtoDecode_def split: list.split)

lemma Decode_redirect:
  assumes "rq_code request = QKPACK_RESPONSE_CODE_OK"
    and "rq_response_buffer request = ''-'' @ kind @ rest" "(kind, rc) \<in> {(''MOVED'', REDIS_MOVED), (''ASK'', REDIS_ASK), (''TRYAGAIN'', REDIS_TRYAGAIN)}"
  shows "RedisProtoDecode env parent request rp = Inr (rc, request, parent, rp)"
  using assms by (auto simp: RedisProtoDecode_def RedisProtoDecodeGetError_def starts_with_def)

lemma Decode_error_line:
  assumes "rq_code request = QKPACK_RESPONSE_CODE_OK" "rq_response_buffer request = ''-'' @ line @ CRLF"
    and "CR \<notin> set line" "length line < 2 ^ 31"
    and "\<forall>kind \<in> {''MOVED'', ''ASK'', ''TRYAGAIN'', ''NOSCRIPT''}. \<not> starts_with kind line"
  shows "RedisProtoDecode env parent request rp =
    Inr (QKPACK_OK, request\<lparr>rq_desc := line, rq_code := QKPACK_RESPONSE_CODE_REDIS_STORAGE_ERROR\<rparr>, parent, rp)"
proof -
  have "starts_with kind (line @ CRLF) = starts_with kind line" if "kind \<in> {''MOVED'', ''ASK'', ''TRYAGAIN'', ''NOSCRIPT''}" for kind
    by (rule starts_with_line) (use that in \<open>auto simp: CR_def\<close>)
  then have "\<forall>kind \<in> {''MOVED'', ''ASK'', ''TRYAGAIN'', ''NOSCRIPT''}. \<not> starts_with kind (line @ CRLF)"
    using assms(5) by blast
  then show ?thesis using assms(1-4)
    by (simp add: RedisProtoDecode_def RedisProtoDecodeGetError_def line_of_CRLF)
qed

lemma ParseResponseError_code:
  "rq_code request \<noteq> QKPACK_RESPONSE_CODE_OK \<Longrightarrow>
    ParseResponseError yj t request = WriterJsonMset yj (QKPACK_TIME_MS_END t request)"
  by (simp add: ParseResponseError_def)

lemma ProcessBody_redirect:
  assumes "(kind, status) \<in> {(''MOVED'', REDIS_MOVED), (''ASK'', REDIS_ASK)}"
    and "rq_code request = QKPACK_RESPONSE_CODE_OK" "\<not> CheckSubRequest request" "kv_moved_ask (rq_kvpair request) \<noteq> REDIS_ASKING_END"
    and "rq_response_buffer request = moved_text (CHR ''-'' # kind) slot host port"
    and "host \<noteq> []" "\<forall>c\<in>set host. c \<notin> set [CHR '' '', CHR '':'', CR]" "positive_number host"
    and "slot < 2 ^ 31" "0 < port" "port < 2 ^ 31"
  shows "ProcessBody env parent request h = Inr (QKPACK_UPSTREAM_INVALID_HEADER, redirected status (host @ '':'' @ dec_nat port) request, parent,
    h\<lparr>qh_cluster := moved_cluster status (rq_cluster_name request) (int slot) (host @ '':'' @ dec_nat port) (qh_cluster h)\<rparr>)"
proof -
  have rc: "status \<noteq> QKPACK_OK" "status \<noteq> REDIS_TRYAGAIN" "status = REDIS_MOVED \<or> status = REDIS_ASK"
    and kind: "CHR ''-'' # kind \<noteq> []" "CHR '' '' \<notin> set (CHR ''-'' # kind)"
    using assms(1) by (auto simp: codes)
  obtain rest where "rq_response_buffer request = ''-'' @ kind @ rest"
    using assms(5) by (simp add: moved_text_def)
  then have decode: "RedisProtoDecode (he_proto env) parent request (qh_proto h) = Inr (status, request, parent, qh_proto h)"
    using Decode_redirect [OF assms(2)] assms(1) by blast
  have moved: "ProcessMoved (rq_response_buffer request) (rq_cluster_name request) (rq_node_ip request) status (qh_cluster h) =
      Inr (QKPACK_OK, host @ '':'' @ dec_nat port, moved_cluster status (rq_cluster_name request) (int slot) (host @ '':'' @ dec_nat port) (qh_cluster h))"
    using ProcessMoved_parsed [OF kind assms(6-11) rc(3)] unfolding assms(5) by (simp add: moved_cluster_def)
  show ?thesis
    using assms(3,4) rc by (auto simp: ProcessBody_def decode redirect_def moved Let_def redirected_def)
qed


section \<open>Properties\<close>

text \<open>C5: A request that cannot be created is still answered: a ping goes to the backup node, and whatever that node
  replies, the client gets the document with the code and the description of the error.\<close>

theorem error_answered:
  assumes "rq_code request \<noteq> QKPACK_RESPONSE_CODE_OK" "\<not> CheckSubRequest request"
  shows "\<exists>request'. CreateRequestError env parent request h = Inr (QKPACK_OK, request', copy_error request parent, h) \<and>
    rq_node_ip request' = GetBackUpNode (qh_cluster h) \<and> kv_proto_str (rq_kvpair request') = resp_request [''ping''] \<and>
    (\<forall>reply. let final = QKPACK_TIME_MS_END (he_time_ms env) (request'\<lparr>rq_response_buffer := reply\<rparr>) in
      rq_code final = rq_code request \<and> rq_desc final = rq_desc request \<and>
      ProcessBody env (copy_error request parent) (request'\<lparr>rq_response_buffer := reply\<rparr>) h =
        Inr (QKPACK_OK, snd (WriterJsonMset (he_yajl env) final), copy_error request parent, h))"
proof -
  let ?r = "(upd_kv (\<lambda>kv. kv\<lparr>kv_proto_str := resp_request [''ping'']\<rparr>) request)\<lparr>rq_node_ip := GetBackUpNode (qh_cluster h)\<rparr>"
  have error: "copy_error (?r\<lparr>rq_response_buffer := reply\<rparr>) (copy_error request parent) = copy_error request parent" for reply
    by (cases parent) (simp_all add: copy_error_def)
  have "\<not> CheckSubRequest (?r\<lparr>rq_response_buffer := reply\<rparr>)" for reply
    using assms(2) by (simp add: CheckSubRequest_def)
  then have "ProcessBody env (copy_error request parent) (?r\<lparr>rq_response_buffer := reply\<rparr>) h =
      Inr (QKPACK_OK, snd (WriterJsonMset (he_yajl env) (QKPACK_TIME_MS_END (he_time_ms env) (?r\<lparr>rq_response_buffer := reply\<rparr>))),
        copy_error request parent, h)" for reply
    using assms(1) error [of reply]
    by (simp add: ProcessBody_def Decode_code reply_error_def ProcessBodyError_def ParseResponseError_code split_beta
        REDIS_MOVED_def REDIS_ASK_def REDIS_TRYAGAIN_def QKPACK_ERROR_def QKPACK_OK_def)
  then show ?thesis
    using CreateRequestError_eq [OF assms] by (intro exI [of _ ?r]) (simp add: QKPACK_TIME_MS_END_def)
qed

theorem error_answered_witness:
  "\<exists>request'. CreateRequestError sample_handler_env None ((sample_request REDIS_GET ''k'' [])\<lparr>rq_code := 2000\<rparr>) sample_handler =
      Inr (QKPACK_OK, request', None, sample_handler) \<and> kv_proto_str (rq_kvpair request') = resp_request [''ping'']"
  using error_answered [of "(sample_request REDIS_GET ''k'' [])\<lparr>rq_code := 2000\<rparr>" sample_handler_env None sample_handler]
  by (auto simp: QKPACK_RESPONSE_CODE_OK_def CheckSubRequest_def copy_error_def sample_request_def new_request_def commands REDIS_GET_def)

text \<open>C6: A redirected request is repeated as the storage asks: after MOVED the same command goes to the new node, and the
  slot of its cluster now maps to that node; after ASK it goes there once, preceded by ASKING, and the map is unchanged.\<close>

theorem redirect_retry:
  assumes "(kind, status) \<in> {(''MOVED'', REDIS_MOVED), (''ASK'', REDIS_ASK)}"
    and "rq_code request = QKPACK_RESPONSE_CODE_OK" "\<not> CheckSubRequest request" "kv_moved_ask (rq_kvpair request) \<noteq> REDIS_ASKING_END"
    and "rq_response_buffer request = moved_text (CHR ''-'' # kind) slot host port"
    and "host \<noteq> []" "\<forall>c\<in>set host. c \<notin> set [CHR '' '', CHR '':'', CR]" "positive_number host"
    and "slot < 2 ^ 31" "0 < port" "port < 2 ^ 31" "rq_now_tries request \<noteq> (rq_tries request - 1) mod 2 ^ 32"
  shows "\<exists>request1 request2 h'. ProcessBody env parent request h = Inr (QKPACK_UPSTREAM_INVALID_HEADER, request1, parent, h') \<and>
    ReinitRequest env parent request1 h' = Inr (QKPACK_OK, request2, parent, h') \<and>
    rq_node_ip request2 = host @ '':'' @ dec_nat port \<and>
    kv_proto_str (rq_kvpair request2) = (if status = REDIS_ASK then ASKING_cmd else []) @ kv_proto_str (rq_kvpair request) \<and>
    smap_get (smap_at [] (rc_map_cluster (qh_cluster h')) (rq_cluster_name request)) (int slot) =
      (if status = REDIS_MOVED then Some (host @ '':'' @ dec_nat port)
       else smap_get (smap_at [] (rc_map_cluster (qh_cluster h)) (rq_cluster_name request)) (int slot))"
proof -
  have "status = REDIS_MOVED \<or> status = REDIS_ASK" "REDIS_MOVED \<noteq> REDIS_ASK" using assms(1) by (auto simp: codes)
  then show ?thesis
    using ProcessBody_redirect [OF assms(1-11), of env parent h] assms(12)
    by (auto simp: redirected_def ReinitRequest_def moved_cluster_def smap_get_put smap_at_def)
qed

theorem redirect_retry_witness:
  "\<exists>request1 request2 h'. ProcessBody sample_handler_env None sample_asked sample_handler =
      Inr (QKPACK_UPSTREAM_INVALID_HEADER, request1, None, h') \<and>
    ReinitRequest sample_handler_env None request1 h' = Inr (QKPACK_OK, request2, None, h') \<and>
    rq_node_ip request2 = ''10.0.0.2:'' @ dec_nat 7000 \<and> kv_proto_str (rq_kvpair request2) = ASKING_cmd @ ''x''"
proof -
  have "positive_number ''10.0.0.2''"
    by (simp add: positive_number_def StrToInt32_def strtol_def strtol_raw_def is_space_def is_digit_def digit_val_def Let_def)
  moreover have "kv_proto_str (rq_kvpair sample_asked) = ''x''" by (simp add: sample_asked_def)
  moreover have "rq_code sample_asked = QKPACK_RESPONSE_CODE_OK" "\<not> CheckSubRequest sample_asked"
    "kv_moved_ask (rq_kvpair sample_asked) \<noteq> REDIS_ASKING_END" "rq_now_tries sample_asked \<noteq> (rq_tries sample_asked - 1) mod 2 ^ 32"
    "rq_response_buffer sample_asked = moved_text ''-ASK'' 7 ''10.0.0.2'' 7000"
    by (simp_all add: sample_asked_def sample_request_def new_request_def new_kvpair_def CheckSubRequest_def commands codes)
  ultimately show ?thesis
    using redirect_retry [of "''ASK''" REDIS_ASK sample_asked 7 "''10.0.0.2''" 7000 sample_handler_env None sample_handler]
    by (fastforce simp: CR_def)
qed

text \<open>C15: An error the storage returns to a sub-request is lost: the reply is processed successfully and the request the
  sub-request belongs to keeps its code, so it is answered as a success.\<close>

theorem sub_error_lost:
  assumes "rq_is_subrequest request" "rq_code request = QKPACK_RESPONSE_CODE_OK"
    and "rq_response_buffer request = ''-'' @ line @ CRLF" "CR \<notin> set line" "length line < 2 ^ 31"
    and "\<forall>kind \<in> {''MOVED'', ''ASK'', ''TRYAGAIN'', ''NOSCRIPT''}. \<not> starts_with kind line"
  shows "\<exists>request'. ProcessBody env (Some par) request h = Inr (QKPACK_OK, request', Some par, h) \<and>
    rq_code request' = QKPACK_RESPONSE_CODE_REDIS_STORAGE_ERROR"
proof -
  have "\<not> CheckSubRequest request" using assms(1) by (simp add: CheckSubRequest_def)
  then show ?thesis
    using assms(1) Decode_error_line [OF assms(2-6)]
    by (simp add: ProcessBody_def ParseResponseBody_def QKPACK_TIME_END_def QKPACK_TIME_MS_END_def)
qed

theorem sub_error_lost_witness:
  "\<exists>request'. ProcessBody sample_handler_env (Some new_request)
      ((sample_request REDIS_MSET [] [])\<lparr>rq_is_subrequest := True, rq_response_buffer := ''-OOM'' @ CRLF\<rparr>) sample_handler =
    Inr (QKPACK_OK, request', Some new_request, sample_handler) \<and> rq_code request' = QKPACK_RESPONSE_CODE_REDIS_STORAGE_ERROR"
  by (rule sub_error_lost [where line = "''OOM''"])
    (simp_all add: sample_request_def new_request_def QKPACK_RESPONSE_CODE_OK_def starts_with_def CR_def)

end
