(* ===== verification/HandlerInv.thy ===== *)
theory HandlerInv
  imports Handler
begin

text \<open>
  The long-lived state of a worker process.  The four objects of the handler outlive every request; \<open>reachable_handler\<close>
  are their states after any sequence of requests, whatever the clients send and the services answer.  In all
  of them the maps are ordered and the access records hold values of their C types.
\<close>


section \<open>Specification\<close>

text \<open>What holds of the value of a computation that returns.\<close>

definition holds :: "('a \<Rightarrow> bool) \<Rightarrow> 'a result \<Rightarrow> bool" where
  "holds P m \<longleftrightarrow> (\<forall>x. m = Inr x \<longrightarrow> P x)"

definition maps_ok :: "('k::linorder, ('l::linorder, 'v) smap) smap \<Rightarrow> bool" where
  "maps_ok m \<longleftrightarrow> smap_ok m \<and> (\<forall>(k, n)\<in>set m. smap_ok n)"

definition script_ok :: "redis_proto \<Rightarrow> bool" where
  "script_ok rp \<longleftrightarrow> maps_ok (rp_map_script rp)"

definition cluster_ok :: "redis_cluster \<Rightarrow> bool" where
  "cluster_ok rc \<longleftrightarrow> maps_ok (rc_map_cluster rc)"

definition cache_ok :: "qkpack_acl \<Rightarrow> bool" where
  "cache_ok qa \<longleftrightarrow> smap_ok (pa_map_acl qa) \<and> (\<forall>(k, acl)\<in>set (pa_map_acl qa). acl_ok acl)"

definition handler_ok :: "qkpack_handler \<Rightarrow> bool" where
  "handler_ok h \<longleftrightarrow> script_ok (qh_proto h) \<and> cluster_ok (qh_cluster h) \<and> cache_ok (qh_acl h)"

text \<open>The records a reading loop appended to a vector of the quotation.\<close>

definition appended :: "('a list \<Rightarrow> qkpack_acl_t \<Rightarrow> qkpack_acl_t) \<Rightarrow> ('a \<Rightarrow> bool) \<Rightarrow> nat \<Rightarrow> qkpack_acl_t \<Rightarrow> qkpack_acl_t \<Rightarrow> bool" where
  "appended add P n acl acl' \<longleftrightarrow> (\<exists>xs. acl' = add xs acl \<and> length xs \<le> n \<and> list_all P xs)"

definition add_policies :: "limit_policies_t list \<Rightarrow> qkpack_acl_t \<Rightarrow> qkpack_acl_t" where
  "add_policies ps acl = upd_quo (\<lambda>q. q\<lparr>quo_vector_policies := quo_vector_policies q @ ps\<rparr>) acl"

definition add_timeouts :: "timeouts_t list \<Rightarrow> qkpack_acl_t \<Rightarrow> qkpack_acl_t" where
  "add_timeouts ts acl = upd_quo (\<lambda>q. q\<lparr>quo_vector_timeouts := quo_vector_timeouts q @ ts\<rparr>) acl"

definition add_limits :: "limits_length_t list \<Rightarrow> qkpack_acl_t \<Rightarrow> qkpack_acl_t" where
  "add_limits ls acl = upd_quo (\<lambda>q. q\<lparr>quo_vector_limits_length := quo_vector_limits_length q @ ls\<rparr>) acl"

definition policy_ok :: "limit_policies_t \<Rightarrow> bool" where
  "policy_ok p \<longleftrightarrow> int32 (lp_min p) \<and> int32 (lp_max p) \<and> int32 (lp_limit p)"

definition timeout_ok :: "timeouts_t \<Rightarrow> bool" where
  "timeout_ok t \<longleftrightarrow> no_nul (to_interface_name t) \<and> int32 (to_timeout t) \<and> int32 (to_tries t)"

definition limit_ok :: "limits_length_t \<Rightarrow> bool" where
  "limit_ok l \<longleftrightarrow> no_nul (ll_interface_name l) \<and> int32 (ll_keylen l) \<and> int32 (ll_vallen l) \<and> int32 (ll_datalen l)"

text \<open>One call of the handler, with any environment, request and parent.\<close>

inductive handler_step :: "qkpack_handler \<Rightarrow> qkpack_handler \<Rightarrow> bool" where
  create: "CreateRequest env parent request h = Inr (rc, request', parent', h') \<Longrightarrow> handler_step h h'"
| reinit: "ReinitRequest env parent request h = Inr (rc, request', parent', h') \<Longrightarrow> handler_step h h'"
| reply: "ProcessBody env parent request h = Inr (rc, request', parent', h') \<Longrightarrow> handler_step h h'"

inductive reachable_handler :: "qkpack_handler \<Rightarrow> bool" where
  start: "Init env so_conf backup_server mset_max batchadd_max = Inr (rc, Some h) \<Longrightarrow> reachable_handler h"
| step: "reachable_handler h \<Longrightarrow> handler_step h h' \<Longrightarrow> reachable_handler h'"

text \<open>
  The interface of a plugin (\<open>src/common/plugin.h\<close>) as its clients see it: three operations on a request and on a state
  that outlives it, and the state after a sequence of calls of whatever modules.
\<close>

type_synonym 's plugin_op =
  "handler_env \<Rightarrow> qkpack_request_t option \<Rightarrow> qkpack_request_t \<Rightarrow> 's \<Rightarrow> (int \<times> qkpack_request_t \<times> qkpack_request_t option \<times> 's) result"

datatype plugin_call =
  Create_call handler_env "qkpack_request_t option" qkpack_request_t
| Reinit_call handler_env "qkpack_request_t option" qkpack_request_t
| Reply_call handler_env "qkpack_request_t option" qkpack_request_t

fun plugin_run :: "'s plugin_op \<Rightarrow> 's plugin_op \<Rightarrow> 's plugin_op \<Rightarrow> plugin_call list \<Rightarrow> 's \<Rightarrow> 's result" where
  "plugin_run create reinit reply [] s = Inr s"
| "plugin_run create reinit reply (c # cs) s =
    bindR (case c of
        Create_call env parent request \<Rightarrow> create env parent request s
      | Reinit_call env parent request \<Rightarrow> reinit env parent request s
      | Reply_call env parent request \<Rightarrow> reply env parent request s)
      (\<lambda>(_, _, _, s). plugin_run create reinit reply cs s)"

text \<open>A configuration file and a process that reads it.\<close>

definition sample_conf_doc :: yajl_val where
  "sample_conf_doc = YObject [(QKPACK_CONF_ACL_URL, YString ''http://acl''), (QKPACK_CONF_TIMEOUT, YNumber 100 0),
     (QKPACK_CONF_ADD_ZSET_SCRIPT, YString ''z''), (QKPACK_CONF_ADD_MULTIKV_SCRIPT, YString ''m''),
     (QKPACK_CONF_INCRBY_SCRIPT, YString ''i''), (QKPACK_CONF_ADD_RSET_SCRIPT, YString ''r'')]"

definition sample_boot_env :: handler_env where
  "sample_boot_env = sample_handler_env\<lparr>he_yajl := sample_yajl ''conf'' sample_conf_doc, he_file := (\<lambda>file. Some ''conf'')\<rparr>"


section \<open>Values of computations\<close>

lemma holds_Inr [simp]: "holds P (Inr x) = P x"
  by (simp add: holds_def)

lemma holds_Inl [simp]: "holds P (Inl e)"
  by (simp add: holds_def)

lemma holdsD: "holds P m \<Longrightarrow> m = Inr x \<Longrightarrow> P x"
  by (simp add: holds_def)

lemma holds_bindR: "holds P m \<Longrightarrow> (\<And>x. P x \<Longrightarrow> holds Q (f x)) \<Longrightarrow> holds Q (bindR m f)"
  by (cases m) (simp_all add: holds_def)

lemma holds_bindR_any: "(\<And>x. holds Q (f x)) \<Longrightarrow> holds Q (bindR m f)"
  by (cases m) simp_all

lemma holds_mono: "holds P m \<Longrightarrow> (\<And>x. P x \<Longrightarrow> Q x) \<Longrightarrow> holds Q m"
  by (auto simp: holds_def)


section \<open>Maps\<close>

lemma set_smap_put: "set (smap_put k v m) \<subseteq> insert (k, v) (set m)"
proof (induction m)
  case (Cons p m)
  then show ?case by (cases p) auto
qed simp

lemma maps_ok_at: "maps_ok m \<Longrightarrow> smap_ok (smap_at [] m k)"
  by (auto simp: maps_ok_def smap_at_def smap_ok_def split: option.split dest!: smap_get_in_set)

lemma maps_ok_put: "maps_ok m \<Longrightarrow> smap_ok n \<Longrightarrow> maps_ok (smap_put k n m)"
  using set_smap_put [of k n m] by (auto simp: maps_ok_def smap_ok_put)

lemma maps_ok_insert: "maps_ok m \<Longrightarrow> smap_ok n \<Longrightarrow> maps_ok (smap_insert k n m)"
  by (auto simp: smap_insert_def maps_ok_put split: option.split)

lemma script_ok_touch [simp]: "script_ok rp \<Longrightarrow> script_ok (script_put ip name sha rp)" "script_ok rp \<Longrightarrow> script_ok (script_touch ip name rp)"
  by (simp_all add: script_touch_def script_put_def script_ok_def maps_ok_put maps_ok_at smap_ok_put)


section \<open>Protocol\<close>

abbreviation encodes_ok :: "encoded \<Rightarrow> bool" where
  "encodes_ok m \<equiv> holds (\<lambda>(rc, request, rp). script_ok rp) m"

lemma send_ok: "script_ok rp \<Longrightarrow> encodes_ok (send_cmd argc argv request rp)" "script_ok rp \<Longrightarrow> encodes_ok (send_array argc argv request rp)"
  by (auto simp: send_cmd_def send_array_def intro!: holds_bindR_any)

lemma load_script_ok: "script_ok rp \<Longrightarrow> holds (\<lambda>(rc, rp). script_ok rp) (load_script env ip name script rp)"
  by (auto simp: load_script_def Let_def intro!: holds_bindR_any)

lemma LoadScript_ok: "script_ok rp \<Longrightarrow> holds (\<lambda>(rc, rp). script_ok rp) (RedisProtoEncodeLoadScript env request rp)"
  unfolding RedisProtoEncodeLoadScript_def Let_def
  by (intro holds_bindR [OF load_script_ok]) (auto intro!: holds_bindR [OF load_script_ok])

lemma scripted_ok:
  assumes "script_ok rp" "\<And>rp. script_ok rp \<Longrightarrow> encodes_ok (f rp)" "\<And>rp. g rp = request"
  shows "encodes_ok (bindR (RedisProtoEncodeLoadScript env req rp) (\<lambda>(rc, rp).
    if rc \<noteq> QKPACK_OK then Inr (QKPACK_ERROR, g rp, rp) else f rp))"
  by (rule holds_bindR [OF LoadScript_ok]) (use assms in auto)

lemmas encoder_defs = RedisProtoEncodePing_def RedisProtoEncodeParamOne_def RedisProtoEncodeParamTwo_def RedisProtoEncodeParamThree_def
  RedisProtoEncodeParamMulti_def RedisProtoEncodeSrem_def RedisProtoEncodeZfixedsetGetByScore_def RedisProtoEncodeZfixedsetGetByRank_def

lemma plain_ok:
  assumes "script_ok rp"
  shows "encodes_ok (RedisProtoEncodePing request rp)" "encodes_ok (RedisProtoEncodeParamOne request rp)"
    "encodes_ok (RedisProtoEncodeParamTwo env request rp)" "encodes_ok (RedisProtoEncodeParamThree env request rp)"
    "encodes_ok (RedisProtoEncodeSrem env request rp)" "encodes_ok (RedisProtoEncodeParamMulti parent request rp)"
    "encodes_ok (RedisProtoEncodeZfixedsetGetByScore parent request rp)" "encodes_ok (RedisProtoEncodeZfixedsetGetByRank parent request rp)"
  using assms by (auto simp: encoder_defs Let_def intro!: send_ok holds_bindR_any split: option.split)

lemma scripts_ok:
  assumes "script_ok rp"
  shows "encodes_ok (RedisProtoEncodeSadd env request rp)" "encodes_ok (RedisProtoEncodeIncrBy env request rp)"
    "encodes_ok (RedisProtoEncodeMset env parent request rp)" "encodes_ok (RedisProtoEncodeZfixedsetAdd env parent request rp)"
  using assms
  by (auto simp: RedisProtoEncodeSadd_def RedisProtoEncodeIncrBy_def RedisProtoEncodeMset_def RedisProtoEncodeZfixedsetAdd_def Let_def
      intro!: scripted_ok send_ok holds_bindR_any [where m = "deref_all par refs" for par refs]
        holds_bindR_any [where m = "score_member_args ns kvs" for ns kvs]
      simp del: score_member_args.simps split: option.split list.split)

lemma Encode_ok: "script_ok rp \<Longrightarrow> encodes_ok (RedisProtoEncode env parent request rp)"
  by (simp add: RedisProtoEncode_def Let_def plain_ok scripts_ok)

lemma Decode_ok: "script_ok rp \<Longrightarrow> holds (\<lambda>(rc, request, parent, rp). script_ok rp) (RedisProtoDecode env parent request rp)"
proof -
  assume rp: "script_ok rp"
  have "holds (\<lambda>(rc, request, rp). script_ok rp) (RedisProtoDecodeGetError env rdata request rp)" for rdata
    using rp by (auto simp: RedisProtoDecodeGetError_def intro!: holds_bindR [OF LoadScript_ok]
        holds_bindR_any [where m = "line_of l" for l] split: option.split)
  then show ?thesis
    using rp by (auto simp: RedisProtoDecode_def RedisProtoDecodeGetInteger_def split_beta split: list.split
        intro!: holds_bindR_any [where m = "RedisProtoDecodeGetStatus l r" for l r] holds_bindR_any [where m = "RedisProtoDecodeGetString e l r" for e l r]
          holds_bindR_any [where m = "RedisProtoDecodeGetArray e l p r" for e l p r]
          holds_bindR [where m = "RedisProtoDecodeGetError e l r s" and P = "\<lambda>(rc, request, rp). script_ok rp" for e l r s])
qed


section \<open>Clusters\<close>

lemma fill_slots_ok:
  assumes "fill_slots addr a b m = Some m'" "smap_ok m"
  shows "smap_ok m'"
proof -
  have "smap_ok m \<longrightarrow> smap_ok m'"
    by (rule fill_slots.raw_induct [of "\<lambda>addr a b m m'. smap_ok m \<longrightarrow> smap_ok m'", OF _ assms(1)])
      (auto simp: smap_ok_put split: if_splits)
  then show ?thesis using assms(2) by blast
qed

lemma fill_ranges_ok: "smap_ok m \<Longrightarrow> holds smap_ok (fill_ranges addr slots m)"
  by (induction addr slots m rule: fill_ranges.induct) (auto split: option.split dest: fill_slots_ok)

lemma update_lines_ok: "smap_ok m \<Longrightarrow> holds (\<lambda>(rc, m). smap_ok m) (update_lines lines m)"
proof (induction lines m rule: update_lines.induct)
  case (2 line lines m)
  have "holds (\<lambda>(rc, m). smap_ok m) (SetMemNode node m)" for node
    using 2(3) by (auto simp: SetMemNode_def intro: holds_bindR [OF fill_ranges_ok])
  then show ?case using 2 by (auto split: option.split intro!: holds_bindR [where m = "SetMemNode n m" for n m])
qed simp

abbreviation clusters_ok :: "(int \<times> redis_cluster) result \<Rightarrow> bool" where
  "clusters_ok m \<equiv> holds (\<lambda>(status, rc). cluster_ok rc) m"

lemma UpdateClusterNodes_ok: "cluster_ok rc \<Longrightarrow> clusters_ok (UpdateClusterNodes input name rc)"
  by (auto simp: UpdateClusterNodes_def cluster_ok_def maps_ok_insert intro!: holds_bindR [OF update_lines_ok])

lemma InitClusterNode_ok: "cluster_ok rc \<Longrightarrow> clusters_ok (InitClusterNode nodes junk ip name rc)"
  by (auto simp: InitClusterNode_def split: option.split
      intro!: holds_bindR_any [where m = "host_port j i" for j i] holds_bindR [OF UpdateClusterNodes_ok])

lemma try_nodes_ok: "cluster_ok rc \<Longrightarrow> clusters_ok (try_nodes nodes junk ips name rc)"
  by (induction nodes junk ips name rc rule: try_nodes.induct) (auto intro!: holds_bindR [OF InitClusterNode_ok])

lemma update_servers_ok: "cluster_ok rc \<Longrightarrow> clusters_ok (update_servers nodes junk servers name rc)"
  by (induction nodes junk servers name rc rule: update_servers.induct)
    (auto simp: UpdateRouteNodeList_def intro!: holds_bindR [OF try_nodes_ok])

lemma GetNode_ok: "cluster_ok rc \<Longrightarrow> holds (\<lambda>(status, request, rc). cluster_ok rc) (GetNode nodes junk route request rc)"
  by (auto simp: GetNode_def Let_def split_beta UpdateRouteNodeList_def split: option.split
      intro: holds_bindR [OF update_servers_ok] holds_bindR [OF try_nodes_ok])

lemma ProcessMoved_ok: "cluster_ok rc \<Longrightarrow> holds (\<lambda>(status, ip, rc). cluster_ok rc) (ProcessMoved input name ip status rc)"
  by (simp add: ProcessMoved_def Let_def cluster_ok_def maps_ok_put maps_ok_at smap_ok_put split: list.split option.split)


section \<open>Access records\<close>

lemma int32_range [simp]: "int32 (to_int v)"
  using to_int_range by (simp add: int32_def)

lemma get_str_ok: "holds no_nul (get_str v)"
  by (auto simp: get_str_def no_nul_def c_str_def split: option.split yajl_val.split dest: set_takeWhileD elim!: YAJL_GET_STRING.elims)

lemma int_elems_length: "length (int_elems vs) < 2 ^ 31"
  using to_int_range [of "int (length vs)"] by (auto simp: int_elems_def min_def)

lemma appended_Nil: "(\<And>acl. add [] acl = acl) \<Longrightarrow> appended add P n acl acl"
  unfolding appended_def by (rule exI [of _ "[]"]) simp

lemma appended_Cons:
  "(\<And>x xs acl. add xs (add [x] acl) = add (x # xs) acl) \<Longrightarrow> P x \<Longrightarrow> appended add P n (add [x] acl) acl' \<Longrightarrow> appended add P (Suc n) acl acl'"
  unfolding appended_def by (metis Suc_le_mono length_Cons list.pred_inject(2))

lemma record_ok [simp]:
  "policy_ok \<lparr>lp_min = to_int a, lp_max = to_int b, lp_limit = to_int c\<rparr>"
  "no_nul n \<Longrightarrow> timeout_ok \<lparr>to_interface_name = n, to_timeout = to_int a, to_tries = to_int b\<rparr>"
  "no_nul n \<Longrightarrow> limit_ok \<lparr>ll_interface_name = n, ll_keylen = to_int a, ll_vallen = to_int b, ll_datalen = to_int c\<rparr>"
  by (simp_all add: policy_ok_def timeout_ok_def limit_ok_def)

lemma add_simps [simp]:
  "add_policies [] acl = acl" "add_policies ps (add_policies [p] acl) = add_policies (p # ps) acl"
  "add_timeouts [] acl = acl" "add_timeouts ts (add_timeouts [t] acl) = add_timeouts (t # ts) acl"
  "add_limits [] acl = acl" "add_limits ls (add_limits [l] acl) = add_limits (l # ls) acl"
  by (simp_all add: add_policies_def add_timeouts_def add_limits_def)

text \<open>Each of the three loops appends well-formed records to its own vector, at most one per element of the array.\<close>

lemma read_policies_ok: "holds (\<lambda>(rc, acl'). appended add_policies policy_ok (length vals) acl acl') (read_policies yj vals acl)"
proof (induction vals arbitrary: acl)
  case (Cons val vals)
  show ?case
    by (auto simp: Let_def appended_Nil simp flip: add_policies_def
        intro!: holds_bindR_any holds_mono [OF Cons.IH] elim: appended_Cons [rotated 2])
qed (simp add: appended_Nil)

lemma read_timeouts_ok: "holds (\<lambda>(rc, acl'). appended add_timeouts timeout_ok (length vals) acl acl') (read_timeouts yj vals acl)"
proof (induction vals arbitrary: acl)
  case (Cons val vals)
  show ?case
    by (auto simp: Let_def appended_Nil simp flip: add_timeouts_def
        intro!: holds_bindR [OF get_str_ok] holds_bindR_any [where m = "YAJL_GET_INTEGER v" for v] holds_mono [OF Cons.IH]
        elim: appended_Cons [rotated 2])
qed (simp add: appended_Nil)

lemma read_limits_ok: "holds (\<lambda>(rc, acl'). appended add_limits limit_ok (length vals) acl acl') (read_limits yj vals acl)"
proof (induction vals arbitrary: acl)
  case (Cons val vals)
  show ?case
    by (auto simp: Let_def appended_Nil simp flip: add_limits_def
        intro!: holds_bindR [OF get_str_ok] holds_bindR_any [where m = "YAJL_GET_INTEGER v" for v] holds_mono [OF Cons.IH]
        elim: appended_Cons [rotated 2])
qed (simp add: appended_Nil)

lemma read_section_ok:
  assumes "\<And>vals. holds (\<lambda>(rc, acl'). appended add P (length vals) acl acl') (loop vals acl)" "\<And>acl. add [] acl = acl"
  shows "holds (\<lambda>(rc, acl'). appended add P (2 ^ 31 - 1) acl acl') (read_section loop arr acl)"
proof (cases "YAJL_GET_ARRAY arr")
  case None
  then show ?thesis using assms(2) by (auto simp: read_section_def appended_Nil)
next
  case (Some vals)
  show ?thesis unfolding read_section_def Some option.case
    by (rule holds_mono [OF assms(1)]) (use int_elems_length [of vals] in \<open>auto simp: appended_def\<close>)
qed

lemma Quotation_ok:
  assumes "quo_vector_policies (acl_quotation acl) = []" "quo_vector_timeouts (acl_quotation acl) = []"
    "quo_vector_limits_length (acl_quotation acl) = []" "int32 (acl_operation acl)" "no_nul (route_defaults (acl_route acl))"
    "route_ok (route_map_client (acl_route acl))" "route_ok (route_map_server (acl_route acl))"
  shows "holds (\<lambda>(rc, freed, acl'). rc = QKPACK_OK \<longrightarrow> acl_ok acl' \<and> acl_route acl' = acl_route acl) (ReadACLQuotation yj quotation acl)"
proof -
  have "appended add_policies policy_ok (2 ^ 31 - 1) (upd_quo (\<lambda>q. q\<lparr>quo_expire := to_int e, quo_compress_threshold := to_int t\<rparr>) acl) acl1 \<Longrightarrow>
      appended add_timeouts timeout_ok (2 ^ 31 - 1) acl1 acl2 \<Longrightarrow> appended add_limits limit_ok (2 ^ 31 - 1) acl2 acl3 \<Longrightarrow>
      acl_ok acl3 \<and> acl_route acl3 = acl_route acl" for e t acl1 acl2 acl3
    using assms by (auto simp: appended_def add_policies_def add_timeouts_def add_limits_def acl_ok_def Let_def list_all_iff
        policy_ok_def timeout_ok_def limit_ok_def)
  note ok = this
  show ?thesis
    unfolding ReadACLQuotation_def Let_def
    by (auto simp: ok split: option.split intro!: holds_bindR_any [where m = "YAJL_GET_INTEGER v" for v]
        holds_bindR [OF read_section_ok [OF read_policies_ok]] holds_bindR [OF read_section_ok [OF read_timeouts_ok]]
        holds_bindR [OF read_section_ok [OF read_limits_ok]])
qed

lemma smap_put_length: "length (smap_put k v m) \<le> Suc (length m)"
  by (induction k v m rule: smap_put.induct) auto

lemma read_route_map_ok:
  "smap_ok m \<Longrightarrow> \<forall>(k, v)\<in>set m. no_nul k \<and> no_nul v \<Longrightarrow>
    holds (\<lambda>m'. smap_ok m' \<and> length m' \<le> length m + length kvs \<and> (\<forall>(k, v)\<in>set m'. no_nul k \<and> no_nul v)) (read_route_map kvs m)"
proof (induction kvs m rule: read_route_map.induct)
  case (2 key val kvs m)
  have "no_nul (c_str key)" by (auto simp: no_nul_def c_str_def dest: set_takeWhileD)
  then have "holds (\<lambda>m'. smap_ok m' \<and> length m' \<le> length (smap_put (c_str key) s m) + length kvs \<and> (\<forall>(k, v)\<in>set m'. no_nul k \<and> no_nul v))
      (read_route_map kvs (smap_put (c_str key) s m))" if "no_nul s" for s
    using 2 that set_smap_put [of "c_str key" s m] by (intro "2.IH") (auto simp: smap_ok_put)
  note put = this
  have "holds (\<lambda>m'. smap_ok m' \<and> length m' \<le> length m + length ((key, val) # kvs) \<and> (\<forall>(k, v)\<in>set m'. no_nul k \<and> no_nul v))
      (read_route_map kvs (smap_put (c_str key) s m))" if "no_nul s" for s
    by (rule holds_mono [OF put [OF that]]) (use smap_put_length [of "c_str key" s m] in auto)
  then show ?case
    unfolding read_route_map.simps by (rule holds_bindR [OF get_str_ok])
qed simp

lemma route_object_ok: "m = [] \<Longrightarrow> holds (\<lambda>m'. case m' of None \<Rightarrow> True | Some m' \<Rightarrow> route_ok m') (read_route_object obj m)"
  by (auto simp: read_route_object_def route_ok_def split: option.split yajl_val.split
      intro!: holds_bindR [OF read_route_map_ok] le_less_trans [OF _ int_elems_length, simplified])

lemma ReadACLResponse_ok: "holds (\<lambda>(rc, acl). rc = QKPACK_OK \<longrightarrow> acl_ok acl) (ReadACLResponse yj buf new_acl)"
proof -
  have set_route: "acl_ok acl \<Longrightarrow> no_nul (route_defaults r) \<Longrightarrow> route_ok (route_map_client r) \<Longrightarrow> route_ok (route_map_server r) \<Longrightarrow>
      acl_ok (acl\<lparr>acl_route := r\<rparr>)" for acl r
    by (auto simp: acl_ok_def Let_def)
  show ?thesis
    unfolding ReadACLResponse_def Let_def
    by (auto simp: set_route new_acl_def no_nul_def [of "[]"] route_ok_def [of "[]"] split: option.split
        intro!: holds_bindR_any [where m = "YAJL_GET_INTEGER v" for v] holds_bindR [OF Quotation_ok] holds_bindR [OF get_str_ok]
          holds_bindR [OF route_object_ok])
qed

lemma cache_ok_put: "cache_ok qa \<Longrightarrow> acl_ok acl \<Longrightarrow> cache_ok (qa\<lparr>pa_map_acl := smap_put k acl (pa_map_acl qa)\<rparr>)"
  using set_smap_put [of k acl "pa_map_acl qa"] by (auto simp: cache_ok_def smap_ok_put)

lemma SetACL_ok:
  assumes "cache_ok qa"
  shows "holds (\<lambda>(acl, qa). cache_ok qa \<and> (case acl of None \<Rightarrow> True | Some acl \<Rightarrow> acl_ok acl)) (SetACL yj lib ak uri qa)"
proof -
  have "holds (\<lambda>(rc, acl). rc = QKPACK_OK \<longrightarrow> acl_ok acl) (GetCurlResponse yj lib qa new_acl ak uri)"
    by (auto simp: GetCurlResponse_def Let_def split_beta intro!: holds_bindR [OF ReadACLResponse_ok])
  then show ?thesis
    using assms cache_ok_put [OF assms]
    by (auto simp: SetACL_def smap_insert_def cache_ok_def [of qa] split: option.split dest!: smap_get_in_set
        intro!: holds_bindR [where m = "GetCurlResponse y l q n a u" for y l q n a u])
qed

lemma authorise_ok: "cache_ok qa \<Longrightarrow> acl_ok acl \<Longrightarrow> holds (\<lambda>(acl, qa, request). cache_ok qa) (authorise acl qa request)"
proof -
  assume ok: "cache_ok qa" "acl_ok acl"
  have "holds (\<lambda>(rc, request, acl). acl_ok acl) (GetNodeList request acl)" for request
    using ok(2) by (auto simp: GetNodeList_def Let_def acl_ok_def split: option.split intro!: holds_bindR_any)
  then show ?thesis
    using ok by (auto simp: authorise_def Let_def split_beta cache_ok_put
        intro!: holds_bindR [where m = "GetNodeList r a" for r a] holds_bindR_any [where m = "GetZsetLimit p r" for p r])
qed

lemma Process_ok: "cache_ok qa \<Longrightarrow> holds (\<lambda>(acl, qa, request). cache_ok qa) (Process yj lib qa request)"
  by (auto simp: Process_def Let_def split_beta split: option.split intro!: holds_bindR [OF SetACL_ok] authorise_ok)


section \<open>The handler\<close>

abbreviation handles_ok :: "handled \<Rightarrow> bool" where
  "handles_ok m \<equiv> holds (\<lambda>(rc, request, parent, h). handler_ok h) m"

lemma handler_okD:
  assumes "handler_ok h"
  shows "script_ok (qh_proto h)" "cluster_ok (qh_cluster h)" "cache_ok (qh_acl h)"
  using assms by (simp_all add: handler_ok_def)

lemma handler_ok_upd:
  assumes "handler_ok h"
  shows "script_ok rp \<Longrightarrow> handler_ok (h\<lparr>qh_proto := rp\<rparr>)" "cluster_ok rc \<Longrightarrow> handler_ok (h\<lparr>qh_cluster := rc\<rparr>)"
    "cache_ok qa \<Longrightarrow> handler_ok (h\<lparr>qh_acl := qa\<rparr>)"
  using assms by (simp_all add: handler_ok_def)

lemmas handler_oks = handler_okD handler_ok_upd

lemma CreateRequestError_ok: "handler_ok h \<Longrightarrow> handles_ok (CreateRequestError env parent request h)"
  by (auto simp: CreateRequestError_def Let_def split_beta handler_oks intro!: holds_bindR [OF Encode_ok])

lemma create_subrequest_ok: "handler_ok h \<Longrightarrow> handles_ok (create_subrequest env parent request h)"
proof -
  assume h: "handler_ok h"
  have "handles_ok (encode_request env parent request h)" for request
    using h by (auto simp: encode_request_def Let_def handler_oks intro!: holds_bindR [OF Encode_ok] CreateRequestError_ok)
  then show ?thesis
    using CreateRequestError_ok [OF h] by (auto simp: create_subrequest_def split_beta handler_oks intro!: holds_bindR_any)
qed

lemma CreateRequest_ok: "handler_ok h \<Longrightarrow> handles_ok (CreateRequest env parent request h)"
  by (auto simp: CreateRequest_def Let_def split_beta handler_oks split: option.split
      intro!: CreateRequestError_ok create_subrequest_ok holds_bindR_any [where m = "ParseRequestBody y p r" for y p r]
        holds_bindR_any [where m = "CreateSubRequestBody c y t r" for c y t r] holds_bindR [OF Process_ok] holds_bindR [OF GetNode_ok])

lemma ReinitRequest_ok: "handler_ok h \<Longrightarrow> handles_ok (ReinitRequest env parent request h)"
  by (simp add: ReinitRequest_def CreateRequestError_ok)

lemma ProcessBody_ok: "handler_ok h \<Longrightarrow> handles_ok (ProcessBody env parent request h)"
  by (auto simp: ProcessBody_def redirect_def reply_error_def Let_def split_beta handler_oks
      intro!: holds_bindR_any [where m = "CreateSubRequestBody c y t r" for c y t r] holds_bindR [OF Decode_ok] holds_bindR [OF ProcessMoved_ok])

lemma Init_ok: "Init env so_conf backup_server mset_max batchadd_max = Inr (rc, Some h) \<Longrightarrow> handler_ok h"
  by (auto simp: Init_def bindR_Inr_iff Let_def split_beta handler_ok_def new_redis_proto_def new_QkPackACL_def script_ok_def cluster_ok_def cache_ok_def
      maps_ok_def new_redis_cluster_def split: if_splits option.splits)

inductive_cases handler_stepE: "handler_step h h'"

lemma handler_step_ok: "handler_step h h' \<Longrightarrow> handler_ok h \<Longrightarrow> handler_ok h'"
  by (elim handler_stepE)
    (auto dest: holdsD [OF CreateRequest_ok] holdsD [OF ReinitRequest_ok] holdsD [OF ProcessBody_ok])

text \<open>What a plugin promises: no operation breaks the invariant of its state, so no sequence of calls does.\<close>

locale cplugin =
  fixes create reinit reply :: "'s plugin_op"
    and ok :: "'s \<Rightarrow> bool"
  assumes create_ok: "ok s \<Longrightarrow> holds (\<lambda>(_, _, _, s). ok s) (create env parent request s)"
    and reinit_ok: "ok s \<Longrightarrow> holds (\<lambda>(_, _, _, s). ok s) (reinit env parent request s)"
    and reply_ok: "ok s \<Longrightarrow> holds (\<lambda>(_, _, _, s). ok s) (reply env parent request s)"
begin

lemma run_ok: "ok s \<Longrightarrow> holds ok (plugin_run create reinit reply calls s)"
  by (induction calls arbitrary: s) (auto intro!: holds_bindR [OF create_ok] holds_bindR [OF reinit_ok] holds_bindR [OF reply_ok] split: plugin_call.split)

end

interpretation plugin_inv: cplugin CreateRequest ReinitRequest ProcessBody handler_ok
  by unfold_locales (auto intro: holds_mono [OF CreateRequest_ok] holds_mono [OF ReinitRequest_ok] holds_mono [OF ProcessBody_ok])

interpretation plugin_hist: cplugin CreateRequest ReinitRequest ProcessBody reachable_handler
  by unfold_locales (auto simp: holds_def intro: reachable_handler.step handler_step.intros split: sum.split)

lemma sample_boot: "\<exists>h. Init sample_boot_env ''qkpack.json'' ''10.0.0.9:80'' 2 2 = Inr (QKPACK_OK, Some h)"
  by (simp add: Init_def FilekvParser_Parse_def sample_boot_env_def sample_handler_env_def ParseConf_def ReadJsonConf_def new_conf_def
      sample_yajl_def sample_conf_doc_def c_str_def NUL_def names get_str_def)


section \<open>Properties\<close>



end
