(* ===== verification/NgxRedisProtocol.thy ===== *)
theory NgxRedisProtocol
  imports RedisProto
begin

text \<open>
  How the upstream module decides that a reply of the storage has arrived completely
  (\<open>src/qkupstream/ngx_redis_protocol.c\<close>).  The functions read from a pointer into the receive buffer:
  \<open>mem\<close> is the memory from that pointer to the end of the buffer, of which the first \<open>rdata_len\<close> bytes have been
  received.  Reading outside of it is a fault.
\<close>


section \<open>Functions\<close>

definition NGX_OK :: int where [codes]: "NGX_OK = 0"
definition NGX_ERROR :: int where [codes]: "NGX_ERROR = - 1"
definition NGX_AGAIN :: int where [codes]: "NGX_AGAIN = - 2"

function ngx_get_num_size :: "u64 \<Rightarrow> nat" where
  "ngx_get_num_size i = (let i = i div 10 in if i > 0 then Suc (ngx_get_num_size i) else 1)"
  by pat_completeness auto
termination
proof (relation "measure unat", goal_cases)
  case (2 i x)
  then have "unat i \<noteq> 0" by (auto simp: word_less_nat_alt unat_div)
  then show ?case using 2 by (simp add: unat_div)
qed simp

declare ngx_get_num_size.simps [simp del]

text \<open>\<open>strtol(rest, &rest, 0)\<close> with a result of type \<open>int\<close>; pointers are offsets.\<close>

definition strtol_at :: "bytes \<Rightarrow> int \<Rightarrow> (int \<times> int) result" where
  "strtol_at mem rest =
    (if 0 \<le> rest \<and> nat rest < length mem then
       let (v, s) = strtol 0 (drop (nat rest) mem) in
       if s = [] then Inl Out_of_bounds else Inr (to_int v, int (length mem - length s))
     else Inl Out_of_bounds)"

definition ngx_parse_bulk :: "bytes \<Rightarrow> int \<Rightarrow> int result" where
  "ngx_parse_bulk mem rdata_len =
    bindR (strtol_at mem 0) (\<lambda>(bulklen, rest).
      if bulklen = - 1 then Inr NGX_OK
      else
        let len = to_int (1 + int (ngx_get_num_size (word_of_int bulklen)));
            len = to_int (len + 2);
            len = to_int (len + to_int (bulklen + 2)) in
        if len > rdata_len then Inr NGX_AGAIN else Inr NGX_OK)"

fun multibulk_loop :: "nat \<Rightarrow> bytes \<Rightarrow> int \<Rightarrow> int \<Rightarrow> int \<Rightarrow> int result" where
  "multibulk_loop 0 mem rdata_len len rest = Inr NGX_OK"
| "multibulk_loop (Suc n) mem rdata_len len rest =
    (if len > rdata_len then Inr NGX_AGAIN
     else
       let len = to_int (len + 1) in
       bindR (strtol_at mem (rest + 1)) (\<lambda>(bulklen, rest).
         if bulklen = - 1 then multibulk_loop n mem rdata_len len rest
         else
           let len = to_int (len + int (ngx_get_num_size (word_of_int bulklen)));
               rest = rest + 2; len = to_int (len + 2);
               rest = rest + to_int (bulklen + 2); len = to_int (len + to_int (bulklen + 2)) in
           multibulk_loop n mem rdata_len len rest))"

definition ngx_parse_multibulk :: "bytes \<Rightarrow> int \<Rightarrow> int result" where
  "ngx_parse_multibulk mem rdata_len =
    bindR (strtol_at mem 0) (\<lambda>(multibulkSize, rest).
      multibulk_loop (nat multibulkSize) mem rdata_len (1 + 2) (rest + 2))"

definition ngx_redis_proto_decode :: "bytes \<Rightarrow> int \<Rightarrow> int result" where
  "ngx_redis_proto_decode mem len =
    (case mem of
       [] \<Rightarrow> Inl Out_of_bounds
     | c # rdata \<Rightarrow>
         if c \<in> {CHR ''-'', CHR ''+'', CHR '':''} then Inr NGX_OK
         else if c = CHR ''$'' then ngx_parse_bulk rdata len
         else if c = CHR ''*'' then ngx_parse_multibulk rdata len
         else Inr NGX_ERROR)"


section \<open>Specification\<close>

text \<open>The replies of a Redis server: a line (status, error or integer), a string or nil, and an array of strings.\<close>

datatype reply = Line char bytes | Bulk "bytes option" | Multi "bytes list"

definition resp_text :: "reply \<Rightarrow> bytes" where
  "resp_text r = (case r of Line c l \<Rightarrow> c # l @ CRLF | Bulk v \<Rightarrow> resp_item v | Multi vs \<Rightarrow> resp_array (map Some vs))"

fun reply_ok :: "reply \<Rightarrow> bool" where
  "reply_ok (Line c l) = (c \<in> {CHR ''-'', CHR ''+'', CHR '':''})"
| "reply_ok _ = True"

text \<open>The bytes that have arrived once the length of a string is known.\<close>

definition bulk_head :: "bytes \<Rightarrow> nat" where
  "bulk_head a = 3 + length (dec_nat (length a))"


section \<open>Lemmas\<close>

lemma dec_nat_length_step: "length (dec_nat n) = (if n < 10 then 1 else Suc (length (dec_nat (n div 10))))"
  by (subst dec_nat.simps) simp

lemma ngx_get_num_size_dec: "ngx_get_num_size i = length (dec_nat (unat i))"
proof (induction i rule: ngx_get_num_size.induct)
  case (1 i)
  have "(i div 10 > 0) = (\<not> unat i < 10)" "unat (i div 10) = unat i div 10"
    by (auto simp: word_less_nat_alt unat_div)
  then show ?case
    using 1 by (subst ngx_get_num_size.simps, subst dec_nat_length_step) (auto simp: Let_def)
qed

lemma strtol_at_dec:
  assumes "n < 2 ^ 31" "mem = pre @ dec_nat n @ CR # s"
  shows "strtol_at mem (int (length pre)) = Inr (int n, int (length pre + length (dec_nat n)))"
  using assms read_len_dec [of n s] by (auto simp: strtol_at_def read_len_def Let_def split: prod.splits)

lemma strtol_at_minus_one:
  assumes "mem = pre @ CHR ''-'' # CHR ''1'' # CR # s"
  shows "strtol_at mem (int (length pre)) = Inr (- 1, int (length pre + 2))"
  using assms read_len_minus_one [of s] by (auto simp: strtol_at_def read_len_def Let_def split: prod.splits)

lemma strtol_at_none:
  assumes "mem = pre @ LF # CHR ''$'' # s"
  shows "strtol_at mem (int (length pre)) = Inr (0, int (length pre))"
proof -
  have "\<not> hex_prefix (CHR ''$'' # s)" by (cases s; cases "tl s") auto
  then have "strtol 0 (LF # CHR ''$'' # s) = (0, LF # CHR ''$'' # s)"
    by (simp add: strtol_def strtol_raw_def is_space_def LF_def is_digit_def digit_val_def clip64_def)
  then show ?thesis using assms by (simp add: strtol_at_def)
qed

lemma num_size_int [simp]: "n < 2 ^ 31 \<Longrightarrow> ngx_get_num_size (word_of_nat n) = length (dec_nat n)"
  by (simp add: ngx_get_num_size_dec unat_of_nat take_bit_nat_eq_self)

lemma length_resp_bulk: "length (resp_bulk a) = 5 + length (dec_nat (length a)) + length a"
  by (simp add: resp_bulk_def)

lemma parse_bulk_eq:
  assumes "length (resp_bulk a) < 2 ^ 31" "mem = dec_nat (length a) @ CR # s"
  shows "ngx_parse_bulk mem N = Inr (if int (length (resp_bulk a)) > N then NGX_AGAIN else NGX_OK)"
  using assms strtol_at_dec [of "length a" mem "[]" s] by (simp add: ngx_parse_bulk_def length_resp_bulk Let_def)

text \<open>The strings of an array that are there are stepped over.\<close>

lemma multibulk_loop_bulks:
  assumes "int L + int (length (concat (map resp_bulk vs))) \<le> N" "L + length (concat (map resp_bulk vs)) < 2 ^ 31"
    and "mem = pre @ concat (map resp_bulk vs) @ post"
  shows "multibulk_loop (length vs + m) mem N (int L) (int (length pre)) =
    multibulk_loop m mem N (int (L + length (concat (map resp_bulk vs)))) (int (length pre + length (concat (map resp_bulk vs))))"
  using assms
proof (induction vs arbitrary: L pre)
  case (Cons a vs)
  let ?n = "length (resp_bulk a)"
  have mem: "mem = (pre @ ''$'') @ dec_nat (length a) @ CR # LF # a @ CRLF @ concat (map resp_bulk vs) @ post"
    "mem = (pre @ resp_bulk a) @ concat (map resp_bulk vs) @ post"
    using Cons.prems(3) by (simp_all add: resp_bulk_def [of a])
  have a: "length a < 2 ^ 31" using Cons.prems(2) by (simp add: length_resp_bulk)
  have "multibulk_loop (length (a # vs) + m) mem N (int L) (int (length pre)) =
      multibulk_loop (length vs + m) mem N (int (L + ?n)) (int (length (pre @ resp_bulk a)))"
    using Cons.prems(1,2) strtol_at_dec [OF a mem(1)] a by (simp add: length_resp_bulk Let_def algebra_simps)
  also have "\<dots> = multibulk_loop m mem N (int (L + ?n + length (concat (map resp_bulk vs))))
      (int (length (pre @ resp_bulk a) + length (concat (map resp_bulk vs))))"
    by (rule Cons.IH [OF _ _ mem(2)]) (use Cons.prems(1,2) in simp_all)
  finally show ?case by (simp add: algebra_simps)
qed simp

lemma parse_multibulk_eq:
  assumes "n < 2 ^ 31" "mem = dec_nat n @ CR # LF # s"
  shows "ngx_parse_multibulk mem N = multibulk_loop n mem N (int 3) (int (length (dec_nat n @ CRLF)))"
  using strtol_at_dec [of n mem "[]" "LF # s"] assms by (simp add: ngx_parse_multibulk_def add.commute)

lemma map_items: "map resp_item (map Some vs) = map resp_bulk vs"
  by (simp add: resp_item_def)

lemma resp_array_Some: "resp_array (map Some vs) = ''*'' @ dec_nat (length vs) @ CRLF @ concat (map resp_bulk vs)"
  by (simp add: resp_array_def map_items del: map_map)

lemma length_bulks: "length vs \<le> length (concat (map resp_bulk vs))" "a \<in> set vs \<Longrightarrow> length a \<le> length (concat (map resp_bulk vs))"
  by (induction vs) (auto simp: length_resp_bulk)

lemma decode_multi:
  assumes "length (resp_array (map Some vs)) < 2 ^ 31"
  shows "ngx_redis_proto_decode (resp_array (map Some vs) @ junk) (int (length (resp_array (map Some vs)))) = Inr NGX_OK"
proof -
  let ?bs = "concat (map resp_bulk vs)"
  note whole = resp_array_Some [of vs]
  have n: "length vs < 2 ^ 31" using assms length_bulks(1) [of vs] unfolding whole by simp
  let ?mem = "dec_nat (length vs) @ CR # LF # ?bs @ junk"
  let ?N = "int (length (resp_array (map Some vs)))"
  have "ngx_redis_proto_decode (resp_array (map Some vs) @ junk) ?N = ngx_parse_multibulk ?mem ?N"
    unfolding whole by (simp add: ngx_redis_proto_decode_def)
  also have "\<dots> = multibulk_loop (length vs + 0) ?mem ?N (int 3) (int (length (dec_nat (length vs) @ CRLF)))"
    using parse_multibulk_eq [OF n] by simp
  also have "\<dots> = Inr NGX_OK"
    by (subst multibulk_loop_bulks [where post = junk]) (use assms in \<open>auto simp: whole\<close>)
  finally show ?thesis .
qed

text \<open>The array without the last \<open>lost\<close> bytes of its last string.\<close>

lemma take_array:
  assumes "lost \<le> length a + 2"
  shows "take (length (resp_array (map Some (vs @ [a]))) - lost) (resp_array (map Some (vs @ [a]))) =
    ''*'' @ dec_nat (Suc (length vs)) @ CRLF @ concat (map resp_bulk vs) @ ''$'' @ dec_nat (length a) @ CRLF @ take (length a + 2 - lost) (a @ CRLF)"
proof -
  let ?head = "''*'' @ dec_nat (Suc (length vs)) @ CRLF @ concat (map resp_bulk vs) @ ''$'' @ dec_nat (length a) @ CRLF"
  have "resp_array (map Some (vs @ [a])) = ?head @ a @ CRLF"
    by (simp only: resp_array_Some) (simp add: resp_bulk_def [of a])
  then show ?thesis
    using assms by (simp only: take_append) (simp add: Nat.diff_add_assoc)
qed

lemma item_step_reads: "item_step env i v st = Inr st' \<Longrightarrow> reads_element (fst st') = reads_element (fst st)"
  by (cases st) (auto simp: item_step_def array_element_def bindR_Inr_iff reads_element_def is_multi_def is_range_def Let_def split: option.splits if_splits)

lemma items_reads: "items env i vs st = Inr st' \<Longrightarrow> reads_element (fst st') = reads_element (fst st)"
proof (induction vs arbitrary: i st)
  case (Cons v vs)
  then obtain st1 where "item_step env i v st = Inr st1" "items env (Suc i) vs st1 = Inr st'"
    by (cases "item_step env i v st") auto
  then show ?case using Cons.IH item_step_reads by blast
qed simp


lemma decode_complete:
  assumes "reply_ok r" "length (resp_text r) < 2 ^ 31"
  shows "ngx_redis_proto_decode (resp_text r @ junk) (int (length (resp_text r))) = Inr NGX_OK"
proof (cases r)
  case (Line c l)
  then show ?thesis using assms(1) by (auto simp: resp_text_def ngx_redis_proto_decode_def)
next
  case (Multi vs)
  then show ?thesis using assms(2) decode_multi [of vs junk] by (simp add: resp_text_def)
next
  case (Bulk v)
  show ?thesis
  proof (cases v)
    case None
    then show ?thesis
      using strtol_at_minus_one [of "''-1'' @ CRLF @ junk" "[]" "LF # junk"]
      by (simp add: Bulk resp_text_def resp_item_def ngx_redis_proto_decode_def ngx_parse_bulk_def)
  next
    case (Some a)
    have "length (resp_bulk a) < 2 ^ 31" using assms(2) by (simp add: Bulk Some resp_text_def resp_item_def)
    from parse_bulk_eq [OF this] show ?thesis
      by (simp add: Bulk Some resp_text_def resp_item_def ngx_redis_proto_decode_def resp_bulk_def [of a])
  qed
qed


section \<open>Properties\<close>



text \<open>C16: An array is taken for complete as soon as the length of its last string is there.  When the rest of that string is
  still on its way, the reply is decoded all the same, and the decoder reads past the end of the buffer.\<close>

theorem truncated_array_accepted:
  assumes "reply = resp_array (map Some (vs @ [a]))" "length reply < 2 ^ 31"
    and "4 \<le> lost" "lost \<le> length a + 2" "received = take (length reply - lost) reply"
    and "rq_code request = QKPACK_RESPONSE_CODE_OK" "rq_response_buffer request = received" "reads_element request"
  shows "ngx_redis_proto_decode (received @ junk) (int (length received)) = Inr NGX_OK \<and>
    (\<exists>fault. RedisProtoDecode env parent request rp = Inl fault)"
proof -
  let ?bs = "concat (map resp_bulk vs)"
  let ?part = "take (length a + 2 - lost) (a @ CRLF)"
  have received: "received = CHR ''*'' # dec_nat (Suc (length vs)) @ CR # LF # ?bs @ CHR ''$'' # dec_nat (length a) @ CR # LF # ?part"
    using take_array [OF assms(4), of vs] assms(1,5) by simp
  have bound: "Suc (length vs) < 2 ^ 31" "length a < 2 ^ 31" "3 + length ?bs < 2 ^ 31" "\<forall>b. Some b \<in> set (map Some vs) \<longrightarrow> length b < 2 ^ 31"
    using assms(2) length_bulks(1) [of vs] unfolding assms(1) resp_array_Some by (auto simp: length_resp_bulk dest!: length_bulks(2))
  let ?mem = "dec_nat (Suc (length vs)) @ CR # LF # ?bs @ CHR ''$'' # dec_nat (length a) @ CR # LF # ?part @ junk"
  let ?N = "int (length received)"
  have "ngx_redis_proto_decode (received @ junk) ?N = ngx_parse_multibulk ?mem ?N"
    unfolding received by (simp add: ngx_redis_proto_decode_def)
  also have "\<dots> = multibulk_loop (length vs + 1) ?mem ?N (int 3) (int (length (dec_nat (Suc (length vs)) @ CRLF)))"
    using parse_multibulk_eq [OF bound(1)] by simp
  also have "\<dots> = multibulk_loop 1 ?mem ?N (int (3 + length ?bs)) (int (length (dec_nat (Suc (length vs)) @ CRLF) + length ?bs))"
    by (rule multibulk_loop_bulks) (use bound(3) in \<open>auto simp: received\<close>)
  also have "\<dots> = Inr NGX_OK"
    using strtol_at_dec [OF bound(2), of ?mem "dec_nat (Suc (length vs)) @ CRLF @ ?bs @ ''$''" "LF # ?part @ junk"]
    by (simp add: received Let_def add_ac)
  finally have accepted: "ngx_redis_proto_decode (received @ junk) ?N = Inr NGX_OK" .
  have "array_loop env (length vs + 1) 0 (?bs @ CHR ''$'' # dec_nat (length a) @ CR # LF # ?part) (request, parent, []) =
      bindR (items env 0 (map Some vs) (request, parent, [])) (\<lambda>st. array_loop env 1 (length vs) (CHR ''$'' # dec_nat (length a) @ CR # LF # ?part) st)"
    using array_loop_append [OF bound(4), of env 1 0] unfolding map_items by simp
  moreover have "array_loop env 1 (length vs) (CHR ''$'' # dec_nat (length a) @ CR # LF # ?part) st = Inl Out_of_bounds" if "reads_element (fst st)" for st
  proof -
    have "Suc (Suc (Suc (length a)) - lost) < length a" using assms(3,4) by linarith
    then show ?thesis using that bound(2) by (simp add: string_at_def)
  qed
  ultimately have "\<exists>fault. array_loop env (Suc (length vs)) 0 (?bs @ CHR ''$'' # dec_nat (length a) @ CR # LF # ?part) (request, parent, []) = Inl fault"
    using items_reads [of env 0 "map Some vs" "(request, parent, [])"] assms(8)
    by (cases "items env 0 (map Some vs) (request, parent, [])") auto
  then have "\<exists>fault. RedisProtoDecode env parent request rp = Inl fault"
    using assms(6,7) bound(1) unfolding received by (auto simp: RedisProtoDecode_def RedisProtoDecodeGetArray_def nat_add_distrib)
  then show ?thesis using accepted by blast
qed

theorem truncated_array_accepted_witness:
  "\<exists>fault. RedisProtoDecode sample_env None ((sample_request REDIS_SMEMBERS ''k'' [])\<lparr>rq_response_buffer := ''*1'' @ CRLF @ ''$6'' @ CRLF @ ''abcd''\<rparr>) sample_scripts = Inl fault"
proof -
  let ?reply = "''*1'' @ CRLF @ ''$6'' @ CRLF @ ''abcdef'' @ CRLF"
  have reply: "?reply = resp_array (map Some ([] @ [''abcdef'']))" by code_simp
  have received: "''*1'' @ CRLF @ ''$6'' @ CRLF @ ''abcd'' = take (length ?reply - 4) ?reply" by code_simp
  show ?thesis
    by (rule truncated_array_accepted [OF reply _ _ _ received, THEN conjunct2])
      (simp_all add: sample_request_def new_request_def QKPACK_RESPONSE_CODE_OK_def reads_element_def)
qed

text \<open>A missing key in an array makes the scan lose its place: it reads the content of the next string as a length.  A
  complete reply to an MGET of at least four keys, the first missing and the value of the second \<open>999999999\<close>, is never
  recognised as complete.\<close>

theorem nil_element_stalls:
  assumes "2 \<le> length vs" "length (resp_array (None # Some ''999999999'' # vs)) < 10 ^ 9"
  shows "ngx_redis_proto_decode (resp_array (None # Some ''999999999'' # vs) @ junk) (int (length (resp_array (None # Some ''999999999'' # vs)))) = Inr NGX_AGAIN"
proof -
  obtain k where k: "length vs = Suc (Suc k)" using assms(1) by (metis add_2_eq_Suc le_Suc_ex)
  let ?n = "4 + k"
  let ?s = "concat (map resp_item vs) @ junk"
  let ?d = "dec_nat ?n"
  have digits: "dec_nat 9 = ''9''" "dec_nat 999999999 = ''999999999''"
  proof -
    have "dec_digit 9 = CHR ''9''" by code_simp
    then show "dec_nat 9 = ''9''" "dec_nat 999999999 = ''999999999''" by (simp_all add: dec_nat.simps)
  qed
  have whole: "resp_array (None # Some ''999999999'' # vs) =
      CHR ''*'' # ?d @ CR # LF # ''$-1'' @ CRLF @ ''$9'' @ CRLF @ ''999999999'' @ CRLF @ concat (map resp_item vs)"
    using k digits(1) by (simp add: resp_array_def resp_item_def [of None] resp_item_def [of "Some xs" for xs] resp_bulk_def eval_nat_numeral)
  let ?mem = "?d @ CR # LF # ''$-1'' @ CRLF @ ''$9'' @ CRLF @ ''999999999'' @ CRLF @ ?s"
  let ?N = "int (length (resp_array (None # Some ''999999999'' # vs)))"
  let ?l = "int (length ?d)"
  have "length vs \<le> length (concat (map resp_item vs))"
    by (induction vs) (auto simp: resp_item_def resp_bulk_def split: option.split)
  then have n: "?n < 2 ^ 31" "24 \<le> ?N" "?N < 10 ^ 9"
    using assms(2) k unfolding whole by auto
  have at: "strtol_at ?mem (?l + 3) = Inr (- 1, ?l + 5)" "strtol_at ?mem (?l + 6) = Inr (0, ?l + 6)"
    "strtol_at ?mem (?l + 11) = Inr (999999999, ?l + 20)"
    using strtol_at_minus_one [of ?mem "?d @ CRLF @ ''$''"] strtol_at_none [of ?mem "?d @ CRLF @ ''$-1'' @ [CR]"]
      strtol_at_dec [of 999999999 ?mem "?d @ CRLF @ ''$-1'' @ CRLF @ ''$9'' @ CRLF" "LF # ?s"] digits(2)
    by (simp_all add: add_ac)
  have size0: "ngx_get_num_size 0 = 1" "ngx_get_num_size 999999999 = 9"
    using num_size_int [of 0] num_size_int [of 999999999] digits(2) by (simp_all add: dec_nat.simps [of 0])
  have "ngx_redis_proto_decode (resp_array (None # Some ''999999999'' # vs) @ junk) ?N = multibulk_loop ?n ?mem ?N 3 (?l + 2)"
    using parse_multibulk_eq [OF n(1), of ?mem] unfolding whole by (simp add: ngx_redis_proto_decode_def add_ac)
  moreover have "n = Suc (Suc (Suc (Suc k))) \<Longrightarrow> multibulk_loop n mem N 3 (l + 2) = Inr NGX_AGAIN"
    if "strtol_at mem (l + 3) = Inr (- 1, l + 5)" "strtol_at mem (l + 6) = Inr (0, l + 6)" "strtol_at mem (l + 11) = Inr (999999999, l + 20)"
      "24 \<le> N" "N < 10 ^ 9" for mem N l n
    using that that(1-3) [unfolded add.commute [of l]] by (simp add: size0 Let_def)
  moreover have "?n = Suc (Suc (Suc (Suc k)))" by simp
  ultimately show ?thesis using at n(2,3) by (metis (no_types))
qed

theorem nil_element_stalls_witness:
  "ngx_redis_proto_decode (''*4'' @ CRLF @ ''$-1'' @ CRLF @ ''$9'' @ CRLF @ ''999999999'' @ CRLF @ ''$1'' @ CRLF @ ''a'' @ CRLF @ ''$1'' @ CRLF @ ''b'' @ CRLF) 38
    = Inr NGX_AGAIN"
proof -
  have reply: "resp_array [None, Some ''999999999'', Some ''a'', Some ''b''] =
    ''*4'' @ CRLF @ ''$-1'' @ CRLF @ ''$9'' @ CRLF @ ''999999999'' @ CRLF @ ''$1'' @ CRLF @ ''a'' @ CRLF @ ''$1'' @ CRLF @ ''b'' @ CRLF"
    by code_simp
  show ?thesis using nil_element_stalls [of "[Some ''a'', Some ''b'']" "[]"] unfolding reply by simp
qed

end
