(* ===== verification/NgxPeers.thy ===== *)
theory NgxPeers
  imports NgxArgs NgxRedisProtocol
begin

text \<open>
  The servers and peers of the configured upstreams (\<open>src/qkupstream/ngx_upstream_util.c\<close>) and the reading of an
  address by nginx (\<open>ngx_inet.c\<close>, built with Unix sockets and without IPv6).  A worker learns the addresses of storage
  nodes at run time and adds each as a server and a peer of the upstream of its cluster.  Memory for them is taken to
  be available.  The name service is a parameter; the module never lets nginx use it.
\<close>


section \<open>Addresses\<close>

datatype sockaddr = Sockaddr_in u32 u16 | Sockaddr_un bytes

record ngx_addr_t =
  ad_sockaddr :: sockaddr
  ad_name :: bytes

record ngx_url_t =
  ul_url :: bytes
  ul_host :: bytes
  ul_port :: u16
  ul_default_port :: u16
  ul_listen :: bool
  ul_uri_part :: bool
  ul_no_resolve :: bool
  ul_addrs :: "ngx_addr_t list"
  ul_err :: bool

definition INADDR_NONE :: u32 where "INADDR_NONE = - 1"

text \<open>The address in host order; \<open>htonl\<close> only reorders the bytes.\<close>

fun inet_loop :: "bytes \<Rightarrow> u32 \<Rightarrow> u64 \<Rightarrow> nat \<Rightarrow> u32" where
  "inet_loop [] addr octet n = (if n = 3 \<and> octet < 256 then push_bit 8 addr + ucast octet else INADDR_NONE)"
| "inet_loop (c # p) addr octet n =
    (if is_digit 10 c then inet_loop p addr (octet * 10 + word_of_int (of_char c - 48)) n
     else if c = CHR ''.'' \<and> octet < 256 then inet_loop p (push_bit 8 addr + ucast octet) 0 (Suc n)
     else INADDR_NONE)"

definition ngx_inet_addr :: "bytes \<Rightarrow> u32" where
  "ngx_inet_addr s = inet_loop s 0 0 0"

definition ngx_strlchr :: "bytes \<Rightarrow> char \<Rightarrow> nat option" where
  "ngx_strlchr s c = (let i = scan (\<lambda>x. x = c) s in if i < length s then Some i else None)"

text \<open>A failed parse: the message is kept as a flag.\<close>

definition url_error :: "ngx_url_t \<Rightarrow> (int \<times> ngx_url_t) result" where
  "url_error u = Inr (NGX_ERROR, u\<lparr>ul_err := True\<rparr>)"

definition sun_path_size :: nat where "sun_path_size = 108"

definition ngx_parse_unix_domain_url :: "ngx_url_t \<Rightarrow> (int \<times> ngx_url_t) result" where
  "ngx_parse_unix_domain_url u =
    (let path = drop 5 (ul_url u);
         path = (if ul_uri_part u then case ngx_strlchr path (CHR '':'') of None \<Rightarrow> path | Some i \<Rightarrow> take i path else path) in
     if path = [] then url_error u
     else if length path + 1 > sun_path_size then url_error (u\<lparr>ul_host := path\<rparr>)
     else Inr (NGX_OK, u\<lparr>ul_host := path,
       ul_addrs := [\<lparr>ad_sockaddr = Sockaddr_un (c_str path), ad_name = take (length path + 5) (ul_url u)\<rparr>]\<rparr>))"

text \<open>The host part once the port is known.\<close>

definition inet_host :: "(bytes \<Rightarrow> ngx_addr_t list option) \<Rightarrow> bytes \<Rightarrow> ngx_url_t \<Rightarrow> (int \<times> ngx_url_t) result" where
  "inet_host resolve host u =
    (if host = [] then url_error u
     else
       let u = u\<lparr>ul_host := host\<rparr> in
       if ul_listen u \<and> host = ''*'' then Inr (NGX_OK, u)
       else if ngx_inet_addr host \<noteq> INADDR_NONE then
         Inr (NGX_OK, u\<lparr>ul_addrs := [\<lparr>ad_sockaddr = Sockaddr_in (ngx_inet_addr host) (ul_port u),
           ad_name = host @ '':'' @ dec_nat (unat (ul_port u))\<rparr>]\<rparr>)
       else if ul_no_resolve u then Inr (NGX_OK, u)
       else case resolve host of None \<Rightarrow> Inr (NGX_ERROR, u) | Some addrs \<Rightarrow> Inr (NGX_OK, u\<lparr>ul_addrs := addrs\<rparr>))"

definition ngx_parse_inet_url :: "(bytes \<Rightarrow> ngx_addr_t list option) \<Rightarrow> ngx_url_t \<Rightarrow> (int \<times> ngx_url_t) result" where
  "ngx_parse_inet_url resolve u =
    (let host = ul_url u;
         port = ngx_strlchr host (CHR '':'');
         uri = (case (ngx_strlchr host (CHR ''/''), ngx_strlchr host (CHR ''?'')) of
                  (None, args) \<Rightarrow> args | (Some i, None) \<Rightarrow> Some i | (Some i, Some j) \<Rightarrow> Some (min i j)) in
     if uri \<noteq> None \<and> (ul_listen u \<or> \<not> ul_uri_part u) then url_error u
     else
       let last = (case uri of None \<Rightarrow> length host | Some i \<Rightarrow> i);
           port = (case (uri, port) of (Some i, Some p) \<Rightarrow> if i < p then None else Some p | _ \<Rightarrow> port) in
       case port of
         Some p \<Rightarrow>
           bindR (ngx_atoi (take (last - Suc p) (drop (Suc p) host))) (\<lambda>n.
             if n < 1 \<or> n > 65535 then url_error u
             else inet_host resolve (take p host) (u\<lparr>ul_port := word_of_int n\<rparr>))
       | None \<Rightarrow>
           if uri = None \<and> ul_listen u then
             bindR (ngx_atoi host) (\<lambda>n.
               if n \<noteq> NGX_ERROR then
                 if n < 1 \<or> n > 65535 then url_error u else Inr (NGX_OK, u\<lparr>ul_port := word_of_int n\<rparr>)
               else inet_host resolve host (u\<lparr>ul_port := ul_default_port u\<rparr>))
           else inet_host resolve (take last host) (u\<lparr>ul_port := ul_default_port u\<rparr>))"

text \<open>The test for \<open>unix:\<close> compares five bytes and stops at a difference.\<close>

definition ngx_parse_url :: "(bytes \<Rightarrow> ngx_addr_t list option) \<Rightarrow> ngx_url_t \<Rightarrow> (int \<times> ngx_url_t) result" where
  "ngx_parse_url resolve u =
    (let p = ul_url u; n = length p in
     if n < 5 \<and> map lower p = take n ''unix:'' then Inl Out_of_bounds
     else if map lower (take 5 p) = ''unix:'' then ngx_parse_unix_domain_url u
     else if hd p = CHR ''['' then url_error u
     else ngx_parse_inet_url resolve u)"


section \<open>Servers and peers\<close>

record ngx_http_upstream_server_t =
  sv_host :: bytes
  sv_id :: bytes
  sv_addrs :: "ngx_addr_t list"
  sv_weight :: int
  sv_max_fails :: int
  sv_fail_timeout :: int
  sv_down :: bool

record ngx_http_upstream_rr_peer_t =
  pr_name :: bytes
  pr_sockaddr :: sockaddr
  pr_host :: bytes
  pr_id :: bytes
  pr_weight :: int
  pr_effective_weight :: int
  pr_current_weight :: int
  pr_max_fails :: int
  pr_fail_timeout :: int
  pr_down :: bool
  pr_fails :: int
  pr_checked :: int

text \<open>\<open>number\<close> is the length of the array.\<close>

record ngx_http_upstream_rr_peers_t =
  ps_peer :: "ngx_http_upstream_rr_peer_t list"
  ps_total_weight :: int
  ps_single :: bool
  ps_weighted :: bool

record ngx_http_upstream_srv_conf_t =
  uc_host :: bytes
  uc_port :: u16
  uc_default_port :: u16
  uc_servers :: "ngx_http_upstream_server_t list option"
  uc_peers :: "ngx_http_upstream_rr_peers_t option"

type_synonym upstreams = "ngx_http_upstream_srv_conf_t list"

definition ngx_http_qkupstream_find_upstream :: "bytes \<Rightarrow> upstreams \<Rightarrow> nat option" where
  "ngx_http_qkupstream_find_upstream host ucs = find (\<lambda>i. uc_host (ucs ! i) = host) [0..<length ucs]"

definition ngx_http_qkupstream_compare_server ::
  "ngx_http_upstream_srv_conf_t \<Rightarrow> bytes \<Rightarrow> ngx_http_upstream_server_t option" where
  "ngx_http_qkupstream_compare_server us url =
    (case uc_servers us of None \<Rightarrow> None | Some servers \<Rightarrow> find (\<lambda>s. \<exists>a\<in>set (sv_addrs s). ad_name a = url) servers)"

definition ngx_http_qkupstream_exist_peer :: "ngx_http_upstream_rr_peers_t option \<Rightarrow> bytes \<Rightarrow> bool" where
  "ngx_http_qkupstream_exist_peer peers url = (case peers of None \<Rightarrow> False | Some ps \<Rightarrow> \<exists>p\<in>set (ps_peer ps). pr_name p = url)"

definition ngx_http_qkupstream_get_peers :: "bytes \<Rightarrow> bytes \<Rightarrow> upstreams \<Rightarrow> ngx_http_upstream_rr_peer_t option" where
  "ngx_http_qkupstream_get_peers upstream_name upstream_ip ucs =
    (if upstream_name = [] \<or> upstream_ip = [] then None
     else case ngx_http_qkupstream_find_upstream upstream_name ucs of
       None \<Rightarrow> None
     | Some i \<Rightarrow> (case uc_peers (ucs ! i) of None \<Rightarrow> None | Some ps \<Rightarrow> find (\<lambda>p. pr_name p = upstream_ip) (ps_peer ps)))"

definition add_server_url :: "bytes \<Rightarrow> ngx_url_t" where
  "add_server_url upstream_ip = \<lparr>ul_url = upstream_ip, ul_host = [], ul_port = 0, ul_default_port = 80, ul_listen = False,
     ul_uri_part = False, ul_no_resolve = True, ul_addrs = [], ul_err = False\<rparr>"

definition zero_server :: ngx_http_upstream_server_t where
  "zero_server = \<lparr>sv_host = [], sv_id = [], sv_addrs = [], sv_weight = 0, sv_max_fails = 0, sv_fail_timeout = 0, sv_down = False\<rparr>"

text \<open>The new element stays in the array also when the address turns out unusable.\<close>

definition ngx_http_qkupstream_add_server ::
  "(bytes \<Rightarrow> ngx_addr_t list option) \<Rightarrow> bytes \<Rightarrow> bytes \<Rightarrow> upstreams \<Rightarrow> (int \<times> upstreams) result" where
  "ngx_http_qkupstream_add_server resolve upstream_name upstream_ip ucs =
    (if upstream_name = [] \<or> upstream_ip = [] then Inr (NGX_ERROR, ucs)
     else case ngx_http_qkupstream_find_upstream upstream_name ucs of
       None \<Rightarrow> Inr (NGX_ERROR, ucs)
     | Some i \<Rightarrow>
         (case uc_servers (ucs ! i) of
            None \<Rightarrow> Inl Null_deref
          | Some servers \<Rightarrow>
              if ngx_http_qkupstream_compare_server (ucs ! i) upstream_ip \<noteq> None then Inr (NGX_ERROR, ucs)
              else if servers = [] then Inr (NGX_ERROR, ucs)
              else bindR (ngx_parse_url resolve (add_server_url upstream_ip)) (\<lambda>(rc, u).
                if rc \<noteq> NGX_OK \<and> ul_err u then Inr (NGX_ERROR, ucs)
                else
                  let push = (\<lambda>us. ucs[i := (ucs ! i)\<lparr>uc_servers := Some (servers @ [us])\<rparr>]) in
                  if ul_addrs u \<noteq> [] then
                    Inr (NGX_OK, push (zero_server\<lparr>sv_host := ul_host u, sv_addrs := ul_addrs u, sv_max_fails := 6\<rparr>))
                  else Inr (NGX_ERROR, push zero_server))))"

text \<open>The first address of a server found by any of its addresses.\<close>

definition new_peer :: "ngx_http_upstream_server_t \<Rightarrow> ngx_http_upstream_rr_peer_t" where
  "new_peer us = \<lparr>pr_name = ad_name (hd (sv_addrs us)), pr_sockaddr = ad_sockaddr (hd (sv_addrs us)), pr_host = sv_host us,
     pr_id = sv_id us, pr_weight = sv_weight us, pr_effective_weight = sv_weight us, pr_current_weight = 0,
     pr_max_fails = sv_max_fails us, pr_fail_timeout = sv_fail_timeout us, pr_down = sv_down us, pr_fails = 0, pr_checked = 0\<rparr>"

definition ngx_http_qkupstream_add_peer :: "bytes \<Rightarrow> bytes \<Rightarrow> upstreams \<Rightarrow> (int \<times> upstreams) result" where
  "ngx_http_qkupstream_add_peer upstream_name upstream_ip ucs =
    (if upstream_name = [] \<or> upstream_ip = [] then Inr (NGX_ERROR, ucs)
     else case ngx_http_qkupstream_find_upstream upstream_name ucs of
       None \<Rightarrow> Inr (NGX_ERROR, ucs)
     | Some i \<Rightarrow>
         (case ngx_http_qkupstream_compare_server (ucs ! i) upstream_ip of
            None \<Rightarrow> Inr (NGX_ERROR, ucs)
          | Some us \<Rightarrow>
              if ngx_http_qkupstream_exist_peer (uc_peers (ucs ! i)) upstream_ip then Inr (NGX_ERROR, ucs)
              else case uc_peers (ucs ! i) of
                None \<Rightarrow> Inl Out_of_bounds
              | Some ps \<Rightarrow>
                  let peer = new_peer us; total = ps_total_weight ps + pr_weight peer; number = Suc (length (ps_peer ps)) in
                  Inr (NGX_OK, ucs[i := (ucs ! i)\<lparr>uc_peers := Some (ps\<lparr>ps_peer := ps_peer ps @ [peer],
                    ps_total_weight := total, ps_single := (number = 1), ps_weighted := (total \<noteq> int number)\<rparr>)\<rparr>])))"

definition ngx_http_qkupstream_upstream_add :: "ngx_url_t \<Rightarrow> upstreams \<Rightarrow> ngx_http_upstream_srv_conf_t option" where
  "ngx_http_qkupstream_upstream_add url ucs =
    find (\<lambda>uc. length (uc_host uc) = length (ul_host url) \<and> ngx_strncaseeq (uc_host uc) (ul_host url) (length (ul_host url)) \<and>
      uc_port uc = ul_port url \<and>
      (uc_default_port uc = 0 \<or> ul_default_port url = 0 \<or> uc_default_port uc = ul_default_port url)) ucs"

text \<open>How a request obtains the peer of its node, adding server and peer when there is none.\<close>

definition find_or_add_peer ::
  "(bytes \<Rightarrow> ngx_addr_t list option) \<Rightarrow> bytes \<Rightarrow> bytes \<Rightarrow> upstreams \<Rightarrow> (ngx_http_upstream_rr_peer_t option \<times> upstreams) result" where
  "find_or_add_peer resolve name ip ucs =
    (case ngx_http_qkupstream_get_peers name ip ucs of
       Some peer \<Rightarrow> Inr (Some peer, ucs)
     | None \<Rightarrow>
         bindR (ngx_http_qkupstream_add_server resolve name ip ucs) (\<lambda>(_, ucs).
         bindR (ngx_http_qkupstream_add_peer name ip ucs) (\<lambda>(_, ucs).
           Inr (ngx_http_qkupstream_get_peers name ip ucs, ucs))))"



section \<open>Specification\<close>

definition dotted :: "nat \<Rightarrow> nat \<Rightarrow> nat \<Rightarrow> nat \<Rightarrow> bytes" where
  "dotted a b c d = dec_nat a @ ''.'' @ dec_nat b @ ''.'' @ dec_nat c @ ''.'' @ dec_nat d"

definition ipv4 :: "nat \<Rightarrow> nat \<Rightarrow> nat \<Rightarrow> nat \<Rightarrow> u32" where
  "ipv4 a b c d = word_of_nat (((a * 256 + b) * 256 + c) * 256 + d)"

definition sample_conf :: ngx_http_upstream_srv_conf_t where
  "sample_conf = \<lparr>uc_host = ''BJ02'', uc_port = 0, uc_default_port = 0,
     uc_servers = Some [zero_server\<lparr>sv_addrs := [\<lparr>ad_sockaddr = Sockaddr_in 0 80, ad_name = ''0.0.0.0:80''\<rparr>]\<rparr>],
     uc_peers = Some \<lparr>ps_peer = [], ps_total_weight = 0, ps_single = False, ps_weighted = False\<rparr>\<rparr>"


section \<open>Lemmas\<close>

lemma inet_digit: "d < 10 \<Longrightarrow> inet_loop (dec_digit d # p) addr octet k = inet_loop p addr (octet * 10 + word_of_nat d) k"
proof -
  assume d: "d < 10"
  have "(of_char (dec_digit d) :: int) = int (48 + d)"
    using of_char_dec_digit [OF d] by (metis of_nat_of_char)
  then show ?thesis using d by simp
qed

lemma inet_loop_dec: "inet_loop (dec_nat n @ p) addr 0 k = inet_loop p addr (word_of_nat n) k"
proof (induction n arbitrary: p rule: dec_nat.induct)
  case (1 n)
  show ?case
  proof (cases "n < 10")
    case True
    then show ?thesis by (subst dec_nat.simps) (simp add: inet_digit del: inet_loop.simps(2))
  next
    case False
    have "word_of_nat (n div 10) * 10 + word_of_nat (n mod 10) = (word_of_nat n :: u64)"
      by (metis div_mult_mod_eq of_nat_add of_nat_mult of_nat_numeral)
    then show ?thesis using False 1 [OF False] by (subst dec_nat.simps) (simp add: inet_digit del: inet_loop.simps(2))
  qed
qed

lemma octet_less: "n < 256 \<Longrightarrow> (word_of_nat n :: u64) < 256"
  by (simp add: word_less_nat_alt unat_of_nat take_bit_nat_eq_self)

lemma ucast_octet: "n < 256 \<Longrightarrow> (ucast (word_of_nat n :: u64) :: u32) = word_of_nat n"
  by (simp add: unsigned_of_nat take_bit_nat_eq_self)

lemma inet_loop_dot: "n < 256 \<Longrightarrow> inet_loop (CHR ''.'' # p) addr (word_of_nat n) k = inet_loop p (addr * 256 + word_of_nat n) 0 (Suc k)"
  by (simp add: octet_less ucast_octet push_bit_eq_mult is_digit_def digit_val_def)

lemma ngx_inet_addr_dotted:
  assumes "a < 256" "b < 256" "c < 256" "d < 256"
  shows "ngx_inet_addr (dotted a b c d) = ipv4 a b c d"
proof -
  have "ngx_inet_addr (dotted a b c d) = (((word_of_nat a * 256 + word_of_nat b) * 256 + word_of_nat c) * 256 + word_of_nat d)"
    using assms inet_loop_dec [of d "[]"]
    by (simp add: ngx_inet_addr_def dotted_def inet_loop_dec inet_loop_dot octet_less ucast_octet push_bit_eq_mult del: inet_loop.simps(2))
  then show ?thesis by (simp add: ipv4_def)
qed

lemma ipv4_none:
  assumes "a < 256" "b < 256" "c < 256" "d < 256"
  shows "ipv4 a b c d = INADDR_NONE \<longleftrightarrow> a = 255 \<and> b = 255 \<and> c = 255 \<and> d = 255"
proof -
  let ?n = "((a * 256 + b) * 256 + c) * 256 + d"
  have "?n < 2 ^ 32" using assms by simp
  then have "unat (ipv4 a b c d) = ?n" unfolding ipv4_def unat_of_nat by simp
  moreover have "unat INADDR_NONE = 2 ^ 32 - 1" by (simp add: INADDR_NONE_def unsigned_minus_1_eq_mask mask_eq_exp_minus_1)
  ultimately have "ipv4 a b c d = INADDR_NONE \<longleftrightarrow> ?n = 2 ^ 32 - 1" by (metis word_unat_eq_iff)
  then show ?thesis using assms by simp linarith
qed

lemma ngx_strlchr_None: "c \<notin> set s \<Longrightarrow> ngx_strlchr s c = None"
  using scan_eq_length_iff [of "\<lambda>x. x = c" s] by (auto simp: ngx_strlchr_def Let_def)

lemma ngx_strlchr_Some: "c \<notin> set s \<Longrightarrow> ngx_strlchr (s @ c # t) c = Some (length s)"
  by (induction s) (auto simp: ngx_strlchr_def Let_def split: if_splits)

lemma dotted_no: "\<not> is_digit 10 x \<Longrightarrow> x \<noteq> CHR ''.'' \<Longrightarrow> x \<notin> set (dotted a b c d)"
  by (simp add: dotted_def dec_nat_no)

lemma separators: "\<not> is_digit 10 (CHR '':'')" "\<not> is_digit 10 (CHR ''/'')" "\<not> is_digit 10 (CHR ''?'')" "\<not> is_digit 10 (CHR ''['')"
  by (simp_all add: is_digit_def digit_val_def)

text \<open>An address \<open>host:port\<close> whose host has none of the characters nginx cuts at.\<close>

lemma parse_host_port:
  assumes "0 < port" "port < 65536" "CHR '':'' \<notin> set host" "CHR ''/'' \<notin> set host" "CHR ''?'' \<notin> set host"
    and "hd (host @ '':'') \<noteq> CHR ''[''" "hd (map lower (host @ '':'')) \<noteq> CHR ''u''"
  shows "ngx_parse_url resolve (add_server_url (host @ '':'' @ dec_nat port)) =
    inet_host resolve host ((add_server_url (host @ '':'' @ dec_nat port))\<lparr>ul_port := word_of_nat port\<rparr>)"
proof -
  let ?u = "host @ '':'' @ dec_nat port"
  have chr: "ngx_strlchr ?u (CHR '':'') = Some (length host)" "ngx_strlchr ?u (CHR ''/'') = None" "ngx_strlchr ?u (CHR ''?'') = None"
    using assms separators ngx_strlchr_Some [OF assms(3), of "dec_nat port"] by (auto intro!: ngx_strlchr_None simp: dec_nat_no)
  have "ngx_parse_url resolve (add_server_url ?u) = ngx_parse_inet_url resolve (add_server_url ?u)"
    using assms(6,7) by (cases host) (auto simp: ngx_parse_url_def add_server_url_def Let_def take_Cons')
  moreover have "ngx_atoi (dec_nat port) = Inr (int port)" using assms(2) by (simp add: ngx_atoi_dec)
  ultimately show ?thesis
    using assms(1,2) chr by (simp add: ngx_parse_inet_url_def add_server_url_def)
qed

lemma dec_nat_head: "hd (dec_nat n @ xs) \<noteq> CHR ''[''" "lower (hd (dec_nat n @ xs)) \<noteq> CHR ''u''"
proof -
  obtain d ds where d: "dec_nat n = dec_digit d # ds" "d < 10" using hd_dec_nat by blast
  have digit: "of_char (dec_digit d) = 48 + d" by (rule of_char_dec_digit) fact
  then have "dec_digit d \<noteq> c" if "57 < (of_char c :: nat)" for c using that d(2) by auto
  from this [of "CHR ''u''"] this [of "CHR ''[''"] digit have "dec_digit d \<noteq> CHR ''u''" "lower (dec_digit d) = dec_digit d" "dec_digit d \<noteq> CHR ''[''"
    using d(2) by (auto simp: lower_def Let_def)
  then show "hd (dec_nat n @ xs) \<noteq> CHR ''[''" "lower (hd (dec_nat n @ xs)) \<noteq> CHR ''u''" using d(1) by simp_all
qed

lemma find_index: "find P [0..<n] = Some i \<Longrightarrow> i < n \<and> P i \<and> (\<forall>j<i. \<not> P j)"
  by (auto simp: find_Some_iff)

lemma find_upstream_update:
  "uc_host uc = uc_host (ucs ! i) \<Longrightarrow> ngx_http_qkupstream_find_upstream name (ucs[i := uc]) = ngx_http_qkupstream_find_upstream name ucs"
proof -
  assume "uc_host uc = uc_host (ucs ! i)"
  then have "uc_host (ucs[i := uc] ! j) = uc_host (ucs ! j)" if "j < length ucs" for j
    using that by (cases "j = i") simp_all
  then show ?thesis unfolding ngx_http_qkupstream_find_upstream_def by (auto intro!: find_cong)
qed

lemma get_peers_eq:
  "name \<noteq> [] \<Longrightarrow> ip \<noteq> [] \<Longrightarrow> ngx_http_qkupstream_find_upstream name ucs = Some i \<Longrightarrow> uc_peers (ucs ! i) = Some ps \<Longrightarrow>
    ngx_http_qkupstream_get_peers name ip ucs = find (\<lambda>p. pr_name p = ip) (ps_peer ps)"
  by (simp add: ngx_http_qkupstream_get_peers_def)

lemma find_append: "find P (xs @ ys) = (case find P xs of None \<Rightarrow> find P ys | Some x \<Rightarrow> Some x)"
  by (induction xs) auto

text \<open>Adding a peer to one upstream shows in the lookups of its own name there, and in no other.\<close>

lemma get_peers_add:
  assumes "ngx_http_qkupstream_find_upstream name ucs = Some i" "uc_peers (ucs ! i) = Some ps" "uc_host uc = uc_host (ucs ! i)"
    and "uc_peers uc = Some ps'" "ps_peer ps' = ps_peer ps @ [peer]" "(name', ip') \<noteq> (name, pr_name peer)"
  shows "ngx_http_qkupstream_get_peers name' ip' (ucs[i := uc]) = ngx_http_qkupstream_get_peers name' ip' ucs"
proof (cases "ngx_http_qkupstream_find_upstream name' ucs")
  case (Some j)
  have i: "i < length ucs" "uc_host (ucs ! i) = name" and j: "uc_host (ucs ! j) = name'"
    using assms(1) Some by (auto simp: ngx_http_qkupstream_find_upstream_def dest!: find_index)
  then show ?thesis
    using assms Some by (cases "j = i")
      (auto simp: ngx_http_qkupstream_get_peers_def find_upstream_update find_append split: option.split)
qed (simp add: ngx_http_qkupstream_get_peers_def find_upstream_update assms(3))


section \<open>Properties\<close>





end
