(* ===== verification/NgxPlugin.thy ===== *)
theory NgxPlugin
  imports SubRequest NgxRedisProtocol
begin

text \<open>
  What the nginx modules share (\<open>src/qkplugin/ngx_qkplugin_manager.cc\<close>): the table of loaded plugins, the nginx
  variables they read, and the reading of a request body that nginx keeps in memory, in a temporary file, or both.  The
  dynamic linker and the plugins are parameters.
\<close>


section \<open>Plugins\<close>

text \<open>A loaded library and the object its factory made.\<close>

record 'p plugin_info =
  pi_so_conf :: bytes
  pi_plugin :: 'p

type_synonym 'p plugins = "(bytes, 'p plugin_info) smap"

text \<open>\<open>dlopen\<close>, \<open>dlsym\<close> and the call of \<open>create_instance\<close>: each may give a null pointer.\<close>

record 'p linker =
  ld_open :: "bytes \<Rightarrow> bool"
  ld_sym :: "bytes \<Rightarrow> bool"
  ld_create :: "bytes \<Rightarrow> 'p option"

definition ngx_load_qkplugin :: "'p linker \<Rightarrow> bytes \<Rightarrow> bytes \<Rightarrow> bytes \<Rightarrow> 'p plugins \<Rightarrow> int \<times> 'p plugins" where
  "ngx_load_qkplugin ld name so_path so_conf ps =
    (if \<not> ld_open ld so_path then (NGX_ERROR, ps)
     else if \<not> ld_sym ld so_path then (NGX_ERROR, ps)
     else case ld_create ld so_path of
       None \<Rightarrow> (NGX_ERROR, ps)
     | Some p \<Rightarrow> (NGX_OK, smap_insert name \<lparr>pi_so_conf = so_conf, pi_plugin = p\<rparr> ps))"

text \<open>The loops over all plugins stop at the first that fails; \<open>call\<close> is the method, with the state of the plugin.\<close>

fun plugin_loop :: "('p plugin_info \<Rightarrow> int \<times> 'p) \<Rightarrow> 'p plugins \<Rightarrow> int \<times> 'p plugins" where
  "plugin_loop call [] = (NGX_OK, [])"
| "plugin_loop call ((name, info) # ps) =
    (let (rc, p) = call info; info = info\<lparr>pi_plugin := p\<rparr> in
     if rc \<noteq> NGX_OK then (NGX_ERROR, (name, info) # ps)
     else let (rc, ps) = plugin_loop call ps in (rc, (name, info) # ps))"

definition ngx_init_master_qkplugin :: "('p \<Rightarrow> bytes \<Rightarrow> int \<times> 'p) \<Rightarrow> 'p plugins \<Rightarrow> int \<times> 'p plugins" where
  "ngx_init_master_qkplugin InitMaster ps = plugin_loop (\<lambda>info. InitMaster (pi_plugin info) (pi_so_conf info)) ps"

definition ngx_init_process_qkplugin :: "('p \<Rightarrow> bytes \<Rightarrow> int \<times> 'p) \<Rightarrow> 'p plugins \<Rightarrow> int \<times> 'p plugins" where
  "ngx_init_process_qkplugin InitProcess ps = plugin_loop (\<lambda>info. InitProcess (pi_plugin info) (pi_so_conf info)) ps"

definition ngx_publish_process_qkplugin :: "('p \<Rightarrow> int \<times> 'p) \<Rightarrow> 'p plugins \<Rightarrow> int \<times> 'p plugins" where
  "ngx_publish_process_qkplugin Publish ps = plugin_loop (\<lambda>info. Publish (pi_plugin info)) ps"

definition ngx_exit_process_qkplugin :: "('p \<Rightarrow> 'p) \<Rightarrow> 'p plugins \<Rightarrow> 'p plugins" where
  "ngx_exit_process_qkplugin ExitProcess ps = map (\<lambda>(name, info). (name, info\<lparr>pi_plugin := ExitProcess (pi_plugin info)\<rparr>)) ps"

definition plugin_getbyname :: "bytes \<Rightarrow> 'p plugins \<Rightarrow> 'p option" where
  "plugin_getbyname name ps = map_option pi_plugin (smap_get ps name)"


section \<open>Variables\<close>

text \<open>\<open>ngx_http_get_variable\<close>: \<open>None\<close> when there is no such variable.\<close>

type_synonym variables = "bytes \<Rightarrow> bytes option"

definition ngx_http_get_plugin :: "variables \<Rightarrow> bytes option" where
  "ngx_http_get_plugin vars = (case vars ''plugin_name'' of None \<Rightarrow> None | Some v \<Rightarrow> if v = [] then None else Some v)"

definition ngx_http_get_server :: "variables \<Rightarrow> bytes option" where
  "ngx_http_get_server vars = (case vars ''server_addr'' of None \<Rightarrow> None | Some v \<Rightarrow> if v = [] then None else Some v)"


section \<open>Request bodies\<close>

text \<open>
  A link of the chain is in memory or the region of a file.  For a region, \<open>fl_nread\<close> gives what the successive calls of
  \<open>ngx_read_file\<close> return: the number of bytes, or a negative number for an error.  Every call asks for the whole region
  from its start.
\<close>

datatype ngx_buf = In_memory bytes | In_file bytes "int list"

text \<open>\<open>while (nbytes > 0)\<close>: \<open>None\<close> when a read fails.  The buffer holds \<open>length buf_temp\<close> bytes.\<close>

fun read_region :: "bytes \<Rightarrow> int list \<Rightarrow> int \<Rightarrow> nat \<Rightarrow> bytes \<Rightarrow> bytes option result" where
  "read_region region nreads nbytes buf_pos buf_temp =
    (if nbytes \<le> 0 then Inr (Some buf_temp)
     else case nreads of
       [] \<Rightarrow> Inl Diverges
     | nread # nreads \<Rightarrow>
         if nread < 0 then Inr None
         else
           let n = nat nread in
           if buf_pos + n > length buf_temp then Inl Out_of_bounds
           else read_region region nreads (nbytes - nread) (buf_pos + n)
             (take buf_pos buf_temp @ take n region @ drop (buf_pos + n) buf_temp))"

declare read_region.simps [simp del]

text \<open>\<open>junk\<close> is the content of freshly allocated memory.  The whole temporary buffer is appended.\<close>

fun chain_body :: "(nat \<Rightarrow> bytes) \<Rightarrow> ngx_buf list \<Rightarrow> bytes \<Rightarrow> bytes \<Rightarrow> (int \<times> bytes) result" where
  "chain_body junk [] buf_temp post_body = Inr (NGX_OK, post_body)"
| "chain_body junk (In_memory s # cl) buf_temp post_body = chain_body junk cl buf_temp (post_body @ s)"
| "chain_body junk (In_file region nreads # cl) buf_temp post_body =
    (let nbytes = to_int (int (length region)) in
     if nbytes \<le> 0 then chain_body junk cl buf_temp post_body
     else
       let buf_temp = (if nbytes > int (length buf_temp) then take (nat nbytes) (junk (nat nbytes)) else buf_temp) in
       bindR (read_region region nreads nbytes 0 buf_temp) (\<lambda>r. case r of
         None \<Rightarrow> Inr (- 1, post_body)
       | Some buf_temp \<Rightarrow> chain_body junk cl buf_temp (post_body @ buf_temp)))"

text \<open>The chain of the upstream comes first, then that of the request.\<close>

definition ngx_http_get_post_body ::
  "(nat \<Rightarrow> bytes) \<Rightarrow> bool \<Rightarrow> ngx_buf list \<Rightarrow> ngx_buf list \<Rightarrow> qkpack_request_t \<Rightarrow> (int \<times> qkpack_request_t) result" where
  "ngx_http_get_post_body junk post upstream_bufs body_bufs request =
    (if \<not> post then Inr (NGX_ERROR, request)
     else
       let cl = (if upstream_bufs \<noteq> [] then upstream_bufs else body_bufs) in
       if cl = [] then Inr (NGX_ERROR, request)
       else bindR (chain_body junk cl [] (rq_request_buffer request)) (\<lambda>(rc, body). Inr (rc, request\<lparr>rq_request_buffer := body\<rparr>)))"


section \<open>Specification\<close>

fun content :: "ngx_buf \<Rightarrow> bytes" where
  "content (In_memory s) = s"
| "content (In_file region nreads) = region"

text \<open>Every region is read by one call, and no region is smaller than one before it.\<close>

fun one_read :: "nat \<Rightarrow> ngx_buf list \<Rightarrow> bool" where
  "one_read n [] = True"
| "one_read n (In_memory s # cl) = one_read n cl"
| "one_read n (In_file region nreads # cl) =
    (0 < length region \<and> n \<le> length region \<and> length region < 2 ^ 31 \<and> nreads = [int (length region)] \<and> one_read (length region) cl)"


section \<open>Lemmas\<close>

lemma read_region_once:
  "0 < length region \<Longrightarrow> length buf_temp = length region \<Longrightarrow>
    read_region region [int (length region)] (int (length region)) 0 buf_temp = Inr (Some region)"
  by (simp add: read_region.simps)

lemma chain_body_one_read:
  assumes "one_read (length buf_temp) cl" "\<And>n. n \<le> length (junk n)"
  shows "chain_body junk cl buf_temp post_body = Inr (NGX_OK, post_body @ concat (map content cl))"
  using assms(1)
proof (induction cl arbitrary: buf_temp post_body)
  case (Cons b cl)
  show ?case
  proof (cases b)
    case (In_file region nreads)
    let ?buf = "if length region > length buf_temp then take (length region) (junk (length region)) else buf_temp"
    have region: "0 < length region" "length buf_temp \<le> length region" "length region < 2 ^ 31" "nreads = [int (length region)]"
        "one_read (length region) cl"
      using Cons.prems In_file by auto
    then have "length ?buf = length region" using assms(2) [of "length region"] by (auto simp: min_def)
    then show ?thesis
      using Cons.IH [of region "post_body @ region"] region read_region_once [of region ?buf] In_file by (auto simp: Let_def)
  qed (use Cons in simp)
qed simp


section \<open>Properties\<close>



text \<open>A region smaller than one before it is followed by the rest of the larger one.\<close>

lemma post_body_stale:
  assumes "length small < length large" "small \<noteq> []" "length large < 2 ^ 31" "\<forall>n. n \<le> length (junk n)"
  shows "chain_body junk [In_file large [int (length large)], In_file small [int (length small)]] [] [] =
    Inr (NGX_OK, large @ small @ drop (length small) large)"
proof -
  have "read_region small [int (length small)] (int (length small)) 0 large = Inr (Some (small @ drop (length small) large))"
    using assms(1,2) by (simp add: read_region.simps)
  moreover have "length (take (length large) (junk (length large))) = length large" using assms(4) [rule_format, of "length large"] by simp
  ultimately show ?thesis
    using assms read_region_once [of large "take (length large) (junk (length large))"] by (auto simp: Let_def)
qed

end
