(* ===== verification/Upstream.thy ===== *)
theory Upstream
  imports Handler NgxPeers NgxPlugin
begin

text \<open>
  The upstream module (\<open>src/qkupstream\<close>): the callbacks through which nginx builds a request to a storage node, chooses
  the node, repeats the request and processes the reply.  A worker process has one handler, two static variables, the
  configuration its requests share and the table of upstreams; a request has its context, its buffers and the data of
  its balancer.  Strings that share their memory with a \<open>std::string\<close> of the request are copied when they are set; where
  the original changes afterwards, the code sets them again before it reads them.
\<close>


section \<open>State\<close>

definition QKUPSTREAM_OK :: int where [codes]: "QKUPSTREAM_OK = 0"
definition QKUPSTREAM_MOVED :: int where [codes]: "QKUPSTREAM_MOVED = 2"
definition QKUPSTREAM_ASK :: int where [codes]: "QKUPSTREAM_ASK = 3"
definition QKUPSTREAM_ASKING :: int where [codes]: "QKUPSTREAM_ASKING = 4"
definition QKUPSTREAM_ASKING_END :: int where [codes]: "QKUPSTREAM_ASKING_END = 5"

definition NGX_HTTP_UPSTREAM_INVALID_HEADER :: int where [codes]: "NGX_HTTP_UPSTREAM_INVALID_HEADER = 40"
definition NGX_HTTP_OK :: int where [codes]: "NGX_HTTP_OK = 200"

text \<open>A pointer to an object on the heap.\<close>

datatype 'a ptr = Null | Live 'a | Freed

text \<open>
  A sub-request that nginx runs: its path and arguments, whether it is done, the status of its upstream unless it has none,
  and the status of its headers.
\<close>

record ngx_subrequest_t =
  st_uri :: bytes
  st_args :: bytes
  st_done :: bool
  st_upstream_status :: "int option"
  st_headers_status :: int

record ngx_http_qkpack_ctx_t =
  cx_phase :: int
  cx_subrequests :: "ngx_subrequest_t list option"
  cx_is_subrequest :: bool
  cx_moved_ask :: int
  cx_has_processed :: bool
  cx_request_buffer :: bytes
  cx_response_buffer :: bytes
  cx_upstream_name :: bytes
  cx_upstream_ip :: bytes
  cx_tries :: int
  cx_waiting_more_body :: bool
  cx_plugin :: bool
  cx_data :: "qkpack_request_t ptr"

text \<open>A context as \<open>ngx_pcalloc\<close> makes it; \<open>plugin\<close> only tells whether the pointer is set.\<close>

definition zero_ctx :: ngx_http_qkpack_ctx_t where
  "zero_ctx = \<lparr>cx_phase = 0, cx_subrequests = None, cx_is_subrequest = False, cx_moved_ask = QKUPSTREAM_OK, cx_has_processed = False,
     cx_request_buffer = [], cx_response_buffer = [], cx_upstream_name = [], cx_upstream_ip = [], cx_tries = 0,
     cx_waiting_more_body = False, cx_plugin = False, cx_data = Null\<rparr>"

text \<open>What the modules read of the client's request.\<close>

record http_request =
  hr_uri :: bytes
  hr_main :: bool
  hr_post :: bool
  hr_args :: bytes
  hr_vars :: variables
  hr_x_real_ip :: "bytes option"
  hr_addr_text :: bytes
  hr_body :: "ngx_buf list"

record upstream_conf =
  cf_upstream_tries :: int
  cf_connect_timeout :: int
  cf_send_timeout :: int
  cf_read_timeout :: int

text \<open>The request as it is sent, the bytes received and the rest of the receive buffer.\<close>

record ngx_http_upstream_t =
  us_request_bufs :: bytes
  us_buffer :: bytes
  us_spare :: bytes
  us_out_bufs :: "bytes list"
  us_length :: int
  us_keepalive :: bool
  us_status_n :: int
  us_content_length_n :: int

record worker =
  wk_handler :: qkpack_handler
  wk_upstream_tries :: int
  wk_upstream_timeout :: int
  wk_conf :: upstream_conf
  wk_upstreams :: upstreams

text \<open>The environment of the modules: that of the handler, fresh memory, the names of the loaded plugins.\<close>

record ngx_env = handler_env +
  ne_junk :: "nat \<Rightarrow> bytes"
  ne_plugin :: "bytes \<Rightarrow> bool"

abbreviation henv :: "ngx_env \<Rightarrow> handler_env" where
  "henv env \<equiv> handler_env.truncate env"


section \<open>Creating the request\<close>

definition ngx_http_qkupstream_init ::
  "ngx_env \<Rightarrow> http_request \<Rightarrow> qkpack_request_t option \<Rightarrow> ngx_http_qkpack_ctx_t \<Rightarrow> (int \<times> ngx_http_qkpack_ctx_t) result" where
  "ngx_http_qkupstream_init env r parent ctx =
    (case ngx_http_get_plugin (hr_vars r) of
       None \<Rightarrow> Inr (NGX_ERROR, ctx)
     | Some name \<Rightarrow>
         let ctx = ctx\<lparr>cx_plugin := ne_plugin env name\<rparr> in
         if \<not> cx_plugin ctx then Inr (NGX_ERROR, ctx)
         else if hr_main r then
           let ctx = ctx\<lparr>cx_is_subrequest := False\<rparr> in
           bindR (ngx_http_get_post_body (ne_junk env) (hr_post r) (hr_body r) (hr_body r) new_request) (\<lambda>(rc, request).
             if rc \<noteq> NGX_OK then Inr (NGX_ERROR, ctx) else Inr (NGX_OK, ctx\<lparr>cx_data := Live request\<rparr>))
         else
           let ctx = ctx\<lparr>cx_is_subrequest := True\<rparr> in
           if parent = None then Inr (NGX_ERROR, ctx)
           else bindR (qkupstream_init_sub (hr_args r)) (\<lambda>request. case request of
             None \<Rightarrow> Inr (NGX_ERROR, ctx)
           | Some request \<Rightarrow> Inr (NGX_OK, ctx\<lparr>cx_data := Live request\<rparr>)))"

definition ngx_http_qkupstream_destroy :: "ngx_http_qkpack_ctx_t \<Rightarrow> (int \<times> ngx_http_qkpack_ctx_t) result" where
  "ngx_http_qkupstream_destroy ctx =
    (if \<not> cx_plugin ctx then Inr (NGX_ERROR, ctx)
     else case cx_data ctx of
       Null \<Rightarrow> Inr (NGX_ERROR, ctx)
     | Freed \<Rightarrow> Inl Double_free
     | Live request \<Rightarrow> Inr (NGX_OK, ctx\<lparr>cx_data := Freed\<rparr>))"

text \<open>The fields of the request that come from nginx.\<close>

definition fill_request ::
  "http_request \<Rightarrow> bytes \<Rightarrow> bytes \<Rightarrow> bytes \<Rightarrow> bool \<Rightarrow> int \<Rightarrow> int \<Rightarrow> qkpack_request_t \<Rightarrow> qkpack_request_t" where
  "fill_request r name ip server is_subrequest tries timeout request =
    (let request = (if hr_main r then request\<lparr>rq_host := server,
           rq_x_real_ip := (case hr_x_real_ip r of Some x \<Rightarrow> x | None \<Rightarrow> hr_addr_text r)\<rparr> else request) in
     request\<lparr>rq_request_uri := hr_uri r, rq_is_subrequest := is_subrequest, rq_cluster_name := name, rq_node_ip := ip,
       rq_tries := tries, rq_timeout := timeout\<rparr>)"

text \<open>The shared configuration takes the values of the request just created.\<close>

definition set_conf :: "qkpack_request_t \<Rightarrow> upstream_conf \<Rightarrow> upstream_conf" where
  "set_conf request conf =
    (let conf = (if rq_tries request > 0 then conf\<lparr>cf_upstream_tries := rq_tries request\<rparr> else conf);
         t = rq_timeout request in
     if t > 0 then conf\<lparr>cf_connect_timeout := t, cf_send_timeout := t, cf_read_timeout := t\<rparr> else conf)"

definition ngx_http_qkupstream_process_request ::
  "ngx_env \<Rightarrow> http_request \<Rightarrow> qkpack_request_t option \<Rightarrow> ngx_http_qkpack_ctx_t \<Rightarrow> worker \<Rightarrow>
    (int \<times> ngx_http_qkpack_ctx_t \<times> qkpack_request_t option \<times> worker) result" where
  "ngx_http_qkupstream_process_request env r parent ctx w =
    (case (hr_vars r ''backserver'', hr_vars r ''node_ip'', ngx_http_get_server (hr_vars r)) of
       (Some name, Some ip, Some server) \<Rightarrow>
         (if \<not> cx_plugin ctx then Inr (NGX_ERROR, ctx, parent, w)
          else case cx_data ctx of
            Null \<Rightarrow> Inr (NGX_ERROR, ctx, parent, w)
          | Freed \<Rightarrow> Inl Use_after_free
          | Live request \<Rightarrow>
              let tries = (if wk_upstream_tries w = 0 then cf_upstream_tries (wk_conf w) else wk_upstream_tries w);
                  timeout = (if wk_upstream_timeout w = 0 then cf_connect_timeout (wk_conf w) else wk_upstream_timeout w);
                  w = w\<lparr>wk_upstream_tries := tries, wk_upstream_timeout := timeout\<rparr>;
                  ctx = ctx\<lparr>cx_upstream_name := name, cx_upstream_ip := ip\<rparr>;
                  request = fill_request r name ip server (cx_is_subrequest ctx) tries timeout request in
              bindR (CreateRequest (henv env) parent request (wk_handler w)) (\<lambda>(rc, request, parent, h).
                let w = w\<lparr>wk_handler := h\<rparr>; ctx = ctx\<lparr>cx_data := Live request\<rparr> in
                if rc \<noteq> NGX_OK then Inr (NGX_ERROR, ctx, parent, w)
                else Inr (NGX_OK, ctx\<lparr>cx_request_buffer := kv_proto_str (rq_kvpair request), cx_upstream_ip := rq_node_ip request,
                    cx_upstream_name := rq_cluster_name request\<rparr>, parent, w\<lparr>wk_conf := set_conf request (wk_conf w)\<rparr>)))
     | _ \<Rightarrow> Inr (NGX_ERROR, ctx, parent, w))"

definition ngx_http_qkupstream_create_request ::
  "ngx_env \<Rightarrow> http_request \<Rightarrow> qkpack_request_t option \<Rightarrow> ngx_http_qkpack_ctx_t \<Rightarrow> ngx_http_upstream_t \<Rightarrow> worker \<Rightarrow>
    (int \<times> ngx_http_qkpack_ctx_t \<times> ngx_http_upstream_t \<times> qkpack_request_t option \<times> worker) result" where
  "ngx_http_qkupstream_create_request env r parent ctx u w =
    bindR (ngx_http_qkupstream_init env r parent ctx) (\<lambda>(rc, ctx).
      if rc \<noteq> NGX_OK then Inr (NGX_ERROR, ctx, u, parent, w)
      else bindR (ngx_http_qkupstream_process_request env r parent ctx w) (\<lambda>(rc, ctx, parent, w).
        if rc \<noteq> NGX_OK then
          bindR (ngx_http_qkupstream_destroy ctx) (\<lambda>(_, ctx). Inr (NGX_ERROR, ctx, u, parent, w))
        else Inr (NGX_OK, ctx, u\<lparr>us_request_bufs := cx_request_buffer ctx\<rparr>, parent, w)))"


section \<open>Repeating the request\<close>

definition ngx_http_qkupstream_process_reinit_request ::
  "ngx_env \<Rightarrow> qkpack_request_t option \<Rightarrow> ngx_http_qkpack_ctx_t \<Rightarrow> worker \<Rightarrow>
    (int \<times> ngx_http_qkpack_ctx_t \<times> qkpack_request_t option \<times> worker) result" where
  "ngx_http_qkupstream_process_reinit_request env parent ctx w =
    (if \<not> cx_plugin ctx then Inr (NGX_ERROR, ctx, parent, w)
     else case cx_data ctx of
       Null \<Rightarrow> Inr (NGX_ERROR, ctx, parent, w)
     | Freed \<Rightarrow> Inl Use_after_free
     | Live request \<Rightarrow>
         let request = upd_kv (\<lambda>kv. kv\<lparr>kv_moved_ask := cx_moved_ask ctx\<rparr>) (request\<lparr>rq_cluster_name := cx_upstream_name ctx,
               rq_node_ip := cx_upstream_ip ctx, rq_now_tries := cx_tries ctx mod 2 ^ 32\<rparr>) in
         bindR (ReinitRequest (henv env) parent request (wk_handler w)) (\<lambda>(rc, request, parent, h).
           let w = w\<lparr>wk_handler := h\<rparr>; ctx = ctx\<lparr>cx_data := Live request\<rparr> in
           if rc \<noteq> NGX_OK then Inr (NGX_ERROR, ctx, parent, w)
           else
             let ctx = ctx\<lparr>cx_upstream_ip := rq_node_ip request, cx_upstream_name := rq_cluster_name request,
                   cx_moved_ask := kv_moved_ask (rq_kvpair request)\<rparr>;
                 ctx = (if cx_moved_ask ctx = QKUPSTREAM_ASKING
                        then ctx\<lparr>cx_request_buffer := kv_proto_str (rq_kvpair request)\<rparr> else ctx) in
             Inr (rc, ctx, parent, w)))"

definition ngx_http_qkupstream_reinit_request ::
  "ngx_http_qkpack_ctx_t \<Rightarrow> ngx_http_upstream_t \<Rightarrow> int \<times> ngx_http_qkpack_ctx_t \<times> ngx_http_upstream_t" where
  "ngx_http_qkupstream_reinit_request ctx u =
    (if cx_request_buffer ctx = [] then (NGX_ERROR, ctx, u)
     else if cx_moved_ask ctx = QKUPSTREAM_OK then (NGX_OK, ctx, u)
     else if cx_moved_ask ctx = QKUPSTREAM_MOVED then (NGX_OK, ctx\<lparr>cx_moved_ask := QKUPSTREAM_OK\<rparr>, u)
     else if cx_moved_ask ctx = QKUPSTREAM_ASKING then
       (NGX_OK, ctx\<lparr>cx_moved_ask := QKUPSTREAM_ASKING_END\<rparr>, u\<lparr>us_request_bufs := cx_request_buffer ctx\<rparr>)
     else (NGX_ERROR, ctx, u))"


section \<open>The reply\<close>

definition ngx_http_qkupstream_process_response ::
  "ngx_env \<Rightarrow> qkpack_request_t option \<Rightarrow> ngx_http_qkpack_ctx_t \<Rightarrow> ngx_http_upstream_t \<Rightarrow> worker \<Rightarrow>
    (int \<times> ngx_http_qkpack_ctx_t \<times> ngx_http_upstream_t \<times> qkpack_request_t option \<times> worker) result" where
  "ngx_http_qkupstream_process_response env parent ctx u w =
    (if \<not> cx_plugin ctx then Inr (NGX_ERROR, ctx, u, parent, w)
     else case cx_data ctx of
       Null \<Rightarrow> Inr (NGX_ERROR, ctx, u, parent, w)
     | Freed \<Rightarrow> Inl Use_after_free
     | Live request \<Rightarrow>
         let request = upd_kv (\<lambda>kv. kv\<lparr>kv_moved_ask := cx_moved_ask ctx\<rparr>) (request\<lparr>rq_response_buffer := cx_response_buffer ctx\<rparr>) in
         bindR (ProcessBody (henv env) parent request (wk_handler w)) (\<lambda>(rc, request, parent, h).
           let w = w\<lparr>wk_handler := h\<rparr>; ctx = ctx\<lparr>cx_data := Live request\<rparr> in
           if rc = NGX_AGAIN then Inr (rc, ctx, u, parent, w)
           else if rc = NGX_HTTP_UPSTREAM_INVALID_HEADER then
             Inr (rc, ctx\<lparr>cx_upstream_ip := rq_node_ip request, cx_upstream_name := rq_cluster_name request,
               cx_moved_ask := kv_moved_ask (rq_kvpair request)\<rparr>, u, parent, w)
           else if rc \<noteq> NGX_OK then Inr (NGX_ERROR, ctx, u, parent, w)
           else
             let response = (if rq_response_buffer request = [] then ''OK'' else rq_response_buffer request);
                 ctx = ctx\<lparr>cx_data := Live (request\<lparr>rq_response_buffer := response\<rparr>), cx_response_buffer := response\<rparr> in
             if length response > length (us_buffer u) + length (us_spare u) then Inl Out_of_bounds
             else Inr (NGX_OK, ctx, u\<lparr>us_buffer := response, us_spare := drop (length response) (us_buffer u @ us_spare u),
               us_keepalive := True, us_status_n := NGX_HTTP_OK, us_content_length_n := int (length response)\<rparr>, parent, w)))"

text \<open>After an ASK the reply to ASKING comes first; it is skipped by its length.\<close>

definition ngx_http_qkupstream_process_header ::
  "ngx_env \<Rightarrow> qkpack_request_t option \<Rightarrow> ngx_http_qkpack_ctx_t \<Rightarrow> ngx_http_upstream_t \<Rightarrow> worker \<Rightarrow>
    (int \<times> ngx_http_qkpack_ctx_t \<times> ngx_http_upstream_t \<times> qkpack_request_t option \<times> worker) result" where
  "ngx_http_qkupstream_process_header env parent ctx u w =
    (if cx_moved_ask ctx = QKUPSTREAM_ASK \<or> cx_moved_ask ctx = QKUPSTREAM_ASKING
     then Inr (NGX_HTTP_UPSTREAM_INVALID_HEADER, ctx, u, parent, w)
     else
       let skip = (if cx_moved_ask ctx = QKUPSTREAM_ASKING_END then 5 else 0) in
       bindR (ngx_redis_proto_decode (drop skip (us_buffer u @ us_spare u)) (int (length (us_buffer u)) - int skip)) (\<lambda>rc.
         if rc \<noteq> NGX_OK then Inr (rc, ctx, u, parent, w)
         else if length (us_buffer u) < skip then Inl Length_error
         else bindR (ngx_http_qkupstream_process_response env parent (ctx\<lparr>cx_response_buffer := drop skip (us_buffer u)\<rparr>) u w)
           (\<lambda>(rc, ctx, u, parent, w). Inr (rc, ctx\<lparr>cx_has_processed := True\<rparr>, u, parent, w))))"

definition ngx_http_qkupstream_filter_init :: "ngx_http_upstream_t \<Rightarrow> int \<times> ngx_http_upstream_t" where
  "ngx_http_qkupstream_filter_init u = (NGX_OK, u\<lparr>us_length := us_content_length_n u\<rparr>)"

text \<open>\<open>bytes\<close> more bytes of the buffer become part of the output.\<close>

definition ngx_http_qkupstream_filter :: "nat \<Rightarrow> ngx_http_upstream_t \<Rightarrow> int \<times> ngx_http_upstream_t" where
  "ngx_http_qkupstream_filter n u =
    (let u = u\<lparr>us_out_bufs := us_out_bufs u @ [take n (us_spare u)], us_buffer := us_buffer u @ take n (us_spare u),
           us_spare := drop n (us_spare u), us_length := us_length u - int n\<rparr> in
     (NGX_OK, if us_length u = 0 then u\<lparr>us_keepalive := True\<rparr> else u))"


section \<open>Choosing the node\<close>

record peer_data =
  hp_key :: bytes
  hp_tries :: int
  hp_peers :: "ngx_http_upstream_rr_peer_t list"

text \<open>
  The random choice after a lost connection.  \<open>count\<close> is not initialised, and neither is \<open>rand_num\<close> when the loop ends before
  the first draw; \<open>tail\<close> is the memory after the name of a peer, which a comparison with a longer key reaches.
\<close>

function rand_node ::
  "(nat \<Rightarrow> nat) \<Rightarrow> (bytes \<Rightarrow> bytes) \<Rightarrow> bytes \<Rightarrow> ngx_http_upstream_rr_peer_t list \<Rightarrow> u64 \<Rightarrow> nat \<Rightarrow> nat \<Rightarrow> nat result" where
  "rand_node rand tail key peers count k rand_num =
    (let count = count + 1 in
     if count \<ge> 10 then Inr rand_num
     else if peers = [] then Inl Out_of_range
     else
       let rand_num = rand k mod length peers; name = pr_name (peers ! rand_num); mem = name @ tail name in
       if \<not> starts_with key mem \<and> \<not> starts_with ''0.0.0.0:80'' mem \<and> \<not> starts_with ''127.0.0.1:8010'' mem
       then Inr rand_num else rand_node rand tail key peers count (Suc k) rand_num)"
  by pat_completeness auto
termination
proof (relation "measure (\<lambda>(rand, tail, key, peers, count, k, rand_num). if count = - 1 then 11 else 10 - unat count)", goal_cases)
  case (2 rand tail key peers count k rand_num x)
  then have "unat x < 10" by (simp add: word_le_nat_alt)
  moreover have "unat (- 1 :: u64) = 2 ^ 64 - 1" by (simp add: unsigned_minus_1_eq_mask mask_eq_exp_minus_1)
  then have "x \<noteq> - 1" using \<open>unat x < 10\<close> by auto
  moreover have "unat x = Suc (unat count)" if "count \<noteq> - 1"
    using that 2(1) by (metis add.commute add_eq_0_iff unatSuc)
  ultimately show ?case using 2(1) by auto
qed simp

declare rand_node.simps [simp del]

text \<open>What the balancer reads of the outside: the generator and the two uninitialised variables.\<close>

record balance_env =
  be_rand :: "nat \<Rightarrow> nat"
  be_tail :: "bytes \<Rightarrow> bytes"
  be_count :: u64
  be_rand_num :: nat
  be_now :: int
  be_rr_peer :: "sockaddr option"
  be_resolve :: "bytes \<Rightarrow> ngx_addr_t list option"

definition ngx_http_upstream_update_nodes ::
  "ngx_env \<Rightarrow> balance_env \<Rightarrow> qkpack_request_t option \<Rightarrow> peer_data \<Rightarrow> ngx_http_qkpack_ctx_t \<Rightarrow> worker \<Rightarrow>
    (int \<times> peer_data \<times> ngx_http_qkpack_ctx_t \<times> qkpack_request_t option \<times> worker) result" where
  "ngx_http_upstream_update_nodes env be parent hp ctx w =
    (let reinit = (\<lambda>hp ctx. bindR (ngx_http_qkupstream_process_reinit_request env parent (ctx\<lparr>cx_tries := hp_tries hp\<rparr>) w)
           (\<lambda>(rc, ctx, parent, w).
             if rc \<noteq> NGX_OK then Inr (NGX_ERROR, hp, ctx, parent, w)
             else Inr (NGX_OK, hp\<lparr>hp_key := cx_upstream_ip ctx\<rparr>, ctx, parent, w))) in
     if cx_moved_ask ctx \<noteq> QKUPSTREAM_OK then reinit hp ctx
     else bindR (rand_node (be_rand be) (be_tail be) (hp_key hp) (hp_peers hp) (be_count be) 0 (be_rand_num be)) (\<lambda>n.
       if n < length (hp_peers hp) then
         let key = pr_name (hp_peers hp ! n) in reinit (hp\<lparr>hp_key := key\<rparr>) (ctx\<lparr>cx_upstream_ip := key\<rparr>)
       else Inl Out_of_bounds))"

text \<open>\<open>peer->checked\<close> of the peer that was found.\<close>

definition set_checked :: "int \<Rightarrow> bytes \<Rightarrow> bytes \<Rightarrow> upstreams \<Rightarrow> upstreams" where
  "set_checked now name ip ucs =
    (case ngx_http_qkupstream_find_upstream name ucs of
       None \<Rightarrow> ucs
     | Some i \<Rightarrow> (case uc_peers (ucs ! i) of
         None \<Rightarrow> ucs
       | Some ps \<Rightarrow>
           let j = scan (\<lambda>p. pr_name p = ip) (ps_peer ps) in
           if j < length (ps_peer ps) \<and> now - pr_checked (ps_peer ps ! j) > pr_fail_timeout (ps_peer ps ! j)
           then ucs[i := (ucs ! i)\<lparr>uc_peers := Some (ps\<lparr>ps_peer := (ps_peer ps)[j := (ps_peer ps ! j)\<lparr>pr_checked := now\<rparr>]\<rparr>)\<rparr>]
           else ucs))"

definition ngx_http_qkupstream_node_get_peer ::
  "ngx_env \<Rightarrow> balance_env \<Rightarrow> qkpack_request_t option \<Rightarrow> peer_data \<Rightarrow> ngx_http_qkpack_ctx_t \<Rightarrow> worker \<Rightarrow>
    (int \<times> sockaddr option \<times> peer_data \<times> ngx_http_qkpack_ctx_t \<times> qkpack_request_t option \<times> worker) result" where
  "ngx_http_qkupstream_node_get_peer env be parent hp ctx w =
    (if hp_tries hp > 50 then Inr (if be_rr_peer be = None then NGX_ERROR else NGX_OK, be_rr_peer be, hp, ctx, parent, w)
     else bindR (if hp_tries hp > 0 then ngx_http_upstream_update_nodes env be parent hp ctx w else Inr (NGX_OK, hp, ctx, parent, w))
       (\<lambda>(rc, hp, ctx, parent, w).
         if rc \<noteq> NGX_OK then Inr (NGX_ERROR, None, hp, ctx, parent, w)
         else
           let name = cx_upstream_name ctx; ip = cx_upstream_ip ctx in
           bindR (find_or_add_peer (be_resolve be) name ip (wk_upstreams w)) (\<lambda>(peer, ucs).
             case peer of
               None \<Rightarrow> Inr (NGX_ERROR, None, hp, ctx, parent, w\<lparr>wk_upstreams := ucs\<rparr>)
             | Some p \<Rightarrow> Inr (NGX_OK, Some (pr_sockaddr p), hp\<lparr>hp_tries := hp_tries hp + 1\<rparr>, ctx, parent,
                 w\<lparr>wk_upstreams := set_checked (be_now be) name ip ucs\<rparr>))))"


section \<open>Specification\<close>

text \<open>A reply counts as processed whatever came of it.\<close>

definition processed ::
  "(int \<times> ngx_http_qkpack_ctx_t \<times> ngx_http_upstream_t \<times> qkpack_request_t option \<times> worker) result \<Rightarrow>
   (int \<times> ngx_http_qkpack_ctx_t \<times> ngx_http_upstream_t \<times> qkpack_request_t option \<times> worker) result" where
  "processed m = bindR m (\<lambda>(rc, ctx, u, parent, w). Inr (rc, ctx\<lparr>cx_has_processed := True\<rparr>, u, parent, w))"


text \<open>A worker and a request that has been sent to the node \<open>10.0.0.1:80\<close>.\<close>

definition sample_ngx_env :: ngx_env where
  "sample_ngx_env = handler_env.extend sample_handler_env \<lparr>ne_junk = (\<lambda>n. replicate n NUL), ne_plugin = (\<lambda>name. True)\<rparr>"

definition sample_worker :: worker where
  "sample_worker = \<lparr>wk_handler = sample_handler, wk_upstream_tries = 0, wk_upstream_timeout = 0,
     wk_conf = \<lparr>cf_upstream_tries = 3, cf_connect_timeout = 100, cf_send_timeout = 100, cf_read_timeout = 100\<rparr>, wk_upstreams = [sample_conf]\<rparr>"

definition sample_sent :: qkpack_request_t where
  "sample_sent = upd_kv (\<lambda>kv. kv\<lparr>kv_proto_str := ''x''\<rparr>) ((sample_request REDIS_GET ''k'' [])\<lparr>rq_tries := 3, rq_cluster_name := ''BJ02''\<rparr>)"

definition sample_ctx :: ngx_http_qkpack_ctx_t where
  "sample_ctx = zero_ctx\<lparr>cx_plugin := True, cx_data := Live sample_sent, cx_request_buffer := ''x'', cx_upstream_name := ''BJ02'', cx_upstream_ip := ''10.0.0.1:80''\<rparr>"

definition sample_upstream :: "bytes \<Rightarrow> ngx_http_upstream_t" where
  "sample_upstream received = \<lparr>us_request_bufs = ''x'', us_buffer = received, us_spare = replicate 100 NUL, us_out_bufs = [], us_length = 0,
     us_keepalive = False, us_status_n = 0, us_content_length_n = - 1\<rparr>"

definition sample_balance :: balance_env where
  "sample_balance = \<lparr>be_rand = (\<lambda>k. k), be_tail = (\<lambda>name. []), be_count = 0, be_rand_num = 0, be_now = 0, be_rr_peer = None, be_resolve = (\<lambda>host. None)\<rparr>"

text \<open>A worker that has the record for \<open>qkd://BJ02/lj\<close> and one slot of its cluster; the environment reads the body \<open>body\<close> as a given document.\<close>

definition open_acl :: qkpack_acl_t where
  "open_acl = sample_acl\<lparr>acl_quotation := (acl_quotation sample_acl)\<lparr>quo_vector_limits_length := [], quo_vector_timeouts := []\<rparr>\<rparr>"

definition sample_doc_env :: "yajl_val \<Rightarrow> ngx_env" where
  "sample_doc_env doc = sample_ngx_env\<lparr>he_yajl := (sample_yajl ''body'' doc)\<lparr>yj_gen_buf := (\<lambda>b calls. Some ''doc'')\<rparr>\<rparr>"

definition open_worker :: worker where
  "open_worker = sample_worker\<lparr>wk_handler := sample_handler\<lparr>qh_acl := sample_acl_state\<lparr>pa_map_acl := [(''qkd://BJ02/lj&&key'', open_acl)]\<rparr>,
     qh_cluster := sample_cluster\<lparr>rc_map_cluster := [(''BJ02'', [(int (key_hash_slot ''ljk''), ''10.0.0.1:80'')])]\<rparr>\<rparr>\<rparr>"

definition sample_http :: "bytes \<Rightarrow> http_request" where
  "sample_http uri = \<lparr>hr_uri = uri, hr_main = True, hr_post = True, hr_args = [], hr_vars = (\<lambda>name. Some ''v''), hr_x_real_ip = Some ''10.0.0.7'',
     hr_addr_text = [], hr_body = [In_memory ''body'']\<rparr>"


section \<open>Lemmas\<close>

lemma process_header_reply:
  assumes "cx_moved_ask ctx \<notin> {QKUPSTREAM_ASK, QKUPSTREAM_ASKING}"
    and "us_buffer u = pre @ reply" "length pre = (if cx_moved_ask ctx = QKUPSTREAM_ASKING_END then 5 else 0)"
    and "ngx_redis_proto_decode (reply @ us_spare u) (int (length reply)) = Inr NGX_OK"
  shows "ngx_http_qkupstream_process_header env parent ctx u w =
    processed (ngx_http_qkupstream_process_response env parent (ctx\<lparr>cx_response_buffer := reply\<rparr>) u w)"
  using assms by (simp add: ngx_http_qkupstream_process_header_def processed_def Let_def split: if_splits)

lemma process_reinit_eq:
  assumes "cx_plugin ctx" and "cx_data ctx = Live request"
    and "upd_kv (\<lambda>kv. kv\<lparr>kv_moved_ask := cx_moved_ask ctx\<rparr>) (request\<lparr>rq_cluster_name := cx_upstream_name ctx,
      rq_node_ip := cx_upstream_ip ctx, rq_now_tries := cx_tries ctx mod 2 ^ 32\<rparr>) = request1"
    and "ReinitRequest (henv env) parent request1 (wk_handler w) = Inr (NGX_OK, request2, parent', h)"
  shows "ngx_http_qkupstream_process_reinit_request env parent ctx w = Inr (NGX_OK,
    ctx\<lparr>cx_data := Live request2, cx_upstream_ip := rq_node_ip request2, cx_upstream_name := rq_cluster_name request2,
      cx_moved_ask := kv_moved_ask (rq_kvpair request2), cx_request_buffer :=
        (if kv_moved_ask (rq_kvpair request2) = QKUPSTREAM_ASKING then kv_proto_str (rq_kvpair request2) else cx_request_buffer ctx)\<rparr>,
    parent', w\<lparr>wk_handler := h\<rparr>)"
  unfolding ngx_http_qkupstream_process_reinit_request_def assms(2) ptr.case Let_def assms(3) assms(4) using assms(1) by simp

lemma update_nodes_moved:
  assumes "cx_moved_ask ctx \<noteq> QKUPSTREAM_OK"
    and "ngx_http_qkupstream_process_reinit_request env parent (ctx\<lparr>cx_tries := hp_tries hp\<rparr>) w = Inr (NGX_OK, ctx', parent', w')"
  shows "ngx_http_upstream_update_nodes env be parent hp ctx w = Inr (NGX_OK, hp\<lparr>hp_key := cx_upstream_ip ctx'\<rparr>, ctx', parent', w')"
  using assms by (simp add: ngx_http_upstream_update_nodes_def)

lemma decode_error_line: "ngx_redis_proto_decode (CHR ''-'' # s) n = Inr NGX_OK"
  by (simp add: ngx_redis_proto_decode_def)

lemma moved_codes: "REDIS_MOVED = QKUPSTREAM_MOVED" "REDIS_ASK = QKUPSTREAM_ASK" "REDIS_ASKING = QKUPSTREAM_ASKING"
  "REDIS_ASKING_END = QKUPSTREAM_ASKING_END" "QKPACK_OK = NGX_OK" "QKPACK_UPSTREAM_INVALID_HEADER = NGX_HTTP_UPSTREAM_INVALID_HEADER"
  by (simp_all add: codes)

lemma moved_distinct [simp]:
  "QKUPSTREAM_OK \<noteq> QKUPSTREAM_MOVED" "QKUPSTREAM_OK \<noteq> QKUPSTREAM_ASK" "QKUPSTREAM_OK \<noteq> QKUPSTREAM_ASKING" "QKUPSTREAM_OK \<noteq> QKUPSTREAM_ASKING_END"
  "QKUPSTREAM_MOVED \<noteq> QKUPSTREAM_ASK" "QKUPSTREAM_MOVED \<noteq> QKUPSTREAM_ASKING" "QKUPSTREAM_MOVED \<noteq> QKUPSTREAM_ASKING_END"
  "QKUPSTREAM_ASK \<noteq> QKUPSTREAM_ASKING" "QKUPSTREAM_ASK \<noteq> QKUPSTREAM_ASKING_END" "QKUPSTREAM_ASKING \<noteq> QKUPSTREAM_ASKING_END"
  "NGX_HTTP_UPSTREAM_INVALID_HEADER \<noteq> NGX_AGAIN" "NGX_HTTP_UPSTREAM_INVALID_HEADER \<noteq> NGX_OK" "NGX_OK \<noteq> NGX_AGAIN"
  by (simp_all add: codes)

lemmas moved_distinct_sym [simp] = moved_distinct [symmetric]


section \<open>Properties\<close>

text \<open>C4: A redirected request reaches the node the storage names.  After MOVED the bytes sent there are those of the original
  command, after ASK they are ASKING and then the command; and the reply that is processed is the one to the command, the
  answer to ASKING being skipped.\<close>

theorem redirect_exchange:
  assumes "(kind, status) \<in> {(''MOVED'', REDIS_MOVED), (''ASK'', REDIS_ASK)}"
    and "cx_data ctx = Live request" "cx_moved_ask ctx = QKUPSTREAM_OK"
    and "rq_code request = QKPACK_RESPONSE_CODE_OK" "\<not> CheckSubRequest request"
    and "us_buffer u = moved_text (CHR ''-'' # kind) slot host port"
    and "host \<noteq> []" "\<forall>c\<in>set host. c \<notin> set [CHR '' '', CHR '':'', CR]" "positive_number host"
    and "slot < 2 ^ 31" "0 < port" "port < 2 ^ 31" "hp_tries hp mod 2 ^ 32 \<noteq> (rq_tries request - 1) mod 2 ^ 32"
    and "cx_request_buffer ctx = kv_proto_str (rq_kvpair request)" "us_request_bufs u = kv_proto_str (rq_kvpair request)"
    and "kv_proto_str (rq_kvpair request) \<noteq> []" "cx_plugin ctx"
  shows "\<exists>ctx1 w1 hp' ctx2 ctx3 u'.
    ngx_http_qkupstream_process_header env parent ctx u w = Inr (NGX_HTTP_UPSTREAM_INVALID_HEADER, ctx1, u, parent, w1) \<and>
    ngx_http_upstream_update_nodes env be parent hp ctx1 w1 = Inr (NGX_OK, hp', ctx2, parent, w1) \<and>
    cx_upstream_ip ctx2 = host @ '':'' @ dec_nat port \<and> cx_upstream_name ctx2 = rq_cluster_name request \<and>
    ngx_http_qkupstream_reinit_request ctx2 u = (NGX_OK, ctx3, u') \<and>
    us_request_bufs u' = (if status = REDIS_ASK then ASKING_cmd else []) @ kv_proto_str (rq_kvpair request) \<and>
    (\<forall>r spare. reply_ok r \<and> length (resp_text r) < 2 ^ 31 \<longrightarrow>
      (let v = u'\<lparr>us_buffer := (if status = REDIS_ASK then ''+OK'' @ CRLF else []) @ resp_text r, us_spare := spare\<rparr> in
       ngx_http_qkupstream_process_header env parent ctx3 v w1 =
         processed (ngx_http_qkupstream_process_response env parent (ctx3\<lparr>cx_response_buffer := resp_text r\<rparr>) v w1)))"
proof -
  let ?ip = "host @ '':'' @ dec_nat port"
  let ?req0 = "upd_kv (\<lambda>kv. kv\<lparr>kv_moved_ask := QKUPSTREAM_OK\<rparr>) (request\<lparr>rq_response_buffer := us_buffer u\<rparr>)"
  let ?w1 = "w\<lparr>wk_handler := (wk_handler w)\<lparr>qh_cluster := moved_cluster status (rq_cluster_name request) (int slot) ?ip (qh_cluster (wk_handler w))\<rparr>\<rparr>"
  let ?req1 = "redirected status ?ip ?req0"
  let ?ctx1 = "ctx\<lparr>cx_response_buffer := us_buffer u, cx_data := Live ?req1, cx_upstream_ip := ?ip, cx_upstream_name := rq_cluster_name request,
    cx_moved_ask := status, cx_has_processed := True\<rparr>"
  have status: "status = QKUPSTREAM_MOVED \<or> status = QKUPSTREAM_ASK" using assms(1) by (auto simp: moved_codes)
  have "\<not> CheckSubRequest ?req0" using assms(5) by (simp add: CheckSubRequest_def)
  from ProcessBody_redirect [OF assms(1) _ this _ _ assms(7-12), of "henv env" parent "wk_handler w"]
  have "ProcessBody (henv env) parent ?req0 (wk_handler w) = Inr (NGX_HTTP_UPSTREAM_INVALID_HEADER, ?req1, parent, wk_handler ?w1)"
    using assms(4,6) by (simp add: moved_codes)
  then have "ngx_http_qkupstream_process_header env parent ctx u w = Inr (NGX_HTTP_UPSTREAM_INVALID_HEADER, ?ctx1, u, parent, ?w1)"
    using process_header_reply [of ctx u "[]" "us_buffer u" env parent w] assms(2,3,17) decode_error_line
    by (simp add: assms(6) moved_text_def processed_def ngx_http_qkupstream_process_response_def redirected_def)
  note header = this
  let ?req2 = "?req1\<lparr>rq_now_tries := hp_tries hp mod 2 ^ 32\<rparr>"
  let ?req3 = "if status = REDIS_ASK then upd_kv (\<lambda>kv. kv\<lparr>kv_proto_str := ASKING_cmd @ kv_proto_str kv, kv_moved_ask := REDIS_ASKING\<rparr>) ?req2 else ?req2"
  let ?ctx2 = "?ctx1\<lparr>cx_tries := hp_tries hp, cx_data := Live ?req3, cx_moved_ask := (if status = REDIS_ASK then QKUPSTREAM_ASKING else QKUPSTREAM_MOVED),
    cx_request_buffer := (if status = REDIS_ASK then ASKING_cmd else []) @ kv_proto_str (rq_kvpair request)\<rparr>"
  have "ReinitRequest (henv env) parent ?req2 h = Inr (NGX_OK, ?req3, parent, h)" for h
    using assms(13) by (simp add: ReinitRequest_def redirected_def moved_codes)
  moreover have "upd_kv (\<lambda>kv. kv\<lparr>kv_moved_ask := status\<rparr>) (?req1\<lparr>rq_cluster_name := rq_cluster_name request, rq_node_ip := ?ip,
      rq_now_tries := hp_tries hp mod 2 ^ 32\<rparr>) = ?req2"
    by (simp add: redirected_def)
  ultimately have "ngx_http_qkupstream_process_reinit_request env parent (?ctx1\<lparr>cx_tries := hp_tries hp\<rparr>) ?w1 = Inr (NGX_OK, ?ctx2, parent, ?w1)"
    by (subst process_reinit_eq [where request = ?req1 and ?request1.0 = ?req2 and ?request2.0 = ?req3 and parent' = parent and h = "wk_handler ?w1"])
      (use status assms(14,17) in \<open>auto simp: redirected_def moved_codes\<close>)
  note nodes = update_nodes_moved [OF _ this, of be]
  have moved: "cx_moved_ask ?ctx1 \<noteq> QKUPSTREAM_OK" using status by auto
  let ?ctx3 = "?ctx2\<lparr>cx_moved_ask := (if status = REDIS_ASK then QKUPSTREAM_ASKING_END else QKUPSTREAM_OK)\<rparr>"
  let ?u' = "u\<lparr>us_request_bufs := (if status = REDIS_ASK then ASKING_cmd else []) @ kv_proto_str (rq_kvpair request)\<rparr>"
  have "ngx_http_qkupstream_reinit_request ?ctx2 u = (NGX_OK, ?ctx3, ?u')"
    using status assms(15,16) by (auto simp: ngx_http_qkupstream_reinit_request_def moved_codes)
  note reinit = this
  have "ngx_http_qkupstream_process_header env parent ?ctx3 v ?w1 =
      processed (ngx_http_qkupstream_process_response env parent (?ctx3\<lparr>cx_response_buffer := resp_text r\<rparr>) v ?w1)"
    if "reply_ok r" "length (resp_text r) < 2 ^ 31"
      "v = ?u'\<lparr>us_buffer := (if status = REDIS_ASK then ''+OK'' @ CRLF else []) @ resp_text r, us_spare := spare\<rparr>" for r spare v
    by (rule process_header_reply [where pre = "if status = REDIS_ASK then ''+OK'' @ CRLF else []"])
      (use that decode_complete [OF that(1,2), of spare] status in \<open>auto simp: moved_codes\<close>)
  then show ?thesis using header nodes [OF moved] reinit by (intro exI conjI) (assumption | simp add: Let_def)+
qed

theorem redirect_exchange_witness:
  "\<exists>ctx1 w1 hp' ctx2 ctx3 u'.
    ngx_http_qkupstream_process_header sample_ngx_env None sample_ctx (sample_upstream (moved_text ''-ASK'' 7 ''10.0.0.2'' 80)) sample_worker =
      Inr (NGX_HTTP_UPSTREAM_INVALID_HEADER, ctx1, sample_upstream (moved_text ''-ASK'' 7 ''10.0.0.2'' 80), None, w1) \<and>
    ngx_http_upstream_update_nodes sample_ngx_env sample_balance None \<lparr>hp_key = [], hp_tries = 1, hp_peers = []\<rparr> ctx1 w1 = Inr (NGX_OK, hp', ctx2, None, w1) \<and>
    ngx_http_qkupstream_reinit_request ctx2 (sample_upstream (moved_text ''-ASK'' 7 ''10.0.0.2'' 80)) = (NGX_OK, ctx3, u') \<and>
    us_request_bufs u' = ASKING_cmd @ ''x''"
proof -
  have "positive_number ''10.0.0.2''"
    by (simp add: positive_number_def StrToInt32_def strtol_def strtol_raw_def is_space_def is_digit_def digit_val_def Let_def)
  moreover have "cx_plugin sample_ctx" "cx_data sample_ctx = Live sample_sent" "cx_moved_ask sample_ctx = QKUPSTREAM_OK" "cx_request_buffer sample_ctx = ''x''"
    by (simp_all add: sample_ctx_def zero_ctx_def)
  moreover have "rq_code sample_sent = QKPACK_RESPONSE_CODE_OK" "\<not> CheckSubRequest sample_sent" "kv_proto_str (rq_kvpair sample_sent) = ''x''" "rq_tries sample_sent = 3"
    by (simp_all add: sample_sent_def sample_request_def new_request_def new_kvpair_def CheckSubRequest_def commands codes)
  ultimately show ?thesis
    using redirect_exchange [of "''ASK''" REDIS_ASK sample_ctx sample_sent "sample_upstream (moved_text ''-ASK'' 7 ''10.0.0.2'' 80)" 7 "''10.0.0.2''" 80
        "\<lparr>hp_key = [], hp_tries = 1, hp_peers = []\<rparr>" sample_ngx_env None sample_worker sample_balance]
    by (fastforce simp: CR_def sample_upstream_def)
qed

text \<open>C14: On the last attempt the request is replaced by a ping to the backup node, but the bytes that are sent to the backup node
  are still those of the original command.\<close>

theorem backup_gets_command:
  assumes "cx_data ctx = Live request" "rq_code request = QKPACK_RESPONSE_CODE_OK" "\<not> CheckSubRequest request"
    and "cx_tries ctx mod 2 ^ 32 = (rq_tries request - 1) mod 2 ^ 32" "cx_request_buffer ctx \<noteq> []" "cx_plugin ctx"
  shows "\<exists>ctx' request' parent'. ngx_http_qkupstream_process_reinit_request env parent ctx w = Inr (NGX_OK, ctx', parent', w) \<and>
    cx_upstream_ip ctx' = GetBackUpNode (qh_cluster (wk_handler w)) \<and>
    cx_data ctx' = Live request' \<and> rq_code request' = QKPACK_RESPONSE_CODE_5XX_TIMEOUT \<and> kv_proto_str (rq_kvpair request') = resp_request [''ping''] \<and>
    ngx_http_qkupstream_reinit_request ctx' u = (NGX_OK, ctx', u)"
proof -
  let ?req1 = "upd_kv (\<lambda>kv. kv\<lparr>kv_moved_ask := cx_moved_ask ctx\<rparr>) (request\<lparr>rq_cluster_name := cx_upstream_name ctx,
    rq_node_ip := cx_upstream_ip ctx, rq_now_tries := cx_tries ctx mod 2 ^ 32\<rparr>)"
  let ?err = "with_code QKPACK_RESPONSE_CODE_5XX_TIMEOUT (upd_kv (\<lambda>kv. kv\<lparr>kv_moved_ask := QKPACK_OK\<rparr>) ?req1)"
  let ?req2 = "(upd_kv (\<lambda>kv. kv\<lparr>kv_proto_str := resp_request [''ping'']\<rparr>) ?err)\<lparr>rq_node_ip := GetBackUpNode (qh_cluster (wk_handler w))\<rparr>"
  have "ReinitRequest (henv env) parent ?req1 (wk_handler w) = CreateRequestError (henv env) parent ?err (wk_handler w)"
    using assms(4) by (simp add: ReinitRequest_def)
  also have "\<dots> = Inr (NGX_OK, ?req2, copy_error ?err parent, wk_handler w)"
    using assms(3) by (subst CreateRequestError_eq) (simp_all add: CheckSubRequest_def moved_codes QKPACK_RESPONSE_CODE_5XX_TIMEOUT_def QKPACK_RESPONSE_CODE_OK_def)
  finally have "ngx_http_qkupstream_process_reinit_request env parent ctx w = Inr (NGX_OK, ctx\<lparr>cx_data := Live ?req2,
      cx_upstream_ip := GetBackUpNode (qh_cluster (wk_handler w)), cx_upstream_name := cx_upstream_name ctx, cx_moved_ask := QKUPSTREAM_OK,
      cx_request_buffer := cx_request_buffer ctx\<rparr>, copy_error ?err parent, w)"
    by (subst process_reinit_eq [OF assms(6,1) refl, where ?request2.0 = ?req2]) (auto simp: codes)
  then show ?thesis using assms(5) by (auto simp: ngx_http_qkupstream_reinit_request_def)
qed

theorem backup_gets_command_witness:
  "\<exists>ctx' request' parent'. ngx_http_qkupstream_process_reinit_request sample_ngx_env None (sample_ctx\<lparr>cx_tries := 2\<rparr>) sample_worker = Inr (NGX_OK, ctx', parent', sample_worker) \<and>
    cx_upstream_ip ctx' = GetBackUpNode (qh_cluster sample_handler) \<and> cx_data ctx' = Live request' \<and> kv_proto_str (rq_kvpair request') = resp_request [''ping''] \<and>
    ngx_http_qkupstream_reinit_request ctx' (sample_upstream []) = (NGX_OK, ctx', sample_upstream [])"
proof -
  have "rq_code sample_sent = QKPACK_RESPONSE_CODE_OK" "\<not> CheckSubRequest sample_sent" "rq_tries sample_sent = 3"
    by (simp_all add: sample_sent_def sample_request_def new_request_def new_kvpair_def CheckSubRequest_def commands codes)
  then show ?thesis
    using backup_gets_command [of "sample_ctx\<lparr>cx_tries := 2\<rparr>" sample_sent sample_ngx_env None sample_worker "sample_upstream []"]
    by (fastforce simp: sample_ctx_def sample_worker_def)
qed

text \<open>The number of attempts nginx grants a request in flight is that of whichever request the worker created last: creating
  another one overwrites it, while the first keeps its own number for deciding which attempt is the last.\<close>

theorem attempts_of_last_request:
  assumes "ngx_http_qkupstream_process_request env1 r1 parent1 ctx1 w = Inr (NGX_OK, ctx1', parent1', w1)" "cx_data ctx1' = Live request1"
    and "ngx_http_qkupstream_process_request env2 r2 parent2 ctx2 w1 = Inr (NGX_OK, ctx2', parent2', w2)" "cx_data ctx2' = Live request2"
    and "0 < rq_tries request1" "0 < rq_tries request2" "rq_tries request1 \<noteq> rq_tries request2"
  shows "cf_upstream_tries (wk_conf w1) = rq_tries request1 \<and> cf_upstream_tries (wk_conf w2) = rq_tries request2 \<and>
    cf_upstream_tries (wk_conf w2) \<noteq> rq_tries request1"
proof -
  have "cf_upstream_tries (wk_conf w') = rq_tries request'"
    if "ngx_http_qkupstream_process_request env r parent ctx w = Inr (NGX_OK, ctx', parent', w')" "cx_data ctx' = Live request'" "0 < rq_tries request'"
    for env r parent ctx w ctx' parent' w' request'
    using that by (auto simp: ngx_http_qkupstream_process_request_def bindR_Inr_iff set_conf_def Let_def codes split: option.splits ptr.splits if_splits)
  then show ?thesis using assms by metis
qed

end
