(* ===== verification/QkSubrequest.thy ===== *)
theory QkSubrequest
  imports Upstream HandlerInv
begin

text \<open>
  The sub-request module (\<open>src/qksubrequest\<close>), which answers the commands on several keys: a content handler that nginx
  calls again and again, with a phase in its context.  The handler reads the body, hands it to the plugin, starts the
  sub-requests the plugin asks for, is called when they are done, and writes the answer.  The sub-requests themselves run in
  the upstream module, with the request of this module as their parent.

  What nginx does around the handler is represented by its outcome: whether the body is complete, whether a sub-request can be
  started, what the output filters answer.  The reference count of the main request is part of the state, because the handler
  and nginx share its bookkeeping; it is a number of unbounded size, since nginx starts at most 16384 sub-requests at a time and
  the count has 16 bits.  Allocation does not fail.
\<close>


section \<open>State\<close>

definition QKSUBREQUEST_STATE_INIT :: int where [codes]: "QKSUBREQUEST_STATE_INIT = 0"
definition QKSUBREQUEST_STATE_PROCESS :: int where [codes]: "QKSUBREQUEST_STATE_PROCESS = 1"
definition QKSUBREQUEST_STATE_WAIT_SUBREQUEST :: int where [codes]: "QKSUBREQUEST_STATE_WAIT_SUBREQUEST = 2"
definition QKSUBREQUEST_STATE_POST_SUBREQUEST :: int where [codes]: "QKSUBREQUEST_STATE_POST_SUBREQUEST = 3"
definition QKSUBREQUEST_STATE_FINAL :: int where [codes]: "QKSUBREQUEST_STATE_FINAL = 4"
definition QKSUBREQUEST_STATE_DONE :: int where [codes]: "QKSUBREQUEST_STATE_DONE = 5"
definition QKSUBREQUEST_STATE_ERROR :: int where [codes]: "QKSUBREQUEST_STATE_ERROR = 6"

definition NGX_DONE :: int where [codes]: "NGX_DONE = - 4"
definition NGX_HTTP_SPECIAL_RESPONSE :: int where [codes]: "NGX_HTTP_SPECIAL_RESPONSE = 300"

text \<open>
  The main request: the context of the module, the reference count, the number of references that belong to sub-requests,
  whether nginx has finalised the request, the sub-requests started so far with path and arguments, the bodies sent.
\<close>

record main_request =
  mr_ctx :: "ngx_http_qkpack_ctx_t option"
  mr_count :: int
  mr_refs :: int
  mr_closed :: bool
  mr_started :: "(bytes \<times> bytes) list"
  mr_sent :: "bytes list"
  mr_worker :: worker

abbreviation upd_ctx :: "(ngx_http_qkpack_ctx_t \<Rightarrow> ngx_http_qkpack_ctx_t) \<Rightarrow> main_request \<Rightarrow> main_request" where
  "upd_ctx f m \<equiv> m\<lparr>mr_ctx := map_option f (mr_ctx m)\<rparr>"

text \<open>
  The outcomes of the functions of nginx in one call: the result of reading the body, whether the sub-request with a given
  number can be started, the results of the two output functions and whether only headers are wanted.
\<close>

record outcomes =
  oc_read :: int
  oc_start :: "nat \<Rightarrow> bool"
  oc_header :: int
  oc_header_only :: bool
  oc_filter :: int

text \<open>\<open>ngx_http_finalize_request(r, NGX_DONE)\<close>: one reference less, or the end of the request with the last one.\<close>

definition finalize_done :: "main_request \<Rightarrow> main_request" where
  "finalize_done m = (if mr_count m \<noteq> 1 then m\<lparr>mr_count := mr_count m - 1\<rparr> else m\<lparr>mr_closed := True\<rparr>)"


section \<open>Reading the body\<close>

text \<open>What the callback asks for when it is done.\<close>

datatype followup = Return | Run_phases | Content_handler

definition ngx_subrequest_post_body :: "main_request \<Rightarrow> followup \<times> main_request" where
  "ngx_subrequest_post_body m =
    (case mr_ctx m of
       None \<Rightarrow> (Return, m)
     | Some ctx \<Rightarrow>
         if cx_waiting_more_body ctx then (Run_phases, upd_ctx (\<lambda>ctx. ctx\<lparr>cx_waiting_more_body := False\<rparr>) m)
         else if cx_phase ctx = QKSUBREQUEST_STATE_INIT then (Return, finalize_done m)
         else (Content_handler, upd_ctx (\<lambda>ctx. ctx\<lparr>cx_phase := QKSUBREQUEST_STATE_PROCESS\<rparr>) m))"

text \<open>
  Reading the body takes a reference.  A complete body is announced by the callback before the function returns; a callback
  that started the handler again from here would be a nested call, which is a fault of the model.
\<close>

definition read_client_request_body :: "outcomes \<Rightarrow> main_request \<Rightarrow> (int \<times> main_request) result" where
  "read_client_request_body oc m =
    (if oc_read oc \<ge> NGX_HTTP_SPECIAL_RESPONSE then Inr (oc_read oc, m)
     else
       let m = m\<lparr>mr_count := mr_count m + 1\<rparr> in
       if oc_read oc = NGX_AGAIN then Inr (NGX_AGAIN, m)
       else let (next, m) = ngx_subrequest_post_body m in if next = Return then Inr (NGX_OK, m) else Inl Diverges)"

definition ngx_http_qksubrequest_init :: "http_request \<Rightarrow> outcomes \<Rightarrow> main_request \<Rightarrow> (int \<times> main_request) result" where
  "ngx_http_qksubrequest_init r oc m =
    (if hr_post r then read_client_request_body oc m else Inr (NGX_ERROR, m))"

definition ngx_http_qksubrequest_init_plugin :: "ngx_env \<Rightarrow> http_request \<Rightarrow> main_request \<Rightarrow> int \<times> main_request" where
  "ngx_http_qksubrequest_init_plugin env r m =
    (case mr_ctx m of
       None \<Rightarrow> (NGX_ERROR, m)
     | Some ctx \<Rightarrow>
         (case ngx_http_get_plugin (hr_vars r) of
            None \<Rightarrow> (NGX_ERROR, m)
          | Some name \<Rightarrow>
              let ctx = ctx\<lparr>cx_plugin := ne_plugin env name\<rparr>; m = m\<lparr>mr_ctx := Some ctx\<rparr> in
              if \<not> cx_plugin ctx then (NGX_ERROR, m)
              else if cx_data ctx \<noteq> Null then (NGX_ERROR, m)
              else (NGX_OK, m\<lparr>mr_ctx := Some (ctx\<lparr>cx_data := Live new_request\<rparr>)\<rparr>)))"

text \<open>The pointer in the context is not reset.\<close>

definition ngx_http_qksubrequest_destroy :: "main_request \<Rightarrow> (int \<times> main_request) result" where
  "ngx_http_qksubrequest_destroy m =
    (case mr_ctx m of
       None \<Rightarrow> Inr (NGX_ERROR, m)
     | Some ctx \<Rightarrow>
         if \<not> cx_plugin ctx then Inr (NGX_ERROR, m)
         else (case cx_data ctx of
            Null \<Rightarrow> Inr (NGX_ERROR, m)
          | Freed \<Rightarrow> Inl Double_free
          | Live request \<Rightarrow> Inr (NGX_OK, m\<lparr>mr_ctx := Some (ctx\<lparr>cx_data := Freed\<rparr>)\<rparr>)))"


section \<open>Starting sub-requests\<close>

text \<open>The array of started sub-requests; an element is added before nginx is asked.\<close>

fun start_loop :: "(nat \<Rightarrow> bool) \<Rightarrow> nat \<Rightarrow> subrequest_t list \<Rightarrow> bool \<times> ngx_subrequest_t list \<times> (bytes \<times> bytes) list" where
  "start_loop start i [] = (True, [], [])"
| "start_loop start i (ups # subs) =
    (let st = \<lparr>st_uri = sr_request_uri ups, st_args = sr_args ups, st_done = False, st_upstream_status = None, st_headers_status = 0\<rparr> in
     if start i then
       let (ok, sts, started) = start_loop start (Suc i) subs in (ok, st # sts, (st_uri st, st_args st) # started)
     else (False, [st], []))"

definition ngx_http_qksubrequest_start :: "outcomes \<Rightarrow> main_request \<Rightarrow> (int \<times> main_request) result" where
  "ngx_http_qksubrequest_start oc m =
    (case mr_ctx m of
       None \<Rightarrow> Inr (NGX_ERROR, m)
     | Some ctx \<Rightarrow>
         (case cx_data ctx of
            Null \<Rightarrow> Inr (NGX_ERROR, m)
          | Freed \<Rightarrow> Inl Use_after_free
          | Live request \<Rightarrow>
              let (ok, sts, started) = start_loop (oc_start oc) 0 (rq_subrequest request);
                  m = m\<lparr>mr_ctx := Some (ctx\<lparr>cx_subrequests := Some sts\<rparr>), mr_count := mr_count m + int (length started),
                    mr_refs := mr_refs m + int (length started), mr_started := mr_started m @ started\<rparr> in
              Inr (if ok then NGX_OK else NGX_ERROR, m)))"


section \<open>The phases\<close>

text \<open>Both calls of the plugin end in the same way: an answer, or sub-requests to start.\<close>

definition plugin_answer :: "outcomes \<Rightarrow> ngx_http_qkpack_ctx_t \<Rightarrow> main_request \<Rightarrow> handled \<Rightarrow> (int \<times> main_request) result" where
  "plugin_answer oc ctx m res =
    bindR res (\<lambda>(rc, request, _, h).
      let ctx = ctx\<lparr>cx_data := Live request\<rparr>;
          m = m\<lparr>mr_ctx := Some ctx, mr_worker := (mr_worker m)\<lparr>wk_handler := h\<rparr>\<rparr> in
      if rc \<noteq> NGX_AGAIN then Inr (NGX_OK, m\<lparr>mr_ctx := Some (ctx\<lparr>cx_response_buffer := rq_response_buffer request\<rparr>)\<rparr>)
      else bindR (ngx_http_qksubrequest_start oc m) (\<lambda>(rc, m).
        Inr (if rc \<noteq> NGX_OK then NGX_ERROR else NGX_AGAIN, m)))"

definition ngx_http_qksubrequest_process_request ::
  "ngx_env \<Rightarrow> http_request \<Rightarrow> outcomes \<Rightarrow> main_request \<Rightarrow> (int \<times> main_request) result" where
  "ngx_http_qksubrequest_process_request env r oc m =
    (let (rc, m) = ngx_http_qksubrequest_init_plugin env r m in
     if rc \<noteq> NGX_OK then Inr (NGX_ERROR, m)
     else (case mr_ctx m of
       None \<Rightarrow> Inr (NGX_ERROR, m)
     | Some ctx \<Rightarrow>
         if \<not> cx_plugin ctx then Inr (NGX_ERROR, m)
         else (case cx_data ctx of
           Null \<Rightarrow> Inr (NGX_ERROR, m)
         | Freed \<Rightarrow> Inl Use_after_free
         | Live request \<Rightarrow>
             bindR (ngx_http_get_post_body (ne_junk env) (hr_post r) [] (hr_body r) request) (\<lambda>(rc, request).
               let ctx = ctx\<lparr>cx_data := Live request\<rparr>; m = m\<lparr>mr_ctx := Some ctx\<rparr> in
               if rc \<noteq> NGX_OK then Inr (NGX_ERROR, m)
               else (case ngx_http_get_server (hr_vars r) of
                 None \<Rightarrow> Inr (NGX_ERROR, m)
               | Some server \<Rightarrow>
                   let request = request\<lparr>rq_request_uri := hr_uri r, rq_host := server,
                         rq_x_real_ip := (case hr_x_real_ip r of Some x \<Rightarrow> x | None \<Rightarrow> hr_addr_text r)\<rparr> in
                   plugin_answer oc ctx m (CreateRequest (henv env) None request (wk_handler (mr_worker m))))))))"

fun check_loop :: "ngx_subrequest_t list \<Rightarrow> nat \<Rightarrow> qkpack_request_t \<Rightarrow> (int \<times> qkpack_request_t) result" where
  "check_loop [] i request = Inr (NGX_OK, request)"
| "check_loop (st # sts) i request =
    (if \<not> st_done st then Inr (NGX_AGAIN, request)
     else (case st_upstream_status st of
       None \<Rightarrow>
         if i < length (rq_subrequest request) then
           Inr (NGX_ERROR, request\<lparr>rq_subrequest := (rq_subrequest request)[i := (rq_subrequest request ! i)\<lparr>sr_status := st_headers_status st\<rparr>]\<rparr>)
         else Inl Out_of_bounds
     | Some status \<Rightarrow> check_loop sts (Suc i) (if status \<noteq> NGX_HTTP_OK then request\<lparr>rq_cost := 4000\<rparr> else request)))"

definition ngx_http_qksubrequest_check :: "main_request \<Rightarrow> (int \<times> main_request) result" where
  "ngx_http_qksubrequest_check m =
    (case mr_ctx m of
       None \<Rightarrow> Inr (NGX_ERROR, m)
     | Some ctx \<Rightarrow>
         (case cx_data ctx of
            Null \<Rightarrow> Inr (NGX_ERROR, m)
          | Freed \<Rightarrow> Inl Use_after_free
          | Live request \<Rightarrow>
              (case cx_subrequests ctx of
                 None \<Rightarrow> Inl Null_deref
               | Some sts \<Rightarrow> bindR (check_loop sts 0 request) (\<lambda>(rc, request).
                   Inr (rc, m\<lparr>mr_ctx := Some (ctx\<lparr>cx_data := Live request\<rparr>)\<rparr>)))))"

definition ngx_http_qksubrequest_post :: "ngx_env \<Rightarrow> outcomes \<Rightarrow> main_request \<Rightarrow> (int \<times> main_request) result" where
  "ngx_http_qksubrequest_post env oc m =
    (case mr_ctx m of
       None \<Rightarrow> Inr (NGX_ERROR, m)
     | Some ctx \<Rightarrow>
         if \<not> cx_plugin ctx then Inr (NGX_ERROR, m)
         else (case cx_data ctx of
            Null \<Rightarrow> Inr (NGX_ERROR, m)
          | Freed \<Rightarrow> Inl Use_after_free
          | Live request \<Rightarrow>
              let request = request\<lparr>rq_response_buffer := cx_response_buffer ctx\<rparr> in
              plugin_answer oc ctx m (ProcessBody (henv env) None request (wk_handler (mr_worker m)))))"

definition ngx_http_qksubrequest_output :: "outcomes \<Rightarrow> main_request \<Rightarrow> int \<times> main_request" where
  "ngx_http_qksubrequest_output oc m =
    (case mr_ctx m of
       None \<Rightarrow> (NGX_ERROR, m)
     | Some ctx \<Rightarrow>
         if oc_header oc = NGX_ERROR \<or> oc_header oc > NGX_OK \<or> oc_header_only oc then (oc_header oc, m)
         else (oc_filter oc, m\<lparr>mr_sent := mr_sent m @ [cx_response_buffer ctx]\<rparr>))"

definition ngx_http_qksubrequest_done :: "outcomes \<Rightarrow> main_request \<Rightarrow> int \<times> main_request" where
  "ngx_http_qksubrequest_done oc m = (oc_filter oc, m)"


section \<open>The handler\<close>

text \<open>A phase returns from the handler or falls through to the next one.\<close>

type_synonym phase_result = "(int option \<times> main_request) result"

definition phase_is :: "int \<Rightarrow> main_request \<Rightarrow> bool" where
  "phase_is p m \<longleftrightarrow> (case mr_ctx m of None \<Rightarrow> False | Some ctx \<Rightarrow> cx_phase ctx = p)"

abbreviation set_phase :: "int \<Rightarrow> main_request \<Rightarrow> main_request" where
  "set_phase p m \<equiv> upd_ctx (\<lambda>ctx. ctx\<lparr>cx_phase := p\<rparr>) m"

definition in_phase :: "int \<Rightarrow> (main_request \<Rightarrow> phase_result) \<Rightarrow> (main_request \<Rightarrow> (int \<times> main_request) result) \<Rightarrow> main_request \<Rightarrow> (int \<times> main_request) result" where
  "in_phase p f k m =
    (if phase_is p m then bindR (f m) (\<lambda>(ret, m). case ret of Some rc \<Rightarrow> Inr (rc, m) | None \<Rightarrow> k m) else k m)"

definition init_phase :: "http_request \<Rightarrow> outcomes \<Rightarrow> main_request \<Rightarrow> phase_result" where
  "init_phase r oc m =
    bindR (ngx_http_qksubrequest_init r oc m) (\<lambda>(rc, m).
      if rc \<ge> NGX_HTTP_SPECIAL_RESPONSE then Inr (Some rc, m)
      else if rc = NGX_AGAIN then Inr (Some NGX_DONE, upd_ctx (\<lambda>ctx. ctx\<lparr>cx_waiting_more_body := True\<rparr>) m)
      else Inr (None, set_phase (if rc = NGX_OK then QKSUBREQUEST_STATE_PROCESS else QKSUBREQUEST_STATE_ERROR) m))"

text \<open>The three phases that can wait take a reference when they do.\<close>

definition wait_or_go :: "int \<Rightarrow> (int \<times> main_request) result \<Rightarrow> phase_result" where
  "wait_or_go ok_phase res =
    bindR res (\<lambda>(rc, m).
      if rc = NGX_AGAIN then Inr (Some NGX_DONE, (set_phase QKSUBREQUEST_STATE_WAIT_SUBREQUEST m)\<lparr>mr_count := mr_count m + 1\<rparr>)
      else Inr (None, set_phase (if rc = NGX_OK then ok_phase else QKSUBREQUEST_STATE_ERROR) m))"

definition final_phase :: "outcomes \<Rightarrow> main_request \<Rightarrow> phase_result" where
  "final_phase oc m =
    (let (rc, m) = ngx_http_qksubrequest_output oc (set_phase QKSUBREQUEST_STATE_DONE m) in
     bindR (ngx_http_qksubrequest_destroy m) (\<lambda>(_, m). Inr (Some rc, m)))"

definition done_phase :: "outcomes \<Rightarrow> main_request \<Rightarrow> phase_result" where
  "done_phase oc m = (let (rc, m) = ngx_http_qksubrequest_done oc m in Inr (Some rc, m))"

definition error_phase :: "main_request \<Rightarrow> phase_result" where
  "error_phase m = bindR (ngx_http_qksubrequest_destroy m) (\<lambda>(_, m). Inr (Some NGX_ERROR, m))"

definition enter :: "main_request \<Rightarrow> main_request" where
  "enter m = (if mr_ctx m = None then m\<lparr>mr_ctx := Some (zero_ctx\<lparr>cx_phase := QKSUBREQUEST_STATE_INIT, cx_waiting_more_body := False\<rparr>)\<rparr> else m)"

definition ngx_http_qksubrequest_handler ::
  "ngx_env \<Rightarrow> http_request \<Rightarrow> outcomes \<Rightarrow> main_request \<Rightarrow> (int \<times> main_request) result" where
  "ngx_http_qksubrequest_handler env r oc m =
    in_phase QKSUBREQUEST_STATE_INIT (init_phase r oc)
    (in_phase QKSUBREQUEST_STATE_PROCESS (\<lambda>m. wait_or_go QKSUBREQUEST_STATE_FINAL (ngx_http_qksubrequest_process_request env r oc m))
    (in_phase QKSUBREQUEST_STATE_WAIT_SUBREQUEST (\<lambda>m. wait_or_go QKSUBREQUEST_STATE_POST_SUBREQUEST (ngx_http_qksubrequest_check m))
    (in_phase QKSUBREQUEST_STATE_POST_SUBREQUEST (\<lambda>m. wait_or_go QKSUBREQUEST_STATE_FINAL (ngx_http_qksubrequest_post env oc m))
    (in_phase QKSUBREQUEST_STATE_FINAL (final_phase oc)
    (in_phase QKSUBREQUEST_STATE_DONE (done_phase oc)
    (in_phase QKSUBREQUEST_STATE_ERROR error_phase (\<lambda>m. Inr (NGX_OK, m)))))))) (enter m)"


section \<open>Specification\<close>

text \<open>What nginx does with the result of the handler: \<open>NGX_DONE\<close> gives a reference back, everything else ends the request.\<close>

definition finalize :: "int \<Rightarrow> main_request \<Rightarrow> main_request" where
  "finalize rc m = (if rc = NGX_DONE then finalize_done m else m\<lparr>mr_closed := True\<rparr>)"

text \<open>The output functions of nginx do not answer \<open>NGX_DONE\<close>.\<close>

definition outcomes_ok :: "outcomes \<Rightarrow> bool" where
  "outcomes_ok oc \<longleftrightarrow> oc_header oc \<noteq> NGX_DONE \<and> oc_filter oc \<noteq> NGX_DONE"

definition new_main :: "worker \<Rightarrow> main_request" where
  "new_main w = \<lparr>mr_ctx = None, mr_count = 1, mr_refs = 0, mr_closed = False, mr_started = [], mr_sent = [], mr_worker = w\<rparr>"

text \<open>
  The steps of a main request: nginx calls the handler, or the callback when a body it waits for has arrived; a sub-request is
  created, is repeated or gets a reply in the upstream module; a sub-request ends, and gives its reference back; another
  request of the worker runs.
\<close>

inductive main_step :: "main_request \<Rightarrow> main_request \<Rightarrow> bool" where
  call: "\<lbrakk>\<not> mr_closed m; outcomes_ok oc; \<forall>ctx. mr_ctx m = Some ctx \<longrightarrow> \<not> cx_waiting_more_body ctx; ngx_http_qksubrequest_handler env r oc m = Inr (rc, m')\<rbrakk>
    \<Longrightarrow> main_step m (finalize rc m')"
| body: "\<lbrakk>\<not> mr_closed m; outcomes_ok oc; ngx_subrequest_post_body m = (Run_phases, m1); ngx_http_qksubrequest_handler env r oc m1 = Inr (rc, m')\<rbrakk>
    \<Longrightarrow> main_step m (finalize rc m')"
| sub_create: "\<lbrakk>\<not> mr_closed m; mr_ctx m = Some ctx; cx_data ctx = Live p;
    ngx_http_qkupstream_create_request env r (Some p) sub u (mr_worker m) = Inr (rc, sub', u', Some p', w)\<rbrakk>
    \<Longrightarrow> main_step m (m\<lparr>mr_ctx := Some (ctx\<lparr>cx_data := Live p'\<rparr>), mr_worker := w\<rparr>)"
| sub_retry: "\<lbrakk>\<not> mr_closed m; mr_ctx m = Some ctx; cx_data ctx = Live p;
    ngx_http_qkupstream_node_get_peer env be (Some p) hp sub (mr_worker m) = Inr (rc, addr, hp', sub', Some p', w)\<rbrakk>
    \<Longrightarrow> main_step m (m\<lparr>mr_ctx := Some (ctx\<lparr>cx_data := Live p'\<rparr>), mr_worker := w\<rparr>)"
| sub_reply: "\<lbrakk>\<not> mr_closed m; mr_ctx m = Some ctx; cx_data ctx = Live p;
    ngx_http_qkupstream_process_header env (Some p) sub u (mr_worker m) = Inr (rc, sub', u', Some p', w)\<rbrakk>
    \<Longrightarrow> main_step m (m\<lparr>mr_ctx := Some (ctx\<lparr>cx_data := Live p'\<rparr>), mr_worker := w\<rparr>)"
| sub_done: "\<lbrakk>\<not> mr_closed m; mr_ctx m = Some ctx; cx_subrequests ctx = Some sts; i < length sts\<rbrakk>
    \<Longrightarrow> main_step m (m\<lparr>mr_ctx := Some (ctx\<lparr>cx_subrequests := Some (sts[i := (sts ! i)
          \<lparr>st_done := True, st_upstream_status := status, st_headers_status := headers\<rparr>])\<rparr>)\<rparr>)"
| sub_release: "\<lbrakk>\<not> mr_closed m; 0 < mr_refs m\<rbrakk> \<Longrightarrow> main_step m (m\<lparr>mr_count := mr_count m - 1, mr_refs := mr_refs m - 1\<rparr>)"
| other: "handler_step (wk_handler (mr_worker m)) h \<Longrightarrow> main_step m (m\<lparr>mr_worker := (mr_worker m)\<lparr>wk_handler := h\<rparr>\<rparr>)"

inductive reachable_main :: "main_request \<Rightarrow> bool" where
  start: "reachable_handler (wk_handler w) \<Longrightarrow> reachable_main (new_main w)"
| step: "reachable_main m \<Longrightarrow> main_step m m' \<Longrightarrow> reachable_main m'"

text \<open>
  Between two calls a request waits for its body, and owns nothing yet, or for sub-requests, and owns one live request object;
  the references are its own and those of the sub-requests, and nothing has been sent.  A finalised request owns nothing.
\<close>

definition waits_body :: "ngx_http_qkpack_ctx_t \<Rightarrow> bool" where
  "waits_body ctx \<longleftrightarrow> cx_phase ctx = QKSUBREQUEST_STATE_INIT \<and> cx_waiting_more_body ctx \<and> cx_data ctx = Null"

definition waits_subs :: "ngx_http_qkpack_ctx_t \<Rightarrow> bool" where
  "waits_subs ctx \<longleftrightarrow> cx_phase ctx = QKSUBREQUEST_STATE_WAIT_SUBREQUEST \<and> \<not> cx_waiting_more_body ctx \<and> cx_plugin ctx \<and>
    (\<exists>request. cx_data ctx = Live request) \<and> cx_subrequests ctx \<noteq> None"

definition balanced :: "main_request \<Rightarrow> bool" where
  "balanced m \<longleftrightarrow> \<not> mr_closed m \<and> mr_count m = 1 + mr_refs m \<and> 0 \<le> mr_refs m \<and> mr_sent m = []"

definition main_ok :: "main_request \<Rightarrow> bool" where
  "main_ok m \<longleftrightarrow>
    (if mr_closed m then length (mr_sent m) \<le> 1 \<and> (\<forall>ctx request. mr_ctx m = Some ctx \<longrightarrow> cx_data ctx \<noteq> Live request)
     else balanced m \<and> (\<forall>ctx. mr_ctx m = Some ctx \<longrightarrow> waits_body ctx \<or> waits_subs ctx))"

text \<open>Inside a call: the request object is not there yet or alive.\<close>

definition owned :: "main_request \<Rightarrow> bool" where
  "owned m \<longleftrightarrow> balanced m \<and> (\<exists>ctx. mr_ctx m = Some ctx \<and> \<not> cx_waiting_more_body ctx \<and>
    (cx_data ctx = Null \<or> cx_plugin ctx \<and> (\<exists>request. cx_data ctx = Live request)))"

definition unowned :: "main_request \<Rightarrow> bool" where
  "unowned m \<longleftrightarrow> balanced m \<and> (\<exists>ctx. mr_ctx m = Some ctx \<and> \<not> cx_waiting_more_body ctx \<and> cx_data ctx = Null)"

definition has_subs :: "main_request \<Rightarrow> bool" where
  "has_subs m \<longleftrightarrow> (\<exists>ctx request. mr_ctx m = Some ctx \<and> cx_plugin ctx \<and> cx_data ctx = Live request \<and> cx_subrequests ctx \<noteq> None)"

abbreviation keeps_owned :: "(int \<times> main_request) result \<Rightarrow> bool" where
  "keeps_owned res \<equiv> holds (\<lambda>(rc, m). owned m \<and> (rc = NGX_AGAIN \<longrightarrow> has_subs m)) res"

text \<open>The phases of one call, each with the set of phases that may follow.\<close>

definition in_phases :: "int set \<Rightarrow> main_request \<Rightarrow> bool" where
  "in_phases ps m \<longleftrightarrow> (\<exists>p\<in>ps. phase_is p m) \<and>
    (if phase_is QKSUBREQUEST_STATE_INIT m \<or> phase_is QKSUBREQUEST_STATE_PROCESS m then unowned m else owned m)"

definition ends_ok :: "int \<times> main_request \<Rightarrow> bool" where
  "ends_ok = (\<lambda>(rc, m). main_ok (finalize rc m))"

abbreviation phase_ok :: "int set \<Rightarrow> phase_result \<Rightarrow> bool" where
  "phase_ok qs res \<equiv> holds (\<lambda>(ret, m). case ret of Some rc \<Rightarrow> ends_ok (rc, m) | None \<Rightarrow> in_phases qs m) res"

text \<open>The handler of the worker only ever makes steps of its own.\<close>

abbreviation steps_ok :: "handled \<Rightarrow> bool" where
  "steps_ok res \<equiv> holds (\<lambda>(rc, request, parent, h). reachable_handler h) res"

abbreviation worker_ok :: "main_request \<Rightarrow> bool" where
  "worker_ok m \<equiv> reachable_handler (wk_handler (mr_worker m))"

text \<open>A smooth run: nginx has no failure, and every batch of sub-requests succeeds before the handler is called again.\<close>

definition all_well :: outcomes where
  "all_well = \<lparr>oc_read = NGX_OK, oc_start = (\<lambda>i. True), oc_header = NGX_OK, oc_header_only = False, oc_filter = NGX_OK\<rparr>"

definition fresh_sub :: "subrequest_t \<Rightarrow> ngx_subrequest_t" where
  "fresh_sub ups = \<lparr>st_uri = sr_request_uri ups, st_args = sr_args ups, st_done = False, st_upstream_status = None, st_headers_status = 0\<rparr>"

definition call_path :: "subrequest_t \<Rightarrow> bytes \<times> bytes" where
  "call_path ups = (sr_request_uri ups, sr_args ups)"

definition all_done :: "ngx_subrequest_t list \<Rightarrow> bool" where
  "all_done sts \<longleftrightarrow> (\<forall>st\<in>set sts. st_done st \<and> st_upstream_status st = Some NGX_HTTP_OK)"

text \<open>\<open>serve\<close> is what the sub-requests of a batch do to the request, \<open>f\<close> what they do to the worker.\<close>

definition serve_all ::
  "(subrequest_t list \<Rightarrow> qkpack_request_t \<Rightarrow> qkpack_request_t) \<Rightarrow> (worker \<Rightarrow> worker) \<Rightarrow> main_request \<Rightarrow> main_request" where
  "serve_all serve f m =
    (case mr_ctx m of
       None \<Rightarrow> m
     | Some ctx \<Rightarrow>
         (case (cx_data ctx, cx_subrequests ctx) of
            (Live request, Some sts) \<Rightarrow>
              m\<lparr>mr_ctx := Some (ctx\<lparr>cx_data := Live (serve (rq_subrequest request) request),
                  cx_subrequests := Some (map (\<lambda>st. st\<lparr>st_done := True, st_upstream_status := Some NGX_HTTP_OK\<rparr>) sts)\<rparr>),
                mr_count := mr_count m - mr_refs m, mr_refs := 0, mr_worker := f (mr_worker m)\<rparr>
          | _ \<Rightarrow> m))"

partial_function (option) run_handler ::
  "(subrequest_t list \<Rightarrow> qkpack_request_t \<Rightarrow> qkpack_request_t) \<Rightarrow> (worker \<Rightarrow> worker) \<Rightarrow> (nat \<Rightarrow> ngx_env) \<Rightarrow> http_request \<Rightarrow>
   nat \<Rightarrow> main_request \<Rightarrow> (int \<times> main_request) result option" where
  "run_handler serve f env r n m =
    (case ngx_http_qksubrequest_handler (env n) r all_well m of
       Inl e \<Rightarrow> Some (Inl e)
     | Inr (rc, m) \<Rightarrow>
         if rc = NGX_DONE then run_handler serve f env r (Suc n) (serve_all serve f (finalize_done m)) else Some (Inr (rc, m)))"

text \<open>The state after a batch has been started and after the answer.\<close>

definition with_subs :: "qkpack_request_t \<Rightarrow> qkpack_handler \<Rightarrow> ngx_http_qkpack_ctx_t \<Rightarrow> main_request \<Rightarrow> main_request" where
  "with_subs request h ctx m =
    m\<lparr>mr_ctx := Some (ctx\<lparr>cx_phase := QKSUBREQUEST_STATE_WAIT_SUBREQUEST, cx_data := Live request, cx_subrequests := Some (map fresh_sub (rq_subrequest request))\<rparr>),
      mr_count := mr_count m + int (length (rq_subrequest request)) + 1, mr_refs := mr_refs m + int (length (rq_subrequest request)),
      mr_started := mr_started m @ map call_path (rq_subrequest request), mr_worker := (mr_worker m)\<lparr>wk_handler := h\<rparr>\<rparr>"

definition answered :: "qkpack_request_t \<Rightarrow> qkpack_handler \<Rightarrow> ngx_http_qkpack_ctx_t \<Rightarrow> main_request \<Rightarrow> main_request" where
  "answered request h ctx m =
    m\<lparr>mr_ctx := Some (ctx\<lparr>cx_phase := QKSUBREQUEST_STATE_DONE, cx_data := Freed, cx_response_buffer := rq_response_buffer request\<rparr>),
      mr_sent := mr_sent m @ [rq_response_buffer request], mr_worker := (mr_worker m)\<lparr>wk_handler := h\<rparr>\<rparr>"

definition plugin_outcome :: "handled \<Rightarrow> ngx_http_qkpack_ctx_t \<Rightarrow> main_request \<Rightarrow> (int \<times> main_request) result" where
  "plugin_outcome res ctx m = bindR res (\<lambda>(rc, request, _, h).
    if rc = NGX_AGAIN then Inr (NGX_DONE, with_subs request h ctx m) else Inr (NGX_OK, answered request h ctx m))"

text \<open>The request that the first call hands to the plugin.\<close>

definition first_request :: "http_request \<Rightarrow> bytes \<Rightarrow> qkpack_request_t \<Rightarrow> qkpack_request_t" where
  "first_request r server request = request\<lparr>rq_request_uri := hr_uri r, rq_host := server,
     rq_x_real_ip := (case hr_x_real_ip r of Some x \<Rightarrow> x | None \<Rightarrow> hr_addr_text r)\<rparr>"

text \<open>A request on several keys that the parser, the access control and the routing have let through.\<close>

definition admitted :: "handler_env \<Rightarrow> qkpack_handler \<Rightarrow> qkpack_request_t \<Rightarrow> qkpack_request_t \<Rightarrow> bool" where
  "admitted env h request request' \<longleftrightarrow> (\<exists>parsed acl qa granted routed cluster.
    ParseRequestBody (he_yajl env) None request = Inr (QKPACK_OK, parsed) \<and> \<not> rq_is_subrequest parsed \<and>
    Process (he_yajl env) (he_curl env) (qh_acl h) (QKPACK_TIME_END env 0 parsed) = Inr (Some acl, qa, granted) \<and>
    GetNode (he_nodes env) (pe_junk_int (he_proto env)) (acl_route acl) (QKPACK_TIME_END env 1 granted) (qh_cluster h) =
      Inr (QKPACK_OK, routed, cluster) \<and>
    request' = QKPACK_TIME_END env 2 routed \<and> CheckSubRequest request')"

text \<open>The answer is the document of the phase machine, or that of the error.\<close>

definition answer_body :: "yajl \<Rightarrow> int \<Rightarrow> int \<Rightarrow> qkpack_request_t \<Rightarrow> bytes" where
  "answer_body yj t rc request = rq_response_buffer (if rc = QKPACK_ERROR then snd (ParseResponseError yj t request) else request)"

text \<open>The response buffer is set again before every call of the plugin.\<close>

definition cleared :: "(subrequest_t list \<Rightarrow> qkpack_request_t \<Rightarrow> qkpack_request_t) \<Rightarrow> subrequest_t list \<Rightarrow> qkpack_request_t \<Rightarrow> qkpack_request_t" where
  "cleared serve subs request = (serve subs request)\<lparr>rq_response_buffer := []\<rparr>"

text \<open>A finished request: the sub-requests that were started, the one answer, nothing left.\<close>

definition finished :: "(bytes \<times> bytes) list \<Rightarrow> bytes \<Rightarrow> main_request \<Rightarrow> bool" where
  "finished started body m \<longleftrightarrow> mr_started m = started \<and> mr_sent m = [body] \<and> (\<exists>ctx. mr_ctx m = Some ctx \<and> cx_data ctx = Freed)"

text \<open>The body of a client that writes the key \<open>k\<close>.\<close>

definition sample_mset_doc :: yajl_val where
  "sample_mset_doc = YObject [(QKPACK_JSON_URI, YString ''qkd://BJ02/lj''), (QKPACK_JSON_AK, YString ''key''),
     (QKPACK_JSON_KEYS, YArray [YObject [(QKPACK_JSON_KEY, YString ''k''), (QKPACK_JSON_VALUE, YString ''v'')]])]"

definition same_command :: "qkpack_request_t \<Rightarrow> qkpack_request_t \<Rightarrow> bool" where
  "same_command r r' \<longleftrightarrow> rq_is_subrequest r' = rq_is_subrequest r \<and> rq_kvpair r' = rq_kvpair r"


section \<open>Lemmas\<close>

lemmas owned_defs = owned_def unowned_def balanced_def has_subs_def

lemma ngx_codes [simp]: "NGX_OK \<noteq> NGX_ERROR" "NGX_ERROR \<noteq> NGX_OK" "NGX_AGAIN \<noteq> NGX_ERROR" "NGX_ERROR \<noteq> NGX_AGAIN"
  "NGX_DONE \<noteq> NGX_OK" "NGX_DONE \<noteq> NGX_ERROR" "NGX_ERROR \<noteq> NGX_DONE" "NGX_OK \<noteq> NGX_DONE"
  by (simp_all add: codes)

lemma start_owned:
  assumes "owned m"
  shows "holds (\<lambda>(rc, m'). owned m' \<and> (rc = NGX_OK \<longrightarrow> has_subs m')) (ngx_http_qksubrequest_start oc m)"
  using assms
  by (auto simp: ngx_http_qksubrequest_start_def owned_defs holds_def split_beta Let_def split: ptr.splits)

lemma plugin_answer_owned:
  assumes "owned m" "mr_ctx m = Some ctx'" "cx_plugin ctx" "\<not> cx_waiting_more_body ctx"
  shows "keeps_owned (plugin_answer oc ctx m res)"
proof -
  have "owned (m\<lparr>mr_worker := w, mr_ctx := Some (ctx\<lparr>cx_data := Live request\<rparr>)\<rparr>)"
    "owned (m\<lparr>mr_ctx := Some (ctx\<lparr>cx_data := Live request\<rparr>), mr_worker := w\<rparr>)"
    "owned (m\<lparr>mr_worker := w, mr_ctx := Some (ctx\<lparr>cx_data := Live request, cx_response_buffer := b\<rparr>)\<rparr>)" for request b w
    using assms by (auto simp: owned_defs)
  then show ?thesis
    unfolding plugin_answer_def
    by (intro holds_bindR_any) (auto simp: Let_def intro!: holds_bindR [OF start_owned])
qed

lemma process_request_owned:
  assumes "unowned m"
  shows "keeps_owned (ngx_http_qksubrequest_process_request env r oc m)"
proof -
  obtain rc m1 where m1: "ngx_http_qksubrequest_init_plugin env r m = (rc, m1)" by force
  have o1: "owned m1" "\<exists>ctx. mr_ctx m1 = Some ctx \<and> \<not> cx_waiting_more_body ctx \<and> (rc = NGX_OK \<longrightarrow> cx_plugin ctx \<and> cx_data ctx = Live new_request)"
    using m1 assms
    by (auto simp: ngx_http_qksubrequest_init_plugin_def owned_defs Let_def split: option.splits if_splits)
  then obtain ctx where ctx: "mr_ctx m1 = Some ctx" "\<not> cx_waiting_more_body ctx" "rc = NGX_OK \<Longrightarrow> cx_plugin ctx \<and> cx_data ctx = Live new_request"
    by auto
  have o2: "owned (m1\<lparr>mr_ctx := Some (ctx\<lparr>cx_data := Live request\<rparr>)\<rparr>)" if "rc = NGX_OK" for request
    using o1(1) ctx that by (auto simp: owned_defs)
  show ?thesis
  proof (cases "rc = NGX_OK")
    case True
    then show ?thesis
      using ctx(2-) o2
      by (auto simp: ngx_http_qksubrequest_process_request_def m1 ctx(1) Let_def split_beta split: option.split
          intro!: holds_bindR_any plugin_answer_owned)
  qed (use o1 in \<open>simp add: ngx_http_qksubrequest_process_request_def m1\<close>)
qed

lemma check_owned:
  assumes "owned m"
  shows "keeps_owned (ngx_http_qksubrequest_check m)"
  using assms
  by (auto simp: ngx_http_qksubrequest_check_def owned_defs split_beta split: ptr.split option.split intro!: holds_bindR_any)

lemma post_owned:
  assumes "owned m"
  shows "keeps_owned (ngx_http_qksubrequest_post env oc m)"
proof -
  obtain ctx where "mr_ctx m = Some ctx" "\<not> cx_waiting_more_body ctx" using assms by (auto simp: owned_def)
  then show ?thesis
    using assms by (auto simp: ngx_http_qksubrequest_post_def Let_def split: ptr.split intro!: plugin_answer_owned)
qed

lemma in_phase_chain:
  assumes "in_phases ps m" "ps - {p} \<subseteq> qs"
    and "\<And>m. in_phases (ps \<inter> {p}) m \<Longrightarrow> phase_ok qs (f m)" "\<And>m. in_phases qs m \<Longrightarrow> holds ends_ok (k m)"
  shows "holds ends_ok (in_phase p f k m)"
proof (cases "phase_is p m")
  case True
  then have "in_phases (ps \<inter> {p}) m" using assms(1) by (auto simp: in_phases_def phase_is_def split: option.splits)
  then show ?thesis
    using True assms(4) by (auto simp: in_phase_def intro!: holds_bindR [OF assms(3)] split: option.splits)
next
  case False
  then have "in_phases qs m" using assms(1,2) by (auto simp: in_phases_def)
  then show ?thesis using False assms(4) by (simp add: in_phase_def)
qed

lemma phase_numbers: "distinct [QKSUBREQUEST_STATE_INIT, QKSUBREQUEST_STATE_PROCESS, QKSUBREQUEST_STATE_WAIT_SUBREQUEST,
    QKSUBREQUEST_STATE_POST_SUBREQUEST, QKSUBREQUEST_STATE_FINAL, QKSUBREQUEST_STATE_DONE, QKSUBREQUEST_STATE_ERROR]"
  by (simp add: codes)

lemma phase_neq [simp]:
  "QKSUBREQUEST_STATE_WAIT_SUBREQUEST \<noteq> QKSUBREQUEST_STATE_INIT" "QKSUBREQUEST_STATE_WAIT_SUBREQUEST \<noteq> QKSUBREQUEST_STATE_PROCESS"
  "QKSUBREQUEST_STATE_FINAL \<noteq> QKSUBREQUEST_STATE_WAIT_SUBREQUEST" "QKSUBREQUEST_STATE_FINAL \<noteq> QKSUBREQUEST_STATE_POST_SUBREQUEST"
  by (simp_all add: codes)

lemma phase_is_set [simp]: "phase_is p (set_phase q m) \<longleftrightarrow> mr_ctx m \<noteq> None \<and> p = q"
  by (auto simp: phase_is_def split: option.splits)

lemma owned_set [simp]: "owned (set_phase p m) = owned m" "unowned (set_phase p m) = unowned m"
  by (auto simp: owned_defs)

lemma owned_ctx: "owned m \<Longrightarrow> mr_ctx m \<noteq> None" "unowned m \<Longrightarrow> mr_ctx m \<noteq> None" "unowned m \<Longrightarrow> owned m"
  by (auto simp: owned_defs)

lemma in_phases_set:
  assumes "owned m" "q \<in> qs" "q \<notin> {QKSUBREQUEST_STATE_INIT, QKSUBREQUEST_STATE_PROCESS}"
  shows "in_phases qs (set_phase q m)"
  using assms owned_ctx [of m] by (auto simp: in_phases_def)

lemma wait_or_go_ok:
  assumes "keeps_owned res" "{ok_phase, QKSUBREQUEST_STATE_ERROR} \<subseteq> qs" "ok_phase \<notin> {QKSUBREQUEST_STATE_INIT, QKSUBREQUEST_STATE_PROCESS}"
  shows "phase_ok qs (wait_or_go ok_phase res)"
proof -
  have "ends_ok (NGX_DONE, (set_phase QKSUBREQUEST_STATE_WAIT_SUBREQUEST m)\<lparr>mr_count := mr_count m + 1\<rparr>)" if "owned m" "has_subs m" for m
    using that by (auto simp: ends_ok_def finalize_def finalize_done_def main_ok_def owned_defs waits_subs_def)
  moreover have "in_phases qs (set_phase (if rc = NGX_OK then ok_phase else QKSUBREQUEST_STATE_ERROR) m)" if "owned m" for rc m
    using that assms(2,3) phase_numbers by (intro in_phases_set) auto
  ultimately show ?thesis
    unfolding wait_or_go_def by (intro holds_bindR [OF assms(1)]) auto
qed

lemma init_phase_ok:
  assumes "in_phases {QKSUBREQUEST_STATE_INIT} m"
  shows "phase_ok {QKSUBREQUEST_STATE_PROCESS, QKSUBREQUEST_STATE_ERROR} (init_phase r oc m)"
proof -
  have u: "unowned m" "phase_is QKSUBREQUEST_STATE_INIT m" using assms by (auto simp: in_phases_def)
  have res: "ngx_http_qksubrequest_init r oc m =
    (if \<not> hr_post r then Inr (NGX_ERROR, m)
     else if oc_read oc \<ge> NGX_HTTP_SPECIAL_RESPONSE then Inr (oc_read oc, m)
     else if oc_read oc = NGX_AGAIN then Inr (NGX_AGAIN, m\<lparr>mr_count := mr_count m + 1\<rparr>) else Inr (NGX_OK, m))"
    using u by (auto simp: ngx_http_qksubrequest_init_def read_client_request_body_def ngx_subrequest_post_body_def unowned_def balanced_def
        finalize_done_def phase_is_def)
  have "ends_ok (rc, m)" if "rc \<ge> NGX_HTTP_SPECIAL_RESPONSE" for rc
    using u that by (auto simp: ends_ok_def finalize_def main_ok_def owned_defs codes)
  moreover have "ends_ok (NGX_DONE, upd_ctx (\<lambda>ctx. ctx\<lparr>cx_waiting_more_body := True\<rparr>) (m\<lparr>mr_count := mr_count m + 1\<rparr>))"
    using u by (auto simp: ends_ok_def finalize_def finalize_done_def main_ok_def owned_defs waits_body_def phase_is_def)
  moreover have "in_phases {QKSUBREQUEST_STATE_PROCESS, QKSUBREQUEST_STATE_ERROR} (set_phase p m)"
    if "p \<in> {QKSUBREQUEST_STATE_PROCESS, QKSUBREQUEST_STATE_ERROR}" for p
    using u that phase_numbers owned_ctx [of m] by (auto simp: in_phases_def)
  moreover have "\<not> NGX_AGAIN \<ge> NGX_HTTP_SPECIAL_RESPONSE" "\<not> NGX_ERROR \<ge> NGX_HTTP_SPECIAL_RESPONSE" "\<not> NGX_OK \<ge> NGX_HTTP_SPECIAL_RESPONSE"
    by (simp_all add: codes)
  ultimately show ?thesis
    unfolding init_phase_def res by auto
qed

lemma destroy_ok:
  assumes "\<forall>ctx. mr_ctx m = Some ctx \<longrightarrow> cx_data ctx = Null \<or> cx_plugin ctx"
  shows "holds (\<lambda>(_, m'). mr_sent m' = mr_sent m \<and> (\<forall>ctx request. mr_ctx m' = Some ctx \<longrightarrow> cx_data ctx \<noteq> Live request)) (ngx_http_qksubrequest_destroy m)"
  using assms by (auto simp: ngx_http_qksubrequest_destroy_def holds_def split: option.splits ptr.splits)

lemma final_phase_ok:
  assumes "owned m" "outcomes_ok oc"
  shows "phase_ok qs (final_phase oc m)"
proof -
  obtain rc m1 where m1: "ngx_http_qksubrequest_output oc (set_phase QKSUBREQUEST_STATE_DONE m) = (rc, m1)" by force
  have rc: "rc \<noteq> NGX_DONE" "\<forall>ctx. mr_ctx m1 = Some ctx \<longrightarrow> cx_data ctx = Null \<or> cx_plugin ctx" "length (mr_sent m1) \<le> 1"
    using assms m1 by (auto simp: ngx_http_qksubrequest_output_def outcomes_ok_def owned_defs split: option.splits if_splits)
  then show ?thesis
    by (auto simp: final_phase_def m1 ends_ok_def finalize_def main_ok_def intro!: holds_bindR [OF destroy_ok [OF rc(2)]])
qed

lemma error_phase_ok:
  assumes "owned m"
  shows "phase_ok qs (error_phase m)"
proof -
  have m: "mr_sent m = []" "\<forall>ctx. mr_ctx m = Some ctx \<longrightarrow> cx_data ctx = Null \<or> cx_plugin ctx" using assms by (auto simp: owned_defs)
  then show ?thesis
    by (auto simp: error_phase_def ends_ok_def finalize_def main_ok_def intro!: holds_bindR [OF destroy_ok [OF m(2)]])
qed

lemma in_phases_owned:
  "in_phases {} m \<Longrightarrow> False"
  "in_phases {QKSUBREQUEST_STATE_PROCESS} m \<Longrightarrow> unowned m"
  "in_phases {QKSUBREQUEST_STATE_WAIT_SUBREQUEST} m \<Longrightarrow> owned m"
  "in_phases {QKSUBREQUEST_STATE_POST_SUBREQUEST} m \<Longrightarrow> owned m"
  "in_phases {QKSUBREQUEST_STATE_FINAL} m \<Longrightarrow> owned m"
  "in_phases {QKSUBREQUEST_STATE_ERROR} m \<Longrightarrow> owned m"
  by (auto simp: in_phases_def dest: owned_ctx(3) split: if_splits)

lemma handler_ends_ok:
  assumes "in_phases {QKSUBREQUEST_STATE_INIT, QKSUBREQUEST_STATE_WAIT_SUBREQUEST} (enter m)" "outcomes_ok oc"
  shows "holds ends_ok (ngx_http_qksubrequest_handler env r oc m)"
proof -
  let ?I = QKSUBREQUEST_STATE_INIT and ?P = QKSUBREQUEST_STATE_PROCESS and ?W = QKSUBREQUEST_STATE_WAIT_SUBREQUEST
    and ?S = QKSUBREQUEST_STATE_POST_SUBREQUEST and ?F = QKSUBREQUEST_STATE_FINAL and ?D = QKSUBREQUEST_STATE_DONE and ?E = QKSUBREQUEST_STATE_ERROR
  note simps = phase_numbers [unfolded distinct.simps] and [dest] = in_phases_owned
  let ?e = "in_phase ?E error_phase (\<lambda>m. Inr (NGX_OK, m))"
  let ?f = "in_phase ?F (final_phase oc) (in_phase ?D (done_phase oc) ?e)"
  let ?s = "in_phase ?S (\<lambda>m. wait_or_go ?F (ngx_http_qksubrequest_post env oc m)) ?f"
  let ?w = "in_phase ?W (\<lambda>m. wait_or_go ?S (ngx_http_qksubrequest_check m)) ?s"
  have error: "holds ends_ok (?e m)" if "in_phases {?E} m" for m
    using that simps by (rule_tac in_phase_chain [where qs = "{}"]) (auto intro!: error_phase_ok)
  have "holds ends_ok (in_phase ?D (done_phase oc) ?e m)" if "in_phases {?E} m" for m
    using that simps by (rule_tac in_phase_chain [where qs = "{?E}"]) (auto intro!: error)
  then have final: "holds ends_ok (?f m)" if "in_phases {?F, ?E} m" for m
    using that simps assms(2) by (rule_tac in_phase_chain [where qs = "{?E}"]) (auto intro!: final_phase_ok)
  have post: "holds ends_ok (?s m)" if "in_phases {?S, ?F, ?E} m" for m
    using that simps by (rule_tac in_phase_chain [where qs = "{?F, ?E}"]) (auto intro!: final wait_or_go_ok post_owned)
  have wait: "holds ends_ok (?w m)" if "in_phases {?W, ?F, ?E} m" for m
    using that simps by (rule_tac in_phase_chain [where qs = "{?S, ?F, ?E}"]) (auto intro!: post wait_or_go_ok check_owned)
  have process: "holds ends_ok (in_phase ?P (\<lambda>m. wait_or_go ?F (ngx_http_qksubrequest_process_request env r oc m)) ?w m)"
    if "in_phases {?P, ?W, ?E} m" for m
    using that simps by (rule_tac in_phase_chain [where qs = "{?W, ?F, ?E}"]) (auto intro!: wait wait_or_go_ok process_request_owned)
  have "phase_ok {?P, ?W, ?E} (init_phase r oc m)" if "in_phases {?I} m" for m
    using that by (rule holds_mono [OF init_phase_ok]) (auto simp: in_phases_def split: option.splits)
  then show ?thesis
    unfolding ngx_http_qksubrequest_handler_def
    using assms(1) simps by (rule_tac in_phase_chain [where qs = "{?P, ?W, ?E}"]) (auto intro!: process)
qed

lemma callable:
  assumes "main_ok m" "\<not> mr_closed m"
  shows "\<forall>ctx. mr_ctx m = Some ctx \<longrightarrow> \<not> cx_waiting_more_body ctx \<Longrightarrow>
      in_phases {QKSUBREQUEST_STATE_INIT, QKSUBREQUEST_STATE_WAIT_SUBREQUEST} (enter m)"
    and "ngx_subrequest_post_body m = (Run_phases, m1) \<Longrightarrow>
      in_phases {QKSUBREQUEST_STATE_INIT, QKSUBREQUEST_STATE_WAIT_SUBREQUEST} (enter m1)"
  using assms phase_numbers
  by (auto simp: main_ok_def in_phases_def owned_defs phase_is_def enter_def waits_body_def waits_subs_def zero_ctx_def
      ngx_subrequest_post_body_def split: option.splits if_splits)

lemmas handler_steps = plugin_hist.create_ok plugin_hist.reinit_ok plugin_hist.reply_ok

lemma process_request_steps:
  "reachable_handler (wk_handler w) \<Longrightarrow>
    holds (\<lambda>(rc, ctx, parent, w). reachable_handler (wk_handler w)) (ngx_http_qkupstream_process_request env r parent ctx w)"
  by (auto simp: ngx_http_qkupstream_process_request_def Let_def intro!: holds_bindR [OF handler_steps(1)] split: option.split ptr.split)

lemma create_request_steps:
  "reachable_handler (wk_handler w) \<Longrightarrow>
    holds (\<lambda>(rc, ctx, u, parent, w). reachable_handler (wk_handler w)) (ngx_http_qkupstream_create_request env r parent ctx u w)"
  by (auto simp: ngx_http_qkupstream_create_request_def Let_def
      intro!: holds_bindR [OF process_request_steps] holds_bindR_any [where m = "ngx_http_qkupstream_init e r p c" for e r p c]
        holds_bindR_any [where m = "ngx_http_qkupstream_destroy c" for c])

lemma process_header_steps:
  "reachable_handler (wk_handler w) \<Longrightarrow>
    holds (\<lambda>(rc, ctx, u, parent, w). reachable_handler (wk_handler w)) (ngx_http_qkupstream_process_header env parent ctx u w)"
proof -
  assume w: "reachable_handler (wk_handler w)"
  have response: "holds (\<lambda>(rc, ctx, u, parent, w). reachable_handler (wk_handler w)) (ngx_http_qkupstream_process_response env parent ctx u w)" for ctx
    using w by (auto simp: ngx_http_qkupstream_process_response_def Let_def intro!: holds_bindR [OF handler_steps(3)] split: ptr.split)
  then show ?thesis
    using w by (auto simp: ngx_http_qkupstream_process_header_def Let_def intro!: holds_bindR_any [where m = "ngx_redis_proto_decode b n" for b n] holds_bindR [OF response])
qed

lemma get_peer_steps:
  "reachable_handler (wk_handler w) \<Longrightarrow>
    holds (\<lambda>(rc, addr, hp, ctx, parent, w). reachable_handler (wk_handler w)) (ngx_http_qkupstream_node_get_peer env be parent hp ctx w)"
proof -
  assume w: "reachable_handler (wk_handler w)"
  have reinit: "holds (\<lambda>(rc, ctx, parent, w). reachable_handler (wk_handler w)) (ngx_http_qkupstream_process_reinit_request env parent ctx w)" for ctx
    using w by (auto simp: ngx_http_qkupstream_process_reinit_request_def Let_def intro!: holds_bindR [OF handler_steps(2)] split: ptr.split)
  have nodes: "holds (\<lambda>(rc, hp, ctx, parent, w). reachable_handler (wk_handler w)) (ngx_http_upstream_update_nodes env be parent hp ctx w)"
    by (auto simp: ngx_http_upstream_update_nodes_def Let_def
        intro!: holds_bindR_any [where m = "rand_node a b c d e f g" for a b c d e f g] holds_bindR [OF reinit])
  show ?thesis
    using w unfolding ngx_http_qkupstream_node_get_peer_def Let_def
    by (auto intro!: holds_bindR [OF nodes] holds_bindR_any [where m = "find_or_add_peer a b c d" for a b c d] split: option.split)
qed

lemma plugin_answer_steps: "steps_ok res \<Longrightarrow> holds (\<lambda>(rc, m). worker_ok m) (plugin_answer oc ctx m res)"
  unfolding plugin_answer_def
  by (rule holds_bindR, assumption)
    (auto simp: ngx_http_qksubrequest_start_def Let_def split_beta holds_def split: sum.splits if_splits)

lemma module_steps:
  assumes "worker_ok m"
  shows "holds (\<lambda>(rc, m). worker_ok m) (ngx_http_qksubrequest_process_request env r oc m)"
    and "holds (\<lambda>(rc, m). worker_ok m) (ngx_http_qksubrequest_post env oc m)"
    and "holds (\<lambda>(rc, m). worker_ok m) (ngx_http_qksubrequest_check m)"
    and "holds (\<lambda>(rc, m). worker_ok m) (ngx_http_qksubrequest_init r oc m)"
    and "holds (\<lambda>(rc, m). worker_ok m) (ngx_http_qksubrequest_destroy m)"
proof -
  have "worker_ok (snd (ngx_http_qksubrequest_init_plugin env r m))"
    using assms by (auto simp: ngx_http_qksubrequest_init_plugin_def Let_def split: option.split)
  then show "holds (\<lambda>(rc, m). worker_ok m) (ngx_http_qksubrequest_process_request env r oc m)"
    by (auto simp: ngx_http_qksubrequest_process_request_def Let_def split_beta split: option.split ptr.split
        intro!: holds_bindR_any plugin_answer_steps handler_steps)
  show "holds (\<lambda>(rc, m). worker_ok m) (ngx_http_qksubrequest_post env oc m)"
    using assms by (auto simp: ngx_http_qksubrequest_post_def Let_def split: option.split ptr.split intro!: plugin_answer_steps handler_steps)
  show "holds (\<lambda>(rc, m). worker_ok m) (ngx_http_qksubrequest_check m)"
    using assms by (auto simp: ngx_http_qksubrequest_check_def split: option.split ptr.split intro!: holds_bindR_any)
  show "holds (\<lambda>(rc, m). worker_ok m) (ngx_http_qksubrequest_init r oc m)"
    using assms by (auto simp: ngx_http_qksubrequest_init_def read_client_request_body_def ngx_subrequest_post_body_def finalize_done_def Let_def split: option.split)
  show "holds (\<lambda>(rc, m). worker_ok m) (ngx_http_qksubrequest_destroy m)"
    using assms by (auto simp: ngx_http_qksubrequest_destroy_def split: option.split ptr.split)
qed

lemma in_phase_steps:
  assumes "worker_ok m" "\<And>m. worker_ok m \<Longrightarrow> holds (\<lambda>(ret, m). worker_ok m) (f m)" "\<And>m. worker_ok m \<Longrightarrow> holds (\<lambda>(rc, m). worker_ok m) (k m)"
  shows "holds (\<lambda>(rc, m). worker_ok m) (in_phase p f k m)"
  using assms by (auto simp: in_phase_def intro!: holds_bindR [OF assms(2)] split: option.split)

lemma handler_worker:
  assumes "worker_ok m"
  shows "holds (\<lambda>(rc, m). worker_ok m) (ngx_http_qksubrequest_handler env r oc m)"
proof -
  have go: "holds (\<lambda>(rc, m). worker_ok m) res \<Longrightarrow> holds (\<lambda>(ret, m). worker_ok m) (wait_or_go p res)" for p res
    unfolding wait_or_go_def by (rule holds_bindR, assumption) auto
  have "worker_ok (enter m)" using assms by (simp add: enter_def)
  then show ?thesis
    unfolding ngx_http_qksubrequest_handler_def
    by (intro in_phase_steps go module_steps)
      (auto simp: init_phase_def final_phase_def done_phase_def error_phase_def ngx_http_qksubrequest_output_def ngx_http_qksubrequest_done_def
        split_beta Let_def split: option.split intro!: holds_bindR [OF module_steps(4)] holds_bindR [OF module_steps(5)])
qed

lemma finalize_worker [simp]: "mr_worker (finalize rc m) = mr_worker m"
  by (simp add: finalize_def finalize_done_def)

lemma main_step_ok:
  assumes "main_step m m'" "main_ok m" "worker_ok m"
  shows "main_ok m' \<and> worker_ok m'"
  using assms
proof induction
  case (call m oc env r rc m')
  then show ?case
    using handler_ends_ok [OF callable(1)] handler_worker by (fastforce simp: ends_ok_def dest!: holdsD)
next
  case (body m oc m1 env r rc m')
  have "worker_ok m1" using body by (auto simp: ngx_subrequest_post_body_def finalize_done_def split: option.splits if_splits)
  then show ?case
    using body handler_ends_ok [OF callable(2)] handler_worker by (fastforce simp: ends_ok_def dest!: holdsD)
next
  case (sub_create m ctx p env r sub u rc sub' u' p' w)
  then show ?case using holdsD [OF create_request_steps sub_create(4)]
    by (auto simp: main_ok_def balanced_def waits_body_def waits_subs_def)
next
  case (sub_retry m ctx p env be hp sub rc addr hp' sub' p' w)
  then show ?case using holdsD [OF get_peer_steps sub_retry(4)]
    by (auto simp: main_ok_def balanced_def waits_body_def waits_subs_def)
next
  case (sub_reply m ctx p env sub u rc sub' u' p' w)
  then show ?case using holdsD [OF process_header_steps sub_reply(4)]
    by (auto simp: main_ok_def balanced_def waits_body_def waits_subs_def)
next
  case (other m h)
  then show ?case by (auto simp: main_ok_def balanced_def intro: reachable_handler.step)
qed (auto simp: main_ok_def balanced_def waits_body_def waits_subs_def)


subsection \<open>A smooth run\<close>

lemma emit_same: "same_command r (snd (emit yj b calls r')) \<longleftrightarrow> same_command r r'"
  by (simp add: emit_def same_command_def split: option.split)

lemma writer_same:
  "same_command r (snd (WriterJsonMset yj r')) \<longleftrightarrow> same_command r r'"
  "same_command r (snd (WriterJsonMget yj r')) \<longleftrightarrow> same_command r r'"
  "same_command r (snd (WriterJsonZfixedsetGetByScore yj r')) \<longleftrightarrow> same_command r r'"
  "same_command r (snd (WriterJsonZfixedsetBatchGetByScore yj r')) \<longleftrightarrow> same_command r r'"
  unfolding WriterJsonMset_def WriterJsonMget_def WriterJsonZfixedsetGetByScore_def WriterJsonZfixedsetBatchGetByScore_def by (rule emit_same)+

lemma same_upd [simp]:
  "same_command r (r'\<lparr>rq_phase := a\<rparr>) \<longleftrightarrow> same_command r r'"
  "same_command r (r'\<lparr>rq_subrequest := b\<rparr>) \<longleftrightarrow> same_command r r'"
  "same_command r (r'\<lparr>rq_vector_sub := b\<rparr>) \<longleftrightarrow> same_command r r'"
  "same_command r (r'\<lparr>rq_map_slots_kv := c\<rparr>) \<longleftrightarrow> same_command r r'"
  "same_command r (r'\<lparr>rq_map_kv := d\<rparr>) \<longleftrightarrow> same_command r r'"
  "same_command r (QKPACK_TIME_MS_END t r') \<longleftrightarrow> same_command r r'"
  by (simp_all add: same_command_def QKPACK_TIME_MS_END_def)

lemma fold_same: "same_command r (fold (\<lambda>(key, kvs). index_map_entry key kvs) xs r') \<longleftrightarrow> same_command r r'"
proof -
  have keep: "same_command r (fold f xs r') \<longleftrightarrow> same_command r r'" if "\<And>x r'. same_command r (f x r') \<longleftrightarrow> same_command r r'" for f :: "bytes \<times> kvpair_t list \<Rightarrow> _" and xs r'
    using that by (induction xs arbitrary: r') simp_all
  show ?thesis by (rule keep) (simp add: split_beta index_map_entry_def)
qed

lemma Mget_same: "same_command r (snd (CreateSubRequestMget yj t r')) \<longleftrightarrow> same_command r r'"
  by (simp add: CreateSubRequestMget_def Let_def writer_same)

lemma move_batch_same: "same_command r r' \<Longrightarrow> holds (\<lambda>(rc, r'). same_command r r') (move_batch n r')"
  by (auto simp: move_batch_def Let_def)

lemma ProcessMset_same: "same_command r r' \<Longrightarrow> holds (\<lambda>(rc, r'). same_command r r') (ProcessMset pi t r')"
  by (simp add: ProcessMset_def Let_def) (auto intro!: holds_bindR [OF move_batch_same])

lemma Mset_same: "same_command r r' \<Longrightarrow> holds (\<lambda>(rc, r'). same_command r r') (CreateSubRequestMset pi yj t r')"
  unfolding CreateSubRequestMset_def Let_def
  by (rule holds_bindR [OF ProcessMset_same [where r = r]])
    (auto simp: writer_same ProcessMset_same split_beta)

lemma Add_same: "same_command r r' \<Longrightarrow> holds (\<lambda>(rc, r'). same_command r r') (CreateSubRequestZfixedsetAdd pi yj t r')"
  unfolding CreateSubRequestZfixedsetAdd_def Let_def
  by (auto intro!: Mset_same holds_bindR [OF move_batch_same])

lemma BatchAdd_same: "same_command r r' \<Longrightarrow> holds (\<lambda>(rc, r'). same_command r r') (CreateSubRequestZfixedsetBatchAdd pi yj t r')"
  unfolding CreateSubRequestZfixedsetBatchAdd_def ProcessZfixedsetBatchAdd_def Let_def
  by (rule holds_bindR [OF Add_same [where r = r]]) (auto intro!: Add_same)

lemma GetByScore_same: "same_command r (snd (CreateSubRequestZfixedsetGetByScore yj t r')) \<longleftrightarrow> same_command r r'"
  by (simp add: CreateSubRequestZfixedsetGetByScore_def finish_getbyscore_def FilterGetByScoreMemberNullValue_def Let_def writer_same fold_same Mget_same)

lemma Body_same: "holds (\<lambda>(rc, r'). same_command r r') (CreateSubRequestBody pi yj t r)"
proof -
  have r: "same_command r r" by (simp add: same_command_def)
  then show ?thesis
    using Mget_same [of r yj t r] GetByScore_same [of r yj t]
    by (auto simp: CreateSubRequestBody_def CreateSubRequestZfixedsetBatchGetByScore_def Let_def split_beta
        intro!: Mset_same Add_same BatchAdd_same)
qed

lemma start_loop_all: "start_loop (\<lambda>i. True) i subs = (True, map fresh_sub subs, map call_path subs)"
  by (induction subs arbitrary: i) (simp_all add: fresh_sub_def call_path_def)

lemma check_loop_done: "all_done sts \<Longrightarrow> check_loop sts i request = Inr (NGX_OK, request)"
  by (induction sts arbitrary: i) (simp_all add: all_done_def)

lemma phase_is_Some [simp]: "mr_ctx m = Some ctx \<Longrightarrow> phase_is p m \<longleftrightarrow> cx_phase ctx = p"
  by (simp add: phase_is_def)

lemma in_phase_not [simp]: "\<not> phase_is p m \<Longrightarrow> in_phase p f k m = k m"
  by (simp add: in_phase_def)

text \<open>After the call of the plugin, from either phase.\<close>

lemma plugin_answer_outcome:
  assumes "mr_ctx m = Some ctx0" "cx_plugin ctx" "\<And>m. phase_is QKSUBREQUEST_STATE_FINAL m \<Longrightarrow> k m = in_phase QKSUBREQUEST_STATE_FINAL (final_phase all_well) k' m"
  shows "bindR (wait_or_go QKSUBREQUEST_STATE_FINAL (plugin_answer all_well ctx m res))
    (\<lambda>(ret, m). case ret of Some rc \<Rightarrow> Inr (rc, m) | None \<Rightarrow> k m) = plugin_outcome res ctx m"
proof -
  have "final_phase all_well (set_phase QKSUBREQUEST_STATE_FINAL (m\<lparr>mr_ctx := Some (ctx\<lparr>cx_data := Live request, cx_response_buffer := rq_response_buffer request\<rparr>),
      mr_worker := (mr_worker m)\<lparr>wk_handler := h\<rparr>\<rparr>)) = Inr (Some NGX_OK, answered request h ctx m)" for request h
    using assms(2) by (simp add: final_phase_def ngx_http_qksubrequest_output_def all_well_def ngx_http_qksubrequest_destroy_def answered_def)
  then show ?thesis
    using assms
    by (cases res) (auto simp: plugin_answer_def plugin_outcome_def wait_or_go_def Let_def ngx_http_qksubrequest_start_def all_well_def
        start_loop_all with_subs_def in_phase_def split: prod.splits)
qed

lemma handler_waiting:
  assumes "mr_ctx m = Some ctx" "cx_phase ctx = QKSUBREQUEST_STATE_WAIT_SUBREQUEST" "cx_plugin ctx" "cx_data ctx = Live request"
    and "cx_subrequests ctx = Some sts" "all_done sts"
  shows "ngx_http_qksubrequest_handler env r all_well m =
    plugin_outcome (ProcessBody (henv env) None (request\<lparr>rq_response_buffer := cx_response_buffer ctx\<rparr>) (wk_handler (mr_worker m))) ctx m"
proof -
  let ?S = QKSUBREQUEST_STATE_POST_SUBREQUEST
  let ?m = "m\<lparr>mr_ctx := Some (ctx\<lparr>cx_phase := ?S\<rparr>)\<rparr>"
  let ?k = "in_phase QKSUBREQUEST_STATE_FINAL (final_phase all_well) (in_phase QKSUBREQUEST_STATE_DONE (done_phase all_well)
    (in_phase QKSUBREQUEST_STATE_ERROR error_phase (\<lambda>m. Inr (NGX_OK, m))))"
  have "wait_or_go ?S (ngx_http_qksubrequest_check m) = Inr (None, ?m)"
    using assms by (simp add: ngx_http_qksubrequest_check_def check_loop_done wait_or_go_def)
  then have "ngx_http_qksubrequest_handler env r all_well m =
      in_phase ?S (\<lambda>m. wait_or_go QKSUBREQUEST_STATE_FINAL (ngx_http_qksubrequest_post env all_well m)) ?k ?m"
    using assms(1,2) by (simp add: ngx_http_qksubrequest_handler_def enter_def in_phase_def [of QKSUBREQUEST_STATE_WAIT_SUBREQUEST])
  also have "\<dots> = plugin_outcome (ProcessBody (henv env) None (request\<lparr>rq_response_buffer := cx_response_buffer ctx\<rparr>) (wk_handler (mr_worker m)))
      (ctx\<lparr>cx_phase := ?S\<rparr>) ?m"
    using assms plugin_answer_outcome [of ?m "ctx\<lparr>cx_phase := ?S\<rparr>" "ctx\<lparr>cx_phase := ?S\<rparr>" ?k]
    by (simp add: in_phase_def [of ?S] ngx_http_qksubrequest_post_def)
  also have "\<dots> = plugin_outcome (ProcessBody (henv env) None (request\<lparr>rq_response_buffer := cx_response_buffer ctx\<rparr>) (wk_handler (mr_worker m))) ctx m"
    by (simp add: plugin_outcome_def with_subs_def answered_def cong: if_cong)
  finally show ?thesis .
qed

lemma handler_first:
  assumes "hr_post r" "ngx_http_get_plugin (hr_vars r) = Some name" "ne_plugin env name" "ngx_http_get_server (hr_vars r) = Some server"
    and "ngx_http_get_post_body (ne_junk env) True [] (hr_body r) new_request = Inr (NGX_OK, request)"
  shows "\<exists>ctx. cx_plugin ctx \<and> cx_response_buffer ctx = [] \<and> ngx_http_qksubrequest_handler env r all_well (new_main w) =
    plugin_outcome (CreateRequest (henv env) None (first_request r server request) (wk_handler w)) ctx (new_main w)"
proof -
  let ?P = QKSUBREQUEST_STATE_PROCESS
  let ?ctx = "zero_ctx\<lparr>cx_phase := ?P\<rparr>"
  let ?ctx1 = "?ctx\<lparr>cx_plugin := True, cx_data := Live request\<rparr>"
  let ?m = "(new_main w)\<lparr>mr_ctx := Some ?ctx\<rparr>"
  let ?k = "in_phase QKSUBREQUEST_STATE_FINAL (final_phase all_well) (in_phase QKSUBREQUEST_STATE_DONE (done_phase all_well)
    (in_phase QKSUBREQUEST_STATE_ERROR error_phase (\<lambda>m. Inr (NGX_OK, m))))"
  let ?w = "in_phase QKSUBREQUEST_STATE_WAIT_SUBREQUEST (\<lambda>m. wait_or_go QKSUBREQUEST_STATE_POST_SUBREQUEST (ngx_http_qksubrequest_check m))
    (in_phase QKSUBREQUEST_STATE_POST_SUBREQUEST (\<lambda>m. wait_or_go QKSUBREQUEST_STATE_FINAL (ngx_http_qksubrequest_post env all_well m)) ?k)"
  have "init_phase r all_well (enter (new_main w)) = Inr (None, ?m)"
    using assms(1) by (simp add: init_phase_def ngx_http_qksubrequest_init_def read_client_request_body_def all_well_def enter_def new_main_def
        ngx_subrequest_post_body_def finalize_done_def zero_ctx_def codes)
  then have "ngx_http_qksubrequest_handler env r all_well (new_main w) =
      in_phase ?P (\<lambda>m. wait_or_go QKSUBREQUEST_STATE_FINAL (ngx_http_qksubrequest_process_request env r all_well m)) ?w ?m"
    by (simp add: ngx_http_qksubrequest_handler_def in_phase_def [of QKSUBREQUEST_STATE_INIT]) (simp add: enter_def new_main_def zero_ctx_def)
  also have "\<dots> = bindR (wait_or_go QKSUBREQUEST_STATE_FINAL (plugin_answer all_well ?ctx1 (?m\<lparr>mr_ctx := Some ?ctx1\<rparr>)
        (CreateRequest (henv env) None (first_request r server request) (wk_handler w))))
      (\<lambda>(ret, m). case ret of Some rc \<Rightarrow> Inr (rc, m) | None \<Rightarrow> ?w m)"
    using assms by (simp add: in_phase_def [of ?P] ngx_http_qksubrequest_process_request_def ngx_http_qksubrequest_init_plugin_def
        first_request_def zero_ctx_def new_main_def Let_def)
  also have "\<dots> = plugin_outcome (CreateRequest (henv env) None (first_request r server request) (wk_handler w)) ?ctx1 (?m\<lparr>mr_ctx := Some ?ctx1\<rparr>)"
    by (rule plugin_answer_outcome) (auto simp: phase_is_def split: option.splits)
  also have "\<dots> = plugin_outcome (CreateRequest (henv env) None (first_request r server request) (wk_handler w)) ?ctx1 (new_main w)"
    by (simp add: plugin_outcome_def with_subs_def answered_def cong: if_cong)
  finally show ?thesis by (intro exI [of _ ?ctx1]) (simp add: zero_ctx_def)
qed

lemma CreateRequest_admitted:
  assumes "admitted env h request request'" "CreateSubRequestBody (qh_parser h) (he_yajl env) (he_time_ms env) request' = Inr (rc, result)"
  shows "\<exists>h' answer. qh_parser h' = qh_parser h \<and> CreateRequest env None request h = Inr (if rc = QKPACK_ERROR then QKPACK_OK else rc, answer, None, h') \<and>
    rq_response_buffer answer = answer_body (he_yajl env) (he_time_ms env) rc result \<and> (rc \<noteq> QKPACK_ERROR \<longrightarrow> answer = result)"
  using assms
  by (auto simp: admitted_def CreateRequest_def QKPACK_TIME_END_def ProcessBodyError_def copy_error_def answer_body_def split_beta)

lemma ProcessBody_again:
  assumes "CheckSubRequest request" "CreateSubRequestBody (qh_parser h) (he_yajl env) (he_time_ms env) request = Inr (rc, result)"
  shows "\<exists>answer. ProcessBody env None request h = Inr (if rc = QKPACK_ERROR then QKPACK_OK else rc, answer, None, h) \<and>
    rq_response_buffer answer = answer_body (he_yajl env) (he_time_ms env) rc result \<and> (rc \<noteq> QKPACK_ERROR \<longrightarrow> answer = result)"
  using assms by (auto simp: ProcessBody_def reply_error_def ProcessBodyError_def copy_error_def answer_body_def split_beta)

lemma drive_cases:
  assumes "drive serve create n request = Some (batches, Inr (rc, result))"
  shows "(batches = [] \<and> create n request = Inr (rc, result) \<and> rc \<noteq> QKPACK_AGAIN) \<or>
    (\<exists>next rest. batches = rq_subrequest next # rest \<and> create n request = Inr (QKPACK_AGAIN, next) \<and>
      drive serve create (Suc n) (serve (rq_subrequest next) next) = Some (rest, Inr (rc, result)))"
  using assms by (subst (asm) drive.simps) (auto split: sum.splits prod.splits if_splits option.splits simp: bind_eq_Some_conv)

lemma CheckSubRequest_same: "same_command r r' \<Longrightarrow> CheckSubRequest r' = CheckSubRequest r"
  by (simp add: same_command_def CheckSubRequest_def)

text \<open>A started batch has run.\<close>

lemma serve_with_subs:
  assumes "0 < mr_count m" "0 \<le> mr_refs m"
  shows "\<exists>ctx' sts. mr_ctx (serve_all serve f (finalize_done (with_subs request h ctx m))) = Some ctx' \<and> cx_phase ctx' = QKSUBREQUEST_STATE_WAIT_SUBREQUEST \<and>
    cx_plugin ctx' = cx_plugin ctx \<and> cx_response_buffer ctx' = cx_response_buffer ctx \<and>
    cx_data ctx' = Live (serve (rq_subrequest request) request) \<and> cx_subrequests ctx' = Some sts \<and> all_done sts"
    "mr_sent (serve_all serve f (finalize_done (with_subs request h ctx m))) = mr_sent m"
    "mr_started (serve_all serve f (finalize_done (with_subs request h ctx m))) = mr_started m @ map call_path (rq_subrequest request)"
    "mr_worker (serve_all serve f (finalize_done (with_subs request h ctx m))) = f ((mr_worker m)\<lparr>wk_handler := h\<rparr>)"
    "mr_count (serve_all serve f (finalize_done (with_subs request h ctx m))) = mr_count m - mr_refs m"
    "mr_refs (serve_all serve f (finalize_done (with_subs request h ctx m))) = 0"
  using assms by (auto simp: serve_all_def finalize_done_def with_subs_def all_done_def)

lemma run_waiting:
  assumes "\<And>n. he_yajl (henv (env n)) = yj" "\<And>n. he_time_ms (henv (env n)) = clock n"
    and "\<And>w. qh_parser (wk_handler (f w)) = qh_parser (wk_handler w)" "\<And>subs r. CheckSubRequest (serve subs r) = CheckSubRequest r"
    and "drive (cleared serve) (\<lambda>n. CreateSubRequestBody pi yj (clock n)) n (request\<lparr>rq_response_buffer := []\<rparr>) = Some (batches, Inr (rc, result))"
    and "mr_ctx m = Some ctx" "cx_phase ctx = QKSUBREQUEST_STATE_WAIT_SUBREQUEST" "cx_plugin ctx" "cx_response_buffer ctx = []"
    and "cx_data ctx = Live request" "cx_subrequests ctx = Some sts" "all_done sts"
    and "0 < mr_count m" "mr_refs m = 0" "mr_sent m = []" "qh_parser (wk_handler (mr_worker m)) = pi" "CheckSubRequest request"
  shows "\<exists>m' t. run_handler serve f env r n m = Some (Inr (NGX_OK, m')) \<and>
    finished (mr_started m @ map call_path (concat batches)) (answer_body yj t rc result) m'"
  using assms(5-)
proof (induction batches arbitrary: n m ctx request sts)
  case Nil
  let ?r = "request\<lparr>rq_response_buffer := []\<rparr>"
  have "CheckSubRequest ?r" using Nil by (simp add: CheckSubRequest_def)
  moreover have c: "CreateSubRequestBody pi yj (clock n) ?r = Inr (rc, result)" "rc \<noteq> QKPACK_AGAIN"
    using drive_cases [OF Nil(1)] by auto
  ultimately obtain answer where answer: "ProcessBody (henv (env n)) None ?r (wk_handler (mr_worker m)) =
      Inr (if rc = QKPACK_ERROR then QKPACK_OK else rc, answer, None, wk_handler (mr_worker m))"
      "rq_response_buffer answer = answer_body yj (clock n) rc result"
    using ProcessBody_again [of ?r "wk_handler (mr_worker m)" "henv (env n)" rc result] Nil.prems assms(1,2) by auto
  have "ngx_http_qksubrequest_handler (env n) r all_well m = Inr (NGX_OK, answered answer (wk_handler (mr_worker m)) ctx m)"
    using handler_waiting [OF Nil.prems(2-4,6-8), of "env n" r] answer(1) Nil.prems(5) c(2) by (simp add: plugin_outcome_def codes)
  then show ?case
    using Nil.prems answer(2) by (subst run_handler.simps) (auto simp: finished_def answered_def)
next
  case (Cons batch batches)
  let ?r = "request\<lparr>rq_response_buffer := []\<rparr>" and ?h = "wk_handler (mr_worker m)"
  have k: "CheckSubRequest ?r" using Cons.prems by (simp add: CheckSubRequest_def)
  obtain nxt where nxt: "batch = rq_subrequest nxt" "CreateSubRequestBody pi yj (clock n) ?r = Inr (QKPACK_AGAIN, nxt)"
      "drive (cleared serve) (\<lambda>n. CreateSubRequestBody pi yj (clock n)) (Suc n) (cleared serve (rq_subrequest nxt) nxt) = Some (batches, Inr (rc, result))"
    using drive_cases [OF Cons.prems(1)] by auto
  have "CheckSubRequest nxt" using holdsD [OF Body_same nxt(2)] k by (simp add: CheckSubRequest_same)
  then have k': "CheckSubRequest (serve (rq_subrequest nxt) nxt)" by (simp add: assms(4))
  have "ProcessBody (henv (env n)) None ?r ?h = Inr (NGX_AGAIN, nxt, None, ?h)"
    using ProcessBody_again [OF k, of ?h "henv (env n)" QKPACK_AGAIN nxt] nxt(2) Cons.prems assms(1,2) by (auto simp: codes)
  then have "ngx_http_qksubrequest_handler (env n) r all_well m = Inr (NGX_DONE, with_subs nxt ?h ctx m)"
    using handler_waiting [OF Cons.prems(2-4,6-8), of "env n" r] Cons.prems(5) by (simp add: plugin_outcome_def)
  then have run: "run_handler serve f env r n m = run_handler serve f env r (Suc n) (serve_all serve f (finalize_done (with_subs nxt ?h ctx m)))"
    by (subst run_handler.simps) simp
  have m: "0 < mr_count m" "0 \<le> mr_refs m" using Cons.prems by simp_all
  note served = serve_with_subs [OF m, of serve f nxt ?h ctx]
  obtain ctx' sts' where ctx': "mr_ctx (serve_all serve f (finalize_done (with_subs nxt ?h ctx m))) = Some ctx'"
      "cx_phase ctx' = QKSUBREQUEST_STATE_WAIT_SUBREQUEST" "cx_plugin ctx'" "cx_response_buffer ctx' = []"
      "cx_data ctx' = Live (serve (rq_subrequest nxt) nxt)" "cx_subrequests ctx' = Some sts'" "all_done sts'"
    using served(1) Cons.prems(4,5) by auto
  have "drive (cleared serve) (\<lambda>n. CreateSubRequestBody pi yj (clock n)) (Suc n) ((serve (rq_subrequest nxt) nxt)\<lparr>rq_response_buffer := []\<rparr>) =
      Some (batches, Inr (rc, result))"
    using nxt(3) by (simp add: cleared_def)
  from Cons.IH [OF this ctx'] show ?case
    using served(2-) Cons.prems assms(3) k' unfolding run nxt(1) by simp
qed


section \<open>Properties\<close>

text \<open>C3: Whatever the order in which nginx calls the handler, sub-requests run, fail or end and other requests of the worker
  interleave: while a request is open, it holds exactly one reference besides those of its sub-requests, has sent nothing, and
  owns either nothing, waiting for its body, or one live request object, waiting for its sub-requests; when it is finalised, the
  object has been deleted, at most one answer has been sent.  The worker's handler stays a reachable one.\<close>

theorem reachable_main_ok:
  assumes "reachable_main m"
  shows "main_ok m \<and> reachable_handler (wk_handler (mr_worker m))"
  using assms
proof induction
  case (start w)
  then show ?case by (simp add: main_ok_def balanced_def new_main_def)
next
  case (step m m')
  then show ?case using main_step_ok by blast
qed

theorem reachable_main_ok_witness:
  "\<exists>h m. ngx_http_qksubrequest_handler sample_ngx_env (sample_http QKPACK_URI_MGET) (all_well\<lparr>oc_read := NGX_AGAIN\<rparr>)
      (new_main (sample_worker\<lparr>wk_handler := h\<rparr>)) = Inr (NGX_DONE, m) \<and> main_ok (finalize NGX_DONE m)"
proof -
  obtain h where h: "reachable_handler h" using sample_boot reachable_handler.start by blast
  let ?m = "new_main (sample_worker\<lparr>wk_handler := h\<rparr>)" and ?oc = "all_well\<lparr>oc_read := NGX_AGAIN\<rparr>" and ?r = "sample_http QKPACK_URI_MGET"
  let ?m' = "?m\<lparr>mr_ctx := Some (zero_ctx\<lparr>cx_waiting_more_body := True\<rparr>), mr_count := 2\<rparr>"
  have run: "ngx_http_qksubrequest_handler sample_ngx_env ?r ?oc ?m = Inr (NGX_DONE, ?m')"
    by (simp add: ngx_http_qksubrequest_handler_def in_phase_def enter_def new_main_def phase_is_def zero_ctx_def init_phase_def
        ngx_http_qksubrequest_init_def read_client_request_body_def sample_http_def all_well_def codes)
  have "reachable_main ?m" using h by (intro reachable_main.start) simp
  moreover have "outcomes_ok ?oc" by (simp add: outcomes_ok_def all_well_def)
  ultimately have "reachable_main (finalize NGX_DONE ?m')"
    using run by (intro reachable_main.step [OF _ main_step.call]) (auto simp: new_main_def)
  then show ?thesis using reachable_main_ok run by blast
qed

text \<open>The comment at the error phase says that the context is destroyed exactly once.  That holds because nginx does not call the
  handler again, not because of the handler: the pointer stays set, and a second call deletes the object again.\<close>

lemma destroyed_again:
  assumes "mr_ctx m = Some ctx" "cx_phase ctx = QKSUBREQUEST_STATE_ERROR" "cx_plugin ctx" "cx_data ctx = Live request"
  shows "\<exists>m'. ngx_http_qksubrequest_handler env r oc m = Inr (NGX_ERROR, m') \<and> ngx_http_qksubrequest_handler env' r' oc' m' = Inl Double_free"
  using assms by (simp add: ngx_http_qksubrequest_handler_def in_phase_def enter_def codes error_phase_def ngx_http_qksubrequest_destroy_def phase_is_def)

text \<open>C2: The module carries out the loop of the phase machine.  When a request on several keys passes the parser, the access
  control and the routing, and the sub-requests that are started succeed, the calls of the handler come to an end exactly when
  that loop does: the sub-requests started are the batches of the loop in order, the body sent is the document the loop ends
  with (or that of its error), sent once, and the request object is deleted.\<close>

theorem run_refines_drive:
  assumes "\<And>n. he_yajl (henv (env n)) = yj" "\<And>n. he_time_ms (henv (env n)) = clock n"
    and "\<And>w. qh_parser (wk_handler (f w)) = qh_parser (wk_handler w)" "\<And>subs r. CheckSubRequest (serve subs r) = CheckSubRequest r"
    and "hr_post r" "ngx_http_get_plugin (hr_vars r) = Some name" "ne_plugin (env 0) name" "ngx_http_get_server (hr_vars r) = Some server"
    and "ngx_http_get_post_body (ne_junk (env 0)) True [] (hr_body r) new_request = Inr (NGX_OK, request)"
    and "admitted (henv (env 0)) (wk_handler w) (first_request r server request) start"
    and "drive (cleared serve) (\<lambda>n. CreateSubRequestBody (qh_parser (wk_handler w)) yj (clock n)) 0 start = Some (batches, Inr (rc, result))"
  shows "\<exists>m t. run_handler serve f env r 0 (new_main w) = Some (Inr (NGX_OK, m)) \<and>
    finished (map call_path (concat batches)) (answer_body yj t rc result) m"
proof -
  let ?h = "wk_handler w" and ?req = "first_request r server request" and ?m = "new_main w"
  obtain ctx where ctx: "cx_plugin ctx" "cx_response_buffer ctx = []"
      "ngx_http_qksubrequest_handler (env 0) r all_well ?m = plugin_outcome (CreateRequest (henv (env 0)) None ?req ?h) ctx ?m"
    using handler_first [OF assms(5-9), of w] by blast
  have new: "0 < mr_count ?m" "mr_refs ?m = 0" "0 \<le> mr_refs ?m" "mr_sent ?m = []" "mr_started ?m = []" "mr_worker ?m = w" by (simp_all add: new_main_def)
  show ?thesis
    using drive_cases [OF assms(11)]
  proof (elim disjE conjE exE)
    assume c: "batches = []" "CreateSubRequestBody (qh_parser ?h) yj (clock 0) start = Inr (rc, result)" "rc \<noteq> QKPACK_AGAIN"
    then obtain h' answer where "CreateRequest (henv (env 0)) None ?req ?h = Inr (if rc = QKPACK_ERROR then QKPACK_OK else rc, answer, None, h')"
        "rq_response_buffer answer = answer_body yj (clock 0) rc result"
      using CreateRequest_admitted [OF assms(10)] assms(1,2) by fastforce
    then have "run_handler serve f env r 0 ?m = Some (Inr (NGX_OK, answered answer h' ctx ?m))"
      and "finished [] (answer_body yj (clock 0) rc result) (answered answer h' ctx ?m)"
      using c(3) ctx(3) new by (subst run_handler.simps, auto simp: plugin_outcome_def codes finished_def answered_def)
    then show ?thesis using c(1) by auto
  next
    fix nxt rest
    assume c: "batches = rq_subrequest nxt # rest" "CreateSubRequestBody (qh_parser ?h) yj (clock 0) start = Inr (QKPACK_AGAIN, nxt)"
      "drive (cleared serve) (\<lambda>n. CreateSubRequestBody (qh_parser ?h) yj (clock n)) (Suc 0) (cleared serve (rq_subrequest nxt) nxt) = Some (rest, Inr (rc, result))"
    obtain h' where h': "qh_parser h' = qh_parser ?h" "CreateRequest (henv (env 0)) None ?req ?h = Inr (NGX_AGAIN, nxt, None, h')"
      using CreateRequest_admitted [OF assms(10), of QKPACK_AGAIN nxt] c(2) assms(1,2) by (auto simp: codes)
    let ?m' = "serve_all serve f (finalize_done (with_subs nxt h' ctx ?m))"
    have run: "run_handler serve f env r 0 ?m = run_handler serve f env r (Suc 0) ?m'"
      using ctx(3) h'(2) by (subst run_handler.simps) (simp add: plugin_outcome_def)
    have "CheckSubRequest start" using assms(10) by (auto simp: admitted_def)
    then have "CheckSubRequest nxt" using holdsD [OF Body_same c(2)] by (simp add: CheckSubRequest_same)
    then have k: "CheckSubRequest (serve (rq_subrequest nxt) nxt)" by (simp add: assms(4))
    note served = serve_with_subs [OF new(1,3), of serve f nxt h' ctx]
    then obtain ctx' sts where ctx': "mr_ctx ?m' = Some ctx'" "cx_phase ctx' = QKSUBREQUEST_STATE_WAIT_SUBREQUEST" "cx_plugin ctx'"
        "cx_response_buffer ctx' = []" "cx_data ctx' = Live (serve (rq_subrequest nxt) nxt)" "cx_subrequests ctx' = Some sts" "all_done sts"
      using ctx(1,2) by auto
    show ?thesis
      using run_waiting [OF assms(1-4) c(3) [unfolded cleared_def [of serve "rq_subrequest nxt" nxt]] ctx', where r = r] served(2-) new h'(1) k assms(3)
      unfolding run c(1) by simp
  qed
qed

lemma sample_mset_read:
  assumes "rq_request_buffer q = ''body''" "rq_vector_kv q = []" "rq_map_slots_kv q = []"
  shows "ReadJsonMset ((sample_yajl ''body'' sample_mset_doc)\<lparr>yj_gen_buf := g\<rparr>) q = Inr (QKPACK_OK,
    (upd_kv (\<lambda>kv. kv\<lparr>kv_namespaces := ''lj''\<rparr>) q)\<lparr>rq_uri := ''qkd://BJ02/lj'', rq_ak := ''key'',
      rq_vector_kv := [new_kvpair\<lparr>kv_key := ''k'', kv_value := ''v''\<rparr>], rq_map_slots_kv := [(int (key_hash_slot ''ljk''), [InVec 0])]\<rparr>)"
proof -
  have last: "find_last_of (CHR ''/'') ''qkd://BJ02/lj'' = 10" by code_simp
  have ns: "read_namespace r = (True, upd_kv (\<lambda>kv. kv\<lparr>kv_namespaces := ''lj''\<rparr>) r)" if "rq_uri r = ''qkd://BJ02/lj''" for r
    by (simp add: read_namespace_def that last QKPACK_ACL_NAMESPACE_LENGTH_def)
  show ?thesis
    using assms
    by (simp add: ReadJsonMset_def read_multi_def parse_body_def sample_yajl_def sample_mset_doc_def names c_str_def NUL_def checked_def
        ValidateACLInfo_accepted validators require_str_accepted accepted_def set_uri_ak_def proceed_def ns index_vector_kv_def index_slots_def
        enumerate_simps smap_push_def smap_at_def)
qed

lemma mset_path:
  "\<not> strcaseeq QKPACK_URI_MSET QKPACK_URI_GET"
  "\<not> strcaseeq QKPACK_URI_MSET QKPACK_URI_SET"
  "\<not> strcaseeq QKPACK_URI_MSET QKPACK_URI_DEL"
  "\<not> strcaseeq QKPACK_URI_MSET QKPACK_URI_TTL"
  "\<not> strcaseeq QKPACK_URI_MSET QKPACK_URI_INCR"
  "\<not> strcaseeq QKPACK_URI_MSET QKPACK_URI_INCRBY"
  "\<not> strcaseeq QKPACK_URI_MSET QKPACK_URI_SET_SADD"
  "\<not> strcaseeq QKPACK_URI_MSET QKPACK_URI_SET_SREM"
  "\<not> strcaseeq QKPACK_URI_MSET QKPACK_URI_SET_SCARD"
  "\<not> strcaseeq QKPACK_URI_MSET QKPACK_URI_SET_SMEMBERS"
  "\<not> strcaseeq QKPACK_URI_MSET QKPACK_URI_SET_SISMEMBER"
  "\<not> strcaseeq QKPACK_URI_MSET QKPACK_URI_MGET"
  "strcaseeq QKPACK_URI_MSET QKPACK_URI_MSET" "c_str QKPACK_URI_MSET = QKPACK_URI_MSET"
  by code_simp+

lemma sample_mset_admitted:
  "\<exists>start. admitted (henv (sample_doc_env sample_mset_doc)) (wk_handler open_worker)
      (first_request (sample_http QKPACK_URI_MSET) ''v'' (new_request\<lparr>rq_request_buffer := ''body''\<rparr>)) start \<and>
    kv_command_type (rq_kvpair start) = REDIS_MSET \<and> rq_code start = QKPACK_RESPONSE_CODE_OK \<and> rq_phase start = QKPACK_SUBREQUEST_START \<and>
    rq_vector_sub start = [] \<and> map fst (rq_map_slots_kv start) = [int (key_hash_slot ''ljk'')]"
proof -
  let ?env = "henv (sample_doc_env sample_mset_doc)" and ?h = "wk_handler open_worker"
  let ?r = "first_request (sample_http QKPACK_URI_MSET) ''v'' (new_request\<lparr>rq_request_buffer := ''body''\<rparr>)"
  have yajl: "he_yajl ?env = (sample_yajl ''body'' sample_mset_doc)\<lparr>yj_gen_buf := (\<lambda>b calls. Some ''doc'')\<rparr>"
    by (simp add: sample_doc_env_def handler_env.truncate_def)
  let ?q = "upd_kv (\<lambda>kv. kv\<lparr>kv_metrics_command := QKPACK_METRICS_MSET, kv_command_type := REDIS_MSET, kv_operation_type := QKPACK_OPERATION_WRITE\<rparr>) ?r"
  have uri: "ParseRequestUri ?r = (QKPACK_OK, ?q)"
  proof -
    have "rq_request_uri ?r = QKPACK_URI_MSET" by (simp add: first_request_def sample_http_def)
    then show ?thesis by (simp only: ParseRequestUri_def Let_def mset_path if_True if_False)
  qed
  let ?p = "(upd_kv (\<lambda>kv. kv\<lparr>kv_namespaces := ''lj''\<rparr>) ?q)\<lparr>rq_uri := ''qkd://BJ02/lj'', rq_ak := ''key'',
    rq_vector_kv := [new_kvpair\<lparr>kv_key := ''k'', kv_value := ''v''\<rparr>], rq_map_slots_kv := [(int (key_hash_slot ''ljk''), [InVec 0])]\<rparr>"
  have "\<not> rq_is_subrequest ?r" "rq_request_buffer ?q = ''body''" "rq_vector_kv ?q = []" "rq_map_slots_kv ?q = []" "rq_desc ?q = []"
    by (simp_all add: first_request_def new_request_def)
  then have parse: "ParseRequestBody (he_yajl ?env) None ?r = Inr (QKPACK_OK, ?p)"
    using uri sample_mset_read [of ?q] by (simp add: ParseRequestBody_def read_body_def REDIS_MSET_def codes yajl)
  let ?p1 = "QKPACK_TIME_END ?env 0 ?p"
  have "allows (qh_acl ?h) (rq_ak ?p1) (rq_uri ?p1) (kv_operation_type (rq_kvpair ?p1)) ?p1"
    by (simp add: allows_def open_worker_def open_acl_def sample_acl_def acl_key_def within_limits_def small_request_def new_request_def new_kvpair_def
        QKPACK_TIME_END_def first_request_def sample_http_def QKPACK_OPERATION_WRITE_def)
  then obtain acl acl' qa' t n where acl: "Process (he_yajl ?env) (he_curl ?env) (qh_acl ?h) ?p1 = Inr (Some acl', qa', granted acl ''BJ02'' ''lj'' t n ?p1)"
    using Process_allows [of ?p1 "''BJ02''" "''lj''" "qh_acl ?h" "he_yajl ?env" "he_curl ?env"]
    by (auto simp: QKPACK_TIME_END_def address_def no_nul_def NUL_def commands)
  let ?g = "QKPACK_TIME_END ?env 1 (granted acl ''BJ02'' ''lj'' t n ?p1)"
  have "GetNode (he_nodes ?env) (pe_junk_int (he_proto ?env)) (acl_route acl') ?g (qh_cluster ?h) = Inr (QKPACK_OK, ?g, qh_cluster ?h)"
    by (simp add: GetNode_def lookup_key_def Let_def granted_def QKPACK_TIME_END_def open_worker_def first_request_def new_request_def new_kvpair_def)
  moreover have "CheckSubRequest (QKPACK_TIME_END ?env 2 ?g)" "\<not> rq_is_subrequest ?p"
    by (simp_all add: CheckSubRequest_def granted_def QKPACK_TIME_END_def first_request_def new_request_def)
  ultimately have "admitted ?env ?h ?r (QKPACK_TIME_END ?env 2 ?g)"
    unfolding admitted_def using parse acl by blast
  moreover have "kv_command_type (rq_kvpair ?g) = REDIS_MSET" "rq_code ?g = QKPACK_RESPONSE_CODE_OK" "rq_phase ?g = QKPACK_SUBREQUEST_START"
      "rq_vector_sub ?g = []" "rq_map_slots_kv ?g = [(int (key_hash_slot ''ljk''), [InVec 0])]"
    by (simp_all add: granted_def QKPACK_TIME_END_def first_request_def new_request_def codes phases)
  ultimately show ?thesis by (intro exI [of _ "QKPACK_TIME_END ?env 2 ?g"]) (simp add: QKPACK_TIME_END_def)
qed

theorem run_refines_drive_witness:
  "\<exists>m. run_handler (\<lambda>subs request. request) (\<lambda>w. w) (\<lambda>n. sample_doc_env sample_mset_doc) (sample_http QKPACK_URI_MSET) 0 (new_main open_worker) = Some (Inr (NGX_OK, m)) \<and>
    length (mr_started m) = 1 \<and> mr_sent m = [''doc'']"
proof -
  let ?env = "\<lambda>n :: nat. sample_doc_env sample_mset_doc" and ?r = "sample_http QKPACK_URI_MSET" and ?serve = "\<lambda>subs request. request"
  define yj clock pi where "yj = he_yajl (henv (sample_doc_env sample_mset_doc))" and "clock = (\<lambda>n :: nat. he_time_ms (henv (sample_doc_env sample_mset_doc)))"
    and "pi = qh_parser (wk_handler open_worker)"
  obtain start where start: "admitted (henv (?env 0)) (wk_handler open_worker) (first_request ?r ''v'' (new_request\<lparr>rq_request_buffer := ''body''\<rparr>)) start"
      "kv_command_type (rq_kvpair start) = REDIS_MSET" "rq_code start = QKPACK_RESPONSE_CODE_OK" "rq_phase start = QKPACK_SUBREQUEST_START"
      "rq_vector_sub start = []" "map fst (rq_map_slots_kv start) = [int (key_hash_slot ''ljk'')]"
    using sample_mset_admitted by (elim exE conjE)
  have slots: "rq_map_slots_kv start \<noteq> []" "length (rq_map_slots_kv start) < 2 ^ 31" using start(6) by (auto simp: map_eq_Cons_conv)
  have pi: "0 < mset_max_count pi" by (simp add: pi_def open_worker_def sample_handler_def)
  have serve: "serve_ok (cleared ?serve)" by (simp add: serve_ok_def cleared_def agree_def)
  let ?batches = "chunks (nat (mset_max_count pi)) (map (slot_sub QKPACK_URI_MSET start) (map fst (rq_map_slots_kv start)))"
  obtain result t where "drive (cleared ?serve) (\<lambda>n. CreateSubRequestBody pi yj (clock n)) 0 start =
      Some (?batches, Inr (WriterJsonMset yj (QKPACK_TIME_MS_END t result)))"
    using mset_completes [OF serve pi start(2-5) slots, of yj clock] by blast
  moreover have "WriterJsonMset yj (QKPACK_TIME_MS_END t result) = (QKPACK_OK, (QKPACK_TIME_MS_END t result)\<lparr>rq_response_buffer := ''doc''\<rparr>)"
    by (simp add: yj_def WriterJsonMset_def emit_def sample_doc_env_def handler_env.truncate_def sample_yajl_def)
  ultimately have drive: "drive (cleared ?serve) (\<lambda>n. CreateSubRequestBody pi yj (clock n)) 0 start =
      Some (?batches, Inr (QKPACK_OK, (QKPACK_TIME_MS_END t result)\<lparr>rq_response_buffer := ''doc''\<rparr>))" by simp
  have http: "hr_post ?r" "ngx_http_get_plugin (hr_vars ?r) = Some ''v''" "ngx_http_get_server (hr_vars ?r) = Some ''v''" "hr_body ?r = [In_memory ''body'']"
    by (simp_all add: sample_http_def ngx_http_get_plugin_def ngx_http_get_server_def)
  have plugin: "ne_plugin (?env 0) ''v''" by (simp add: sample_doc_env_def sample_ngx_env_def handler_env.extend_def)
  have post: "ngx_http_get_post_body (ne_junk (?env 0)) True [] (hr_body ?r) new_request = Inr (NGX_OK, new_request\<lparr>rq_request_buffer := ''body''\<rparr>)"
    by (simp add: http ngx_http_get_post_body_def new_request_def)
  obtain m t' where "run_handler ?serve (\<lambda>w. w) ?env ?r 0 (new_main open_worker) = Some (Inr (NGX_OK, m))"
      "finished (map call_path (concat ?batches)) (answer_body yj t' QKPACK_OK ((QKPACK_TIME_MS_END t result)\<lparr>rq_response_buffer := ''doc''\<rparr>)) m"
    using run_refines_drive [OF yj_def [symmetric] clock_def [symmetric, THEN fun_cong] refl refl http(1,2) plugin http(3) post start(1) drive [unfolded pi_def]]
    unfolding pi_def by blast
  moreover have "concat ?batches = map (slot_sub QKPACK_URI_MSET start) (map fst (rq_map_slots_kv start))" using pi by (simp add: concat_chunks)
  ultimately show ?thesis using start(6) by (intro exI [of _ m]) (simp add: finished_def answer_body_def codes)
qed

end
