(* ===== verification/EndToEnd.thy ===== *)
theory EndToEnd
  imports Upstream HandlerInv
begin

text \<open>
  The way of one request through all the components: from the HTTP request through the upstream module, the handler, the parser,
  the access control, the cluster map and the protocol to the bytes sent to a node, and from the reply back to the document
  the client gets.
\<close>


section \<open>Specification\<close>

text \<open>The fields of the body of a GET request.\<close>

definition get_body :: "yajl_val \<Rightarrow> bytes \<Rightarrow> bytes \<Rightarrow> bytes \<Rightarrow> bool" where
  "get_body node uri ak key \<longleftrightarrow>
    tree_get (Some node) QKPACK_JSON_URI Y_string = Some (YString uri) \<and> tree_get (Some node) QKPACK_JSON_AK Y_string = Some (YString ak) \<and>
    tree_get (Some node) QKPACK_JSON_KEY Y_string = Some (YString key) \<and>
    (\<forall>s\<in>{uri, ak, key}. accepted s \<and> no_nul s \<and> length s < 2 ^ 30)"

definition get_calls :: "bytes \<Rightarrow> int \<Rightarrow> bytes \<Rightarrow> bytes \<Rightarrow> gen_call list" where
  "get_calls desc cost key value =
    [Gen_map_open, Gen_string QKPACK_JSON_E, Gen_map_open, Gen_string QKPACK_JSON_CODE, Gen_integer 0, Gen_string QKPACK_JSON_DESC,
     Gen_string desc, Gen_map_close, Gen_string QKPACK_JSON_COST, Gen_integer cost, Gen_string QKPACK_JSON_KEY, Gen_string key,
     Gen_string QKPACK_JSON_VALUE, Gen_string value, Gen_map_close]"

text \<open>
  Everything a GET needs: the body is a document with address, key of the application and key; the record that is cached for them
  allows reading; the slot of the key has a node.
\<close>

definition get_ready :: "handler_env \<Rightarrow> qkpack_handler \<Rightarrow> bytes \<Rightarrow> bytes \<Rightarrow> bytes \<Rightarrow> bytes \<Rightarrow> bytes \<Rightarrow> bytes \<Rightarrow> bytes \<Rightarrow> bool" where
  "get_ready env h body client cluster ns ak key ip \<longleftrightarrow>
    yj_tree_get (he_yajl env) = tree_get \<and>
    (\<exists>node. yj_tree_parse (he_yajl env) (c_str body) = Some node \<and> get_body node (address cluster ns) ak key) \<and>
    CHR ''/'' \<notin> set cluster \<and> length ns = 2 \<and>
    allows (qh_acl h) ak (address cluster ns) QKPACK_OPERATION_READ (upd_kv (\<lambda>kv. kv\<lparr>kv_key := key\<rparr>)
      (new_request\<lparr>rq_request_uri := QKPACK_URI_GET, rq_request_buffer := body, rq_x_real_ip := client\<rparr>)) \<and>
    (\<exists>slots. smap_get (rc_map_cluster (qh_cluster h)) cluster = Some slots \<and> smap_get slots (int (key_hash_slot (ns @ key))) = Some ip) \<and> ip \<noteq> []"

text \<open>A created GET: the fields on which the answer depends.\<close>

definition get_created :: "bytes \<Rightarrow> bytes \<Rightarrow> bytes \<Rightarrow> bytes \<Rightarrow> qkpack_request_t \<Rightarrow> bool" where
  "get_created cluster ns key ip request \<longleftrightarrow> rq_code request = QKPACK_RESPONSE_CODE_OK \<and> \<not> rq_is_subrequest request \<and>
    kv_command_type (rq_kvpair request) = REDIS_GET \<and> kv_key (rq_kvpair request) = key \<and> rq_desc request = [] \<and>
    rq_cluster_name request = cluster \<and> rq_node_ip request = ip \<and> kv_proto_str (rq_kvpair request) = resp_request [''GET'', ns @ key]"

text \<open>The client of a request.\<close>

definition client_of :: "http_request \<Rightarrow> bytes" where
  "client_of r = (case hr_x_real_ip r of Some x \<Rightarrow> x | None \<Rightarrow> hr_addr_text r)"

text \<open>The body of a client that reads the key \<open>k\<close>.\<close>

definition sample_get_doc :: yajl_val where
  "sample_get_doc = YObject [(QKPACK_JSON_URI, YString ''qkd://BJ02/lj''), (QKPACK_JSON_AK, YString ''key''), (QKPACK_JSON_KEY, YString ''k'')]"


section \<open>Lemmas\<close>

lemma GetNode_known:
  assumes "smap_get (rc_map_cluster rc) (rq_cluster_name request) = Some slots" "kv_key (rq_kvpair request) \<noteq> []" "kv_slot_id (rq_kvpair request) < 0"
    and "smap_get slots (int (key_hash_slot (kv_namespaces (rq_kvpair request) @ kv_key (rq_kvpair request)))) = Some ip"
  shows "GetNode nodes junk route request rc = Inr (QKPACK_OK, (upd_kv (\<lambda>k. k\<lparr>kv_slot_id :=
    int (key_hash_slot (kv_namespaces k @ kv_key k))\<rparr>) request)\<lparr>rq_node_ip := ip\<rparr>, rc)"
  using assms by (simp add: GetNode_def lookup_key_def Let_def)

lemma ParseRequestBody_get:
  assumes "\<not> rq_is_subrequest request" "rq_request_uri request = QKPACK_URI_GET" "yj_tree_get yj = tree_get"
    and "yj_tree_parse yj (c_str (rq_request_buffer request)) = Some node" "get_body node uri ak key"
  shows "ParseRequestBody yj None request = Inr (QKPACK_OK,
    (upd_kv (\<lambda>kv. kv\<lparr>kv_metrics_command := QKPACK_METRICS_GET, kv_command_type := REDIS_GET, kv_operation_type := QKPACK_OPERATION_READ, kv_key := key\<rparr>) request)
    \<lparr>rq_uri := uri, rq_ak := ak\<rparr>)"
proof -
  let ?r = "upd_kv (\<lambda>kv. kv\<lparr>kv_metrics_command := QKPACK_METRICS_GET, kv_command_type := REDIS_GET, kv_operation_type := QKPACK_OPERATION_READ\<rparr>) request"
  have "c_str QKPACK_URI_GET = QKPACK_URI_GET" by (rule c_str_id) (simp add: no_nul_def NUL_def uris)
  then have uri: "ParseRequestUri request = (QKPACK_OK, ?r)"
    by (simp only: ParseRequestUri_def Let_def assms(2) strcaseeq_def simp_thms if_True)
  have "c_str uri = uri" "c_str ak = ak" "c_str key = key" "accepted uri" "accepted ak" "accepted key"
    "length uri < 2 ^ 31" "length ak < 2 ^ 31" "length key < 2 ^ 31"
    using assms(5) by (simp_all add: get_body_def)
  then show ?thesis
    using assms uri by (simp add: ParseRequestBody_def read_body_def ReadJsonGet_def parse_body_def Let_def get_body_def checked_def
        ValidateACLInfo_accepted validators require_str_accepted set_uri_ak_def commands REDIS_GET_def REDIS_SCARD_def REDIS_SMEMBERS_def)
qed

lemma CreateRequest_get:
  assumes "get_ready env h (rq_request_buffer request) (rq_x_real_ip request) cluster ns ak key ip"
    and "rq_request_uri request = QKPACK_URI_GET" "\<not> rq_is_subrequest request" "rq_code request = QKPACK_RESPONSE_CODE_OK" "rq_desc request = []"
    and "kv_slot_id (rq_kvpair request) < 0" "kv_value (rq_kvpair request) = []"
  shows "\<exists>request' h'. CreateRequest env None request h = Inr (QKPACK_OK, request', None, h') \<and> get_created cluster ns key ip request'"
proof -
  obtain node slots where node: "yj_tree_parse (he_yajl env) (c_str (rq_request_buffer request)) = Some node" "get_body node (address cluster ns) ak key"
    and slots: "smap_get (rc_map_cluster (qh_cluster h)) cluster = Some slots" "smap_get slots (int (key_hash_slot (ns @ key))) = Some ip"
    using assms(1) by (auto simp: get_ready_def)
  have ready: "yj_tree_get (he_yajl env) = tree_get" "CHR ''/'' \<notin> set cluster" "length ns = 2" "ip \<noteq> []"
      "allows (qh_acl h) ak (address cluster ns) QKPACK_OPERATION_READ (upd_kv (\<lambda>kv. kv\<lparr>kv_key := key\<rparr>)
        (new_request\<lparr>rq_request_uri := QKPACK_URI_GET, rq_request_buffer := rq_request_buffer request, rq_x_real_ip := rq_x_real_ip request\<rparr>))"
    using assms(1) by (auto simp: get_ready_def)
  let ?r1 = "(upd_kv (\<lambda>kv. kv\<lparr>kv_metrics_command := QKPACK_METRICS_GET, kv_command_type := REDIS_GET, kv_operation_type := QKPACK_OPERATION_READ, kv_key := key\<rparr>) request)
    \<lparr>rq_uri := address cluster ns, rq_ak := ak\<rparr>"
  have parse: "ParseRequestBody (he_yajl env) None request = Inr (QKPACK_OK, ?r1)"
    by (rule ParseRequestBody_get [OF assms(3,2) ready(1) node])
  let ?r2 = "QKPACK_TIME_END env 0 ?r1"
  have nul: "no_nul ns" "length key < 2 ^ 30" "key \<noteq> []" using node(2) by (auto simp: get_body_def address_def no_nul_def accepted_def)
  have "allows (qh_acl h) (rq_ak ?r2) (rq_uri ?r2) (kv_operation_type (rq_kvpair ?r2)) ?r2"
    using ready(5) assms(2,7) by (simp add: allows_def within_limits_def small_request_def QKPACK_TIME_END_def new_request_def new_kvpair_def)
  then obtain acl acl' qa' t n where acl: "Process (he_yajl env) (he_curl env) (qh_acl h) ?r2 = Inr (Some acl', qa', granted acl cluster ns t n ?r2)"
    using Process_allows [of ?r2 cluster ns "qh_acl h" "he_yajl env" "he_curl env"] ready(2,3) nul(1)
    by (auto simp: QKPACK_TIME_END_def REDIS_GET_def REDIS_ZADD_def REDIS_ZBATCHADD_def)
  let ?r3 = "QKPACK_TIME_END env 1 (granted acl cluster ns t n ?r2)"
  let ?r4 = "(upd_kv (\<lambda>k. k\<lparr>kv_slot_id := int (key_hash_slot (kv_namespaces k @ kv_key k))\<rparr>) ?r3)\<lparr>rq_node_ip := ip\<rparr>"
  have route: "GetNode (he_nodes env) (pe_junk_int (he_proto env)) (acl_route acl') ?r3 (qh_cluster h) = Inr (QKPACK_OK, ?r4, qh_cluster h)"
    using slots assms(6) nul(3) by (intro GetNode_known [of _ _ slots]) (simp_all add: granted_def QKPACK_TIME_END_def)
  let ?r5 = "QKPACK_TIME_END env 2 ?r4"
  have r5: "rq_code ?r5 = QKPACK_RESPONSE_CODE_OK" "(kv_command_type (rq_kvpair ?r5), ''GET'') \<in> set single_key_commands"
      "length (kv_namespaces (rq_kvpair ?r5) @ kv_key (rq_kvpair ?r5)) < 2 ^ 31" "\<not> CheckSubRequest ?r5" "rq_node_ip ?r5 = ip" "rq_desc ?r5 = []"
      "\<not> rq_is_subrequest ?r5" "rq_cluster_name ?r5 = cluster" "kv_key (rq_kvpair ?r5) = key" "kv_namespaces (rq_kvpair ?r5) = ns" "kv_command_type (rq_kvpair ?r5) = REDIS_GET"
    using assms(3-5) nul(2) ready(3) by (simp_all add: granted_def QKPACK_TIME_END_def single_key_commands_def CheckSubRequest_def commands REDIS_GET_def)
  note encode = Encode_single_key [OF r5(1-3), of "he_proto env" None]
  have "\<not> rq_is_subrequest ?r2" using assms(3) by (simp add: QKPACK_TIME_END_def)
  then have "\<exists>h'. CreateRequest env None request h = Inr (QKPACK_OK, QKPACK_TIME_END env 4 (upd_kv (\<lambda>k. k\<lparr>kv_command := ''GET'',
      kv_proto_str := resp_request [''GET'', kv_namespaces k @ kv_key k]\<rparr>) ?r5), None, h')"
    unfolding CreateRequest_def parse Let_def using acl route r5(4,5) encode ready(4)
    by (simp add: create_subrequest_def encode_request_def Let_def)
  then show ?thesis using r5 by (auto simp: get_created_def QKPACK_TIME_END_def)
qed

lemma ProcessBody_get:
  assumes "get_created cluster ns key ip request" "length stored < 2 ^ 31" "value_of_reply (he_proto env) stored = Inr value"
    and "yj_gen_alloc (he_yajl env)" "yj_gen_buf (he_yajl env) True (get_calls [] (he_time_ms env) key value) = Some doc"
  shows "\<exists>answer. ProcessBody env None (upd_kv (\<lambda>kv. kv\<lparr>kv_moved_ask := mv\<rparr>) (request\<lparr>rq_response_buffer := resp_bulk stored\<rparr>)) h =
      Inr (QKPACK_OK, answer, None, h) \<and> rq_response_buffer answer = doc"
proof -
  let ?r = "upd_kv (\<lambda>kv. kv\<lparr>kv_moved_ask := mv\<rparr>) (request\<lparr>rq_response_buffer := resp_bulk stored\<rparr>)"
  let ?v = "upd_kv (\<lambda>k. k\<lparr>kv_value := value\<rparr>) ?r"
  have r: "rq_code ?r = QKPACK_RESPONSE_CODE_OK" "rq_response_buffer ?r = resp_bulk stored" "kv_command_type (rq_kvpair ?r) = REDIS_GET"
      "\<not> rq_is_subrequest ?r" "rq_desc ?r = []" "kv_key (rq_kvpair ?r) = key"
    using assms(1) by (simp_all add: get_created_def)
  have decode: "RedisProtoDecode (he_proto env) None ?r rp = Inr (QKPACK_OK, ?v, None, rp)" for rp
    using Decode_bulk [OF r(1,2) assms(2), of "he_proto env" None rp] r(3) assms(3) by (simp add: REDIS_GET_def REDIS_TTL_def)
  have "WriterJsonGet (he_yajl env) (QKPACK_TIME_MS_END (he_time_ms env) (QKPACK_TIME_END env 0 ?v)) =
      (QKPACK_OK, (QKPACK_TIME_MS_END (he_time_ms env) (QKPACK_TIME_END env 0 ?v))\<lparr>rq_response_buffer := doc\<rparr>)"
    using assms(4,5) r by (simp add: WriterJsonGet_def WriterJsonCommon_def emit_def QKPACK_TIME_MS_END_def QKPACK_TIME_END_def get_calls_def QKPACK_RESPONSE_CODE_OK_def)
  then have "ParseResponseBody (he_yajl env) (he_time_ms env) (QKPACK_TIME_END env 0 ?v) =
      (QKPACK_OK, (QKPACK_TIME_MS_END (he_time_ms env) (QKPACK_TIME_END env 0 ?v))\<lparr>rq_response_buffer := doc\<rparr>)"
    using r by (simp add: ParseResponseBody_def Let_def QKPACK_TIME_MS_END_def QKPACK_TIME_END_def)
  moreover have "\<not> CheckSubRequest ?r" using r by (simp add: CheckSubRequest_def commands REDIS_GET_def)
  ultimately show ?thesis
    unfolding ProcessBody_def using decode by (auto simp: QKPACK_TIME_END_def Let_def)
qed


section \<open>Properties\<close>

text \<open>C1: A GET is served.  When the client posts a document with an address, a key of the application and a key, the cached access
  record allows the read, and the cluster map knows the node of the slot of the namespaced key, the bytes sent to that node are
  one GET command for the namespaced key; and when the node answers with a value, the client gets the document with code 0, the
  key and the value as it was stored.\<close>

theorem get_served:
  assumes "hr_main r" "hr_post r" "hr_uri r = QKPACK_URI_GET" "ngx_http_get_plugin (hr_vars r) = Some plugin" "ne_plugin env plugin"
    and "hr_vars r ''backserver'' = Some upstream" "hr_vars r ''node_ip'' = Some node_ip" "ngx_http_get_server (hr_vars r) = Some server"
    and "ngx_http_get_post_body (ne_junk env) True (hr_body r) (hr_body r) new_request = Inr (NGX_OK, new_request\<lparr>rq_request_buffer := body\<rparr>)"
    and "get_ready (henv env) (wk_handler w) body (client_of r) cluster ns ak key ip"
    and "length (resp_bulk stored) < 2 ^ 31" "value_of_reply (he_proto (henv env)) stored = Inr value" "yj_gen_alloc (he_yajl (henv env))"
    and "yj_gen_buf (he_yajl (henv env)) True (get_calls [] (he_time_ms (henv env)) key value) = Some doc" "doc \<noteq> []"
    and "length doc \<le> length (resp_bulk stored) + length spare"
  shows "\<exists>ctx u' w' ctx' u'' w''.
    ngx_http_qkupstream_create_request env r None zero_ctx u w = Inr (NGX_OK, ctx, u', None, w') \<and>
    us_request_bufs u' = resp_request [''GET'', ns @ key] \<and> cx_upstream_name ctx = cluster \<and> cx_upstream_ip ctx = ip \<and>
    ngx_http_qkupstream_process_header env None ctx (u'\<lparr>us_buffer := resp_bulk stored, us_spare := spare\<rparr>) w' = Inr (NGX_OK, ctx', u'', None, w'') \<and>
    us_buffer u'' = doc"
proof -
  let ?c0 = "zero_ctx\<lparr>cx_plugin := True, cx_is_subrequest := False, cx_data := Live (new_request\<lparr>rq_request_buffer := body\<rparr>)\<rparr>"
  have init: "ngx_http_qkupstream_init env r None zero_ctx = Inr (NGX_OK, ?c0)"
    using assms(1-9) by (simp add: ngx_http_qkupstream_init_def)
  let ?tries = "if wk_upstream_tries w = 0 then cf_upstream_tries (wk_conf w) else wk_upstream_tries w"
    and ?timeout = "if wk_upstream_timeout w = 0 then cf_connect_timeout (wk_conf w) else wk_upstream_timeout w"
  let ?req = "fill_request r upstream node_ip server False ?tries ?timeout (new_request\<lparr>rq_request_buffer := body\<rparr>)"
  have req: "rq_request_buffer ?req = body" "rq_x_real_ip ?req = client_of r" "rq_request_uri ?req = QKPACK_URI_GET" "\<not> rq_is_subrequest ?req"
      "rq_code ?req = QKPACK_RESPONSE_CODE_OK" "rq_desc ?req = []" "kv_slot_id (rq_kvpair ?req) < 0" "kv_value (rq_kvpair ?req) = []"
    using assms(1,3) by (simp_all add: fill_request_def Let_def new_request_def new_kvpair_def QKPACK_RESPONSE_CODE_OK_def client_of_def)
  obtain request' h' where create: "CreateRequest (henv env) None ?req (wk_handler w) = Inr (QKPACK_OK, request', None, h')"
      and created: "get_created cluster ns key ip request'"
    using CreateRequest_get [of "henv env" "wk_handler w" ?req cluster ns ak key ip] req assms(10) by auto
  let ?c1 = "?c0\<lparr>cx_data := Live request', cx_request_buffer := kv_proto_str (rq_kvpair request'), cx_upstream_ip := rq_node_ip request',
    cx_upstream_name := rq_cluster_name request'\<rparr>"
  let ?w1 = "w\<lparr>wk_upstream_tries := ?tries, wk_upstream_timeout := ?timeout, wk_handler := h', wk_conf := set_conf request' (wk_conf w)\<rparr>"
  have "ngx_http_qkupstream_process_request env r None ?c0 w = Inr (NGX_OK, ?c1, None, ?w1)"
    unfolding ngx_http_qkupstream_process_request_def using assms(6-8) create by (simp add: Let_def codes)
  then have step1: "ngx_http_qkupstream_create_request env r None zero_ctx u w =
      Inr (NGX_OK, ?c1, u\<lparr>us_request_bufs := kv_proto_str (rq_kvpair request')\<rparr>, None, ?w1)"
    by (simp add: ngx_http_qkupstream_create_request_def init)
  let ?u = "u\<lparr>us_request_bufs := kv_proto_str (rq_kvpair request'), us_buffer := resp_bulk stored, us_spare := spare\<rparr>"
  have ok: "cx_moved_ask ?c1 = QKUPSTREAM_OK" by (simp add: zero_ctx_def)
  obtain answer where answer: "ProcessBody (henv env) None (upd_kv (\<lambda>kv. kv\<lparr>kv_moved_ask := QKUPSTREAM_OK\<rparr>) (request'\<lparr>rq_response_buffer := resp_bulk stored\<rparr>)) h' =
      Inr (QKPACK_OK, answer, None, h')" "rq_response_buffer answer = doc"
    using ProcessBody_get [OF created _ assms(12-14)] assms(11) by (auto simp: resp_bulk_def)
  have "ngx_redis_proto_decode (resp_bulk stored @ spare) (int (length (resp_bulk stored))) = Inr NGX_OK"
    using decode_complete [of "Bulk (Some stored)" spare] assms(11) by (simp add: resp_text_def resp_item_def)
  then have "ngx_http_qkupstream_process_header env None ?c1 ?u ?w1 =
      processed (ngx_http_qkupstream_process_response env None (?c1\<lparr>cx_response_buffer := resp_bulk stored\<rparr>) ?u ?w1)"
    using ok by (intro process_header_reply [where pre = "[]"]) simp_all
  moreover have "\<exists>ctx' u''. ngx_http_qkupstream_process_response env None (?c1\<lparr>cx_response_buffer := resp_bulk stored\<rparr>) ?u ?w1 =
      Inr (NGX_OK, ctx', u'', None, ?w1) \<and> us_buffer u'' = doc"
    using answer assms(15,16) by (simp add: ngx_http_qkupstream_process_response_def zero_ctx_def Let_def codes)
  ultimately obtain ctx' u'' where "ngx_http_qkupstream_process_header env None ?c1 ?u ?w1 = Inr (NGX_OK, ctx', u'', None, ?w1)" "us_buffer u'' = doc"
    by (auto simp: processed_def)
  then show ?thesis
    using step1 created by (intro exI conjI) (assumption | simp add: get_created_def)+
qed

theorem get_served_witness:
  "\<exists>ctx u' w' ctx' u'' w''.
    ngx_http_qkupstream_create_request (sample_doc_env sample_get_doc) (sample_http QKPACK_URI_GET) None zero_ctx (sample_upstream []) open_worker =
      Inr (NGX_OK, ctx, u', None, w') \<and> us_request_bufs u' = resp_request [''GET'', ''ljk''] \<and>
    ngx_http_qkupstream_process_header (sample_doc_env sample_get_doc) None ctx (u'\<lparr>us_buffer := resp_bulk ''v'', us_spare := replicate 9 NUL\<rparr>) w' =
      Inr (NGX_OK, ctx', u'', None, w'') \<and> us_buffer u'' = ''doc''"
proof -
  let ?env = "sample_doc_env sample_get_doc" and ?r = "sample_http QKPACK_URI_GET"
  have yajl: "he_yajl (henv ?env) = (sample_yajl ''body'' sample_get_doc)\<lparr>yj_gen_buf := (\<lambda>b calls. Some ''doc'')\<rparr>"
    by (simp add: sample_doc_env_def handler_env.truncate_def)
  have body: "get_body sample_get_doc (address ''BJ02'' ''lj'') ''key'' ''k''"
    by (simp add: get_body_def sample_get_doc_def names address_def accepted_def no_nul_def NUL_def)
  have allows: "allows (qh_acl (wk_handler open_worker)) ''key'' (address ''BJ02'' ''lj'') QKPACK_OPERATION_READ (upd_kv (\<lambda>kv. kv\<lparr>kv_key := ''k''\<rparr>)
      (new_request\<lparr>rq_request_uri := QKPACK_URI_GET, rq_request_buffer := ''body'', rq_x_real_ip := client_of ?r\<rparr>))"
    by (simp add: allows_def open_worker_def open_acl_def sample_acl_def acl_key_def address_def within_limits_def small_request_def new_request_def new_kvpair_def
        client_of_def sample_http_def QKPACK_OPERATION_READ_def)
  have ready: "get_ready (henv ?env) (wk_handler open_worker) ''body'' (client_of ?r) ''BJ02'' ''lj'' ''key'' ''k'' ''10.0.0.1:80''"
    unfolding get_ready_def using body allows by (auto simp: yajl sample_yajl_def open_worker_def c_str_def NUL_def)
  have plain: "value_of_reply (he_proto (henv ?env)) ''v'' = Inr ''v''" by (rule value_of_reply_plain) (simp_all add: NUL_def)
  have len: "length (resp_bulk ''v'') = 7" by (simp add: resp_bulk_def dec_nat.simps)
  have http: "hr_main ?r" "hr_post ?r" "hr_uri ?r = QKPACK_URI_GET" "ngx_http_get_plugin (hr_vars ?r) = Some ''v''" "hr_vars ?r ''backserver'' = Some ''v''"
      "hr_vars ?r ''node_ip'' = Some ''v''" "ngx_http_get_server (hr_vars ?r) = Some ''v''" "hr_body ?r = [In_memory ''body'']"
    by (simp_all add: sample_http_def ngx_http_get_plugin_def ngx_http_get_server_def)
  have env: "ne_plugin ?env ''v''" by (simp add: sample_doc_env_def sample_ngx_env_def handler_env.extend_def)
  have gen: "yj_gen_alloc (he_yajl (henv ?env))" "yj_gen_buf (he_yajl (henv ?env)) True calls = Some ''doc''" for calls
    by (simp_all add: yajl sample_yajl_def)
  have post: "ngx_http_get_post_body (ne_junk ?env) True (hr_body ?r) (hr_body ?r) new_request = Inr (NGX_OK, new_request\<lparr>rq_request_buffer := ''body''\<rparr>)"
    by (simp add: http ngx_http_get_post_body_def new_request_def)
  have "length (resp_bulk ''v'') < 2 ^ 31" "length ''doc'' \<le> length (resp_bulk ''v'') + length (replicate 9 NUL)" "''doc'' \<noteq> []" by (simp_all add: len)
  from get_served [OF http(1-4) env http(5-7) post ready this(1) plain gen(1) gen(2) this(3,2), of "sample_upstream []"]
  show ?thesis by auto
qed

end
