(* ===== verification/Service.thy ===== *)
theory Service
  imports HandlerInv
begin

text \<open>
  The plugin object (\<open>qkpack_service.cc\<close>) and the reading of its configuration file (\<open>util/filekv_parser.cc\<close>,
  \<open>util/file_util.cc\<close>): lines of a key, an equals sign and a value, from which the service takes the path of the second
  configuration file, the backup server and the sizes of the batches, and starts the handler.
\<close>


section \<open>The configuration file\<close>

text \<open>\<open>while ( getline( fp, line ) )\<close>: a last line without a line feed counts when it is not empty.\<close>

fun lines_of :: "bytes \<Rightarrow> bytes list" where
  "lines_of [] = []"
| "lines_of (c # cs) = (if c = LF then [] # lines_of cs else (case lines_of cs of [] \<Rightarrow> [[c]] | l # ls \<Rightarrow> (c # l) # ls))"

text \<open>\<open>isspace\<close> of the C library answers with its class bit, so that comparing it with \<open>true\<close> never holds.\<close>

definition isspace :: "char \<Rightarrow> int" where
  "isspace c = (if is_space c then 8192 else 0)"

fun skip_blanks :: "bytes \<Rightarrow> nat \<Rightarrow> nat" where
  "skip_blanks [] i = i"
| "skip_blanks (c # cs) i = (if isspace c = 1 then skip_blanks cs (Suc i) else i)"

text \<open>One line: \<open>getline( linestream, key, '=' )\<close> and \<open>linestream >> value\<close>.\<close>

definition config_line :: "bytes \<Rightarrow> (bytes \<times> bytes) option" where
  "config_line line =
    (let i = skip_blanks line 0 in
     if i \<ge> length line \<or> line ! i = CHR ''#'' then None
     else
       let key = takeWhile (\<lambda>c. c \<noteq> CHR ''='') line;
           value = takeWhile (\<lambda>c. \<not> is_space c) (dropWhile is_space (drop (length key + 1) line)) in
       if key = [] \<or> value = [] then None else Some (TrimString key, TrimString value))"

definition FilekvParser_Parse_kv :: "handler_env \<Rightarrow> bytes \<Rightarrow> (bytes, bytes) smap \<Rightarrow> bool \<times> (bytes, bytes) smap" where
  "FilekvParser_Parse_kv env file kv =
    (case he_file env (c_str file) of
       None \<Rightarrow> (False, kv)
     | Some content \<Rightarrow> (True, fold (\<lambda>line kv. case config_line line of None \<Rightarrow> kv | Some (k, v) \<Rightarrow> smap_put k v kv) (lines_of content) kv))"


section \<open>Paths\<close>

text \<open>\<open>rfind\<close> of a character among the first characters of a string.\<close>

definition rfind :: "char \<Rightarrow> bytes \<Rightarrow> nat option" where
  "rfind c s = (if c \<in> set s then Some (length s - 1 - scan (\<lambda>x. x = c) (rev s)) else None)"

text \<open>For the path \<open>/\<close> alone, \<open>size() - 2\<close> wraps around and the whole string is searched.\<close>

definition GetParentDir :: "bytes \<Rightarrow> bytes" where
  "GetParentDir currentDir =
    (if currentDir = [] then []
     else
       let delimPos = (if last currentDir = CHR ''/'' \<and> length currentDir \<ge> 2 then rfind (CHR ''/'') (butlast currentDir)
                       else rfind (CHR ''/'') currentDir) in
       case delimPos of None \<Rightarrow> [] | Some n \<Rightarrow> take n currentDir)"

definition GenerateAbsolutePath :: "bytes \<Rightarrow> bytes \<Rightarrow> bytes" where
  "GenerateAbsolutePath directory file_path =
    (case file_path of
       [] \<Rightarrow> []
     | c # _ \<Rightarrow> if c = CHR ''/'' then file_path else directory @ ''/'' @ file_path)"


section \<open>The service\<close>

text \<open>\<open>qkpack_handler_\<close> is not set by the constructor.\<close>

record service =
  sv_handler :: "qkpack_handler option"

text \<open>\<open>it = conf_kv.find(..); if ( it->second.empty() )\<close>: the iterator is not compared with \<open>end()\<close>.\<close>

definition conf_find :: "(bytes, bytes) smap \<Rightarrow> bytes \<Rightarrow> bytes result" where
  "conf_find conf_kv key = (case smap_get conf_kv key of None \<Rightarrow> Inl Out_of_bounds | Some v \<Rightarrow> Inr v)"

definition conf_required ::
  "(bytes, bytes) smap \<Rightarrow> bytes \<Rightarrow> service \<Rightarrow> (bytes \<Rightarrow> (int \<times> service) result) \<Rightarrow> (int \<times> service) result" where
  "conf_required conf_kv key sv k = bindR (conf_find conf_kv key) (\<lambda>v. if v = [] then Inr (QKPACK_ERROR, sv) else k v)"

text \<open>A number that cannot be read leaves the variable as it was: uninitialised.\<close>

definition conf_number :: "handler_env \<Rightarrow> bytes \<Rightarrow> int" where
  "conf_number env v = (case snd (StrToInt32 (c_str v)) of None \<Rightarrow> pe_junk_int (he_proto env) | Some n \<Rightarrow> n)"

definition InitProcess :: "handler_env \<Rightarrow> bytes \<Rightarrow> service \<Rightarrow> (int \<times> service) result" where
  "InitProcess env so_conf sv =
    (let (ok, conf_kv) = FilekvParser_Parse_kv env so_conf [] in
     if \<not> ok then Inr (QKPACK_ERROR, sv)
     else
       let conf_dir = GetParentDir so_conf @ ''/'' in
       conf_required conf_kv ''log4cpp_conf'' sv (\<lambda>_.
       conf_required conf_kv ''qkpack_acl_conf'' sv (\<lambda>acl_conf.
       let acl_conf_path = GenerateAbsolutePath conf_dir acl_conf in
       conf_required conf_kv ''backup_server'' sv (\<lambda>backup_server.
       bindR (conf_find conf_kv ''metrics_status'') (\<lambda>_.
       conf_required conf_kv ''mset_max_count'' sv (\<lambda>mset_max_count.
       conf_required conf_kv ''batchadd_max_count'' sv (\<lambda>batchadd_max_count.
       bindR (Init env acl_conf_path backup_server (conf_number env mset_max_count) (conf_number env batchadd_max_count)) (\<lambda>(rc, h).
         let sv = sv\<lparr>sv_handler := h\<rparr> in
         if rc \<noteq> QKPACK_OK then Inr (QKPACK_ERROR, sv) else Inr (QKPACK_OK, sv)))))))))"

definition ExitProcess :: "service \<Rightarrow> service" where
  "ExitProcess sv = (case sv_handler sv of None \<Rightarrow> sv | Some h \<Rightarrow> sv\<lparr>sv_handler := None\<rparr>)"

text \<open>The calls of the modules go to the handler.\<close>

definition delegate :: "(qkpack_handler \<Rightarrow> handled) \<Rightarrow> service \<Rightarrow> (int \<times> qkpack_request_t \<times> qkpack_request_t option \<times> service) result" where
  "delegate f sv =
    (case sv_handler sv of
       None \<Rightarrow> Inl Uninitialised
     | Some h \<Rightarrow> bindR (f h) (\<lambda>(rc, request, parent, h). Inr (rc, request, parent, sv\<lparr>sv_handler := Some h\<rparr>)))"

definition QkPackService_CreateRequest ::
  "handler_env \<Rightarrow> qkpack_request_t option \<Rightarrow> qkpack_request_t \<Rightarrow> service \<Rightarrow> (int \<times> qkpack_request_t \<times> qkpack_request_t option \<times> service) result" where
  "QkPackService_CreateRequest env parent request = delegate (CreateRequest env parent request)"

definition QkPackService_ProcessBody ::
  "handler_env \<Rightarrow> qkpack_request_t option \<Rightarrow> qkpack_request_t \<Rightarrow> service \<Rightarrow> (int \<times> qkpack_request_t \<times> qkpack_request_t option \<times> service) result" where
  "QkPackService_ProcessBody env parent request = delegate (ProcessBody env parent request)"

definition QkPackService_ReinitRequest ::
  "handler_env \<Rightarrow> qkpack_request_t option \<Rightarrow> qkpack_request_t \<Rightarrow> service \<Rightarrow> (int \<times> qkpack_request_t \<times> qkpack_request_t option \<times> service) result" where
  "QkPackService_ReinitRequest env parent request = delegate (ReinitRequest env parent request)"


section \<open>Specification\<close>

text \<open>A configuration as it is written, and the entries that survive the reading unchanged.\<close>

definition config_text :: "(bytes \<times> bytes) list \<Rightarrow> bytes" where
  "config_text kvs = concat (map (\<lambda>(k, v). k @ ''='' @ v @ [LF]) kvs)"

definition entry_ok :: "bytes \<times> bytes \<Rightarrow> bool" where
  "entry_ok = (\<lambda>(k, v). k \<noteq> [] \<and> v \<noteq> [] \<and> hd k \<noteq> CHR ''#'' \<and> \<not> is_trim_space (hd k) \<and> \<not> is_trim_space (last k) \<and>
    (\<forall>c\<in>set k. c \<noteq> CHR ''='' \<and> c \<noteq> LF) \<and> (\<forall>c\<in>set v. \<not> is_space c))"

text \<open>The handler of a service, once there is one, has been started and then only been called.\<close>

definition service_ok :: "service \<Rightarrow> bool" where
  "service_ok sv \<longleftrightarrow> (\<forall>h. sv_handler sv = Some h \<longrightarrow> reachable_handler h)"

text \<open>A configuration, the process that reads it and the file it names.\<close>

definition sample_kvs :: "(bytes \<times> bytes) list" where
  "sample_kvs = [(''log4cpp_conf'', ''log.conf''), (''qkpack_acl_conf'', ''acl.json''), (''backup_server'', ''10.0.0.9:80''),
     (''metrics_status'', ''off''), (''mset_max_count'', ''7''), (''batchadd_max_count'', ''3''), (''mset_max_count'', ''20'')]"

definition sample_service_env :: handler_env where
  "sample_service_env = sample_boot_env\<lparr>he_file := (\<lambda>file.
     if file = ''/etc/qkpack.conf'' then Some (config_text sample_kvs) else Some ''conf'')\<rparr>"


section \<open>Lemmas\<close>

lemma sample_service:
  "\<exists>h. Init sample_service_env (GenerateAbsolutePath (GetParentDir ''/etc/qkpack.conf'' @ ''/'') ''acl.json'') ''10.0.0.9:80'' (int 20) (int 3)
    = Inr (QKPACK_OK, Some h)"
proof -
  have "GenerateAbsolutePath (GetParentDir ''/etc/qkpack.conf'' @ ''/'') ''acl.json'' = ''/etc//acl.json''" by code_simp
  then show ?thesis
    by (simp add: Init_def FilekvParser_Parse_def sample_service_env_def sample_boot_env_def sample_handler_env_def ParseConf_def
        ReadJsonConf_def new_conf_def sample_yajl_def sample_conf_doc_def c_str_def NUL_def names get_str_def)
qed

lemma lines_of_line: "LF \<notin> set l \<Longrightarrow> lines_of (l @ LF # rest) = l # lines_of rest"
  by (induction l) auto

lemma skip_blanks_none: "skip_blanks line i = i"
  by (cases line) (simp_all add: isspace_def)

lemma dropWhile_head: "xs \<noteq> [] \<Longrightarrow> \<not> P (hd xs) \<Longrightarrow> dropWhile P xs = xs"
  by (cases xs) auto

lemma TrimString_id: "s \<noteq> [] \<Longrightarrow> \<not> is_trim_space (hd s) \<Longrightarrow> \<not> is_trim_space (last s) \<Longrightarrow> TrimString s = s"
  by (simp add: TrimString_def dropWhile_head hd_rev)

lemma trim_space: "is_trim_space c \<Longrightarrow> is_space c"
  by (auto simp: is_trim_space_def is_space_def CR_def LF_def)

lemma config_line_entry:
  assumes "entry_ok (k, v)"
  shows "config_line (k @ ''='' @ v) = Some (k, v)"
proof -
  have k: "k \<noteq> []" "v \<noteq> []" "hd k \<noteq> CHR ''#''" "\<forall>c\<in>set k. c \<noteq> CHR ''=''" "\<forall>c\<in>set v. \<not> is_space c"
    using assms by (auto simp: entry_ok_def)
  have "takeWhile (\<lambda>c. c \<noteq> CHR ''='') (k @ ''='' @ v) = k"
    using k(4) by (subst takeWhile_append2) auto
  moreover have "dropWhile is_space v = v" using k(2,5) by (intro dropWhile_head) auto
  moreover have "takeWhile (\<lambda>c. \<not> is_space c) v = v" using k(5) by (simp only: takeWhile_eq_all_conv)
  moreover have "TrimString k = k" using assms by (intro TrimString_id) (auto simp: entry_ok_def)
  moreover have "TrimString v = v" using k(2,5) trim_space by (intro TrimString_id) (meson hd_in_set last_in_set)+
  moreover have "(k @ ''='' @ v) ! 0 \<noteq> CHR ''#''" using k(1,3) by (cases k) auto
  ultimately show ?thesis using k(1,2) by (simp add: config_line_def skip_blanks_none Let_def del: takeWhile_eq_all_conv)
qed

lemma entry_line: "entry_ok (k, v) \<Longrightarrow> LF \<notin> set (k @ ''='' @ v)"
proof -
  assume "entry_ok (k, v)"
  then have "\<forall>c\<in>set k. c \<noteq> LF" "\<forall>c\<in>set v. \<not> is_space c" unfolding entry_ok_def by blast+
  moreover have "is_space LF" "LF \<noteq> CHR ''=''" by (simp_all add: is_space_def LF_def)
  ultimately show ?thesis by auto
qed

lemma read_config_text:
  assumes "list_all entry_ok kvs"
  shows "fold (\<lambda>line kv. case config_line line of None \<Rightarrow> kv | Some (k, v) \<Rightarrow> smap_put k v kv) (lines_of (config_text kvs)) m
    = fold (\<lambda>(k, v). smap_put k v) kvs m"
  using assms
proof (induction kvs arbitrary: m)
  case Nil
  then show ?case by (simp add: config_text_def)
next
  case (Cons kv kvs)
  obtain k v where kv: "kv = (k, v)" by (cases kv)
  have ok: "entry_ok (k, v)" using Cons.prems kv by simp
  have "config_text (kv # kvs) = (k @ ''='' @ v) @ LF # config_text kvs" by (simp add: config_text_def kv)
  then have "lines_of (config_text (kv # kvs)) = (k @ ''='' @ v) # lines_of (config_text kvs)"
    using lines_of_line [OF entry_line [OF ok]] by metis
  then show ?case using Cons config_line_entry [OF ok] kv by simp
qed

lemma get_put_all: "smap_get (fold (\<lambda>(k, v). smap_put k v) kvs m) k = (case map_of (rev kvs) k of None \<Rightarrow> smap_get m k | Some v \<Rightarrow> Some v)"
  by (induction kvs arbitrary: m) (auto simp: smap_get_put map_add_def split: option.splits)

lemma Parse_config_text:
  assumes "he_file env (c_str file) = Some (config_text kvs)" "list_all entry_ok kvs"
  shows "\<exists>conf. FilekvParser_Parse_kv env file [] = (True, conf) \<and> smap_ok conf \<and> (\<forall>k. smap_get conf k = map_of (rev kvs) k)"
proof -
  have "smap_ok (fold (\<lambda>(k, v). smap_put k v) kvs m)" if "smap_ok m" for m :: "(bytes, bytes) smap"
    using that by (induction kvs arbitrary: m) (auto simp: smap_ok_put)
  then show ?thesis
    using assms by (auto simp: FilekvParser_Parse_kv_def read_config_text get_put_all split: option.splits)
qed

lemma c_str_dec_nat: "c_str (dec_nat n) = dec_nat n"
proof -
  have "NUL \<notin> set (dec_nat n)" by (rule dec_nat_no) (simp add: NUL_def is_digit_def digit_val_def)
  then show ?thesis by (auto simp: c_str_def takeWhile_eq_all_conv)
qed

lemma conf_number_dec: "n < 2 ^ 31 \<Longrightarrow> conf_number env (dec_nat n) = int n"
  by (simp add: conf_number_def c_str_dec_nat StrToInt32_dec)

lemma Init_configured:
  assumes "Init env path backup m b = Inr (QKPACK_OK, Some h)"
  shows "qh_parser h = \<lparr>mset_max_count = m, batchadd_max_count = b\<rparr>" "qh_cluster h = new_redis_cluster backup"
  using assms by (auto simp: Init_def bindR_Inr_iff split: if_splits prod.splits)

lemma entries_value: "list_all entry_ok kvs \<Longrightarrow> map_of (rev kvs) k = Some v \<Longrightarrow> v \<noteq> []"
proof -
  assume "list_all entry_ok kvs" "map_of (rev kvs) k = Some v"
  then have "entry_ok (k, v)" by (metis Ball_set map_of_SomeD set_rev)
  then show ?thesis unfolding entry_ok_def by blast
qed

text \<open>A key the file does not have is read through the end iterator.\<close>

lemma InitProcess_missing_key:
  assumes "he_file env (c_str so_conf) = Some (config_text kvs)" "list_all entry_ok kvs" "map_of (rev kvs) ''log4cpp_conf'' = None"
  shows "InitProcess env so_conf sv = Inl Out_of_bounds"
proof -
  obtain kv where kv: "FilekvParser_Parse_kv env so_conf [] = (True, kv)" "\<forall>k. smap_get kv k = map_of (rev kvs) k"
    using Parse_config_text [OF assms(1,2)] by blast
  have "conf_find kv ''log4cpp_conf'' = Inl Out_of_bounds" by (simp add: conf_find_def kv(2) assms(3))
  then show ?thesis by (simp add: InitProcess_def kv(1) conf_required_def)
qed

text \<open>A blank before the key is not skipped, so an indented comment with an equals sign is an entry.\<close>

lemma indented_comment: "config_line '' #a=b'' = Some (''#a'', ''b'')"
  by code_simp

text \<open>The service is a plugin whose state is that of its handler.\<close>

lemma delegate_ok:
  assumes "service_ok sv" "\<And>h. reachable_handler h \<Longrightarrow> holds (\<lambda>(_, _, _, h). reachable_handler h) (f h)"
  shows "holds (\<lambda>(_, _, _, sv). service_ok sv) (delegate f sv)"
  using assms by (auto simp: delegate_def service_ok_def split: option.split intro!: holds_bindR [OF assms(2)])

interpretation service_plugin: cplugin QkPackService_CreateRequest QkPackService_ReinitRequest QkPackService_ProcessBody service_ok
  by unfold_locales (auto simp: QkPackService_CreateRequest_def QkPackService_ReinitRequest_def QkPackService_ProcessBody_def
      intro!: delegate_ok plugin_hist.create_ok plugin_hist.reinit_ok plugin_hist.reply_ok)

lemma InitProcess_ok: "sv_handler sv = None \<Longrightarrow> holds (\<lambda>(_, sv). service_ok sv) (InitProcess env so_conf sv)"
  by (auto simp: InitProcess_def conf_required_def Let_def split_beta holds_def service_ok_def bindR_Inr_iff
      split: sum.split if_splits option.splits intro: reachable_handler.start)

text \<open>A sequence of calls of the service is the same sequence of calls of its handler.\<close>

lemma service_run:
  assumes "sv_handler sv = Some h"
  shows "plugin_run QkPackService_CreateRequest QkPackService_ReinitRequest QkPackService_ProcessBody calls sv =
    bindR (plugin_run CreateRequest ReinitRequest ProcessBody calls h) (\<lambda>h. Inr (sv\<lparr>sv_handler := Some h\<rparr>))"
  using assms
proof (induction calls arbitrary: sv h)
  case Nil
  then show ?case by (cases sv) simp
next
  case (Cons c cs)
  then show ?case
    by (cases c) (auto simp: QkPackService_CreateRequest_def QkPackService_ReinitRequest_def QkPackService_ProcessBody_def delegate_def
        bindR_assoc split_beta split: sum.split)
qed

text \<open>From its start on, whatever is asked of it, the handler of a service is well formed.\<close>

lemma service_lifetime:
  assumes "InitProcess env so_conf \<lparr>sv_handler = None\<rparr> = Inr (rc, sv)"
    and "plugin_run QkPackService_CreateRequest QkPackService_ReinitRequest QkPackService_ProcessBody calls sv = Inr sv'"
    and "sv_handler sv' = Some h"
  shows "reachable_handler h"
proof -
  have "service_ok sv" using holdsD [OF InitProcess_ok assms(1)] by simp
  then show ?thesis using holdsD [OF service_plugin.run_ok assms(2)] assms(3) by (simp add: service_ok_def)
qed


section \<open>Properties\<close>

text \<open>C18: A service whose configuration file holds lines of key, equals sign and value starts its handler with what the file
  says, the last line of a key counting: the second file is looked up beside the first, the batches have the configured
  sizes, the cluster has the configured backup server, and nothing else of the service changes.\<close>

theorem InitProcess_configured:
  assumes content: "he_file env (c_str so_conf) = Some (config_text kvs)" and ok: "list_all entry_ok kvs"
    and conf: "conf = map_of (rev kvs)" "conf ''log4cpp_conf'' = Some log_conf" "conf ''qkpack_acl_conf'' = Some acl_conf"
      "conf ''backup_server'' = Some backup" "conf ''metrics_status'' = Some metrics"
      "conf ''mset_max_count'' = Some (dec_nat m)" "conf ''batchadd_max_count'' = Some (dec_nat b)"
    and bounds: "m < 2 ^ 31" "b < 2 ^ 31"
    and started: "Init env (GenerateAbsolutePath (GetParentDir so_conf @ ''/'') acl_conf) backup (int m) (int b) = Inr (QKPACK_OK, Some h)"
  shows "InitProcess env so_conf sv = Inr (QKPACK_OK, sv\<lparr>sv_handler := Some h\<rparr>) \<and>
    qh_parser h = \<lparr>mset_max_count = int m, batchadd_max_count = int b\<rparr> \<and> qh_cluster h = new_redis_cluster backup"
proof -
  obtain kv where kv: "FilekvParser_Parse_kv env so_conf [] = (True, kv)" "\<forall>k. smap_get kv k = conf k"
    using Parse_config_text [OF content ok] conf(1) by blast
  have given: "log_conf \<noteq> []" "acl_conf \<noteq> []" "backup \<noteq> []"
    using entries_value [OF ok] conf(1-4) by blast+
  have "InitProcess env so_conf sv = Inr (QKPACK_OK, sv\<lparr>sv_handler := Some h\<rparr>)"
    using started by (simp add: InitProcess_def kv conf(2-) given conf_required_def conf_find_def conf_number_dec [OF bounds(1)] conf_number_dec [OF bounds(2)])
  then show ?thesis using Init_configured [OF started] by simp
qed

theorem InitProcess_configured_witness:
  "\<exists>h. InitProcess sample_service_env ''/etc/qkpack.conf'' \<lparr>sv_handler = None\<rparr> = Inr (QKPACK_OK, \<lparr>sv_handler = Some h\<rparr>) \<and>
    qh_parser h = \<lparr>mset_max_count = 20, batchadd_max_count = 3\<rparr> \<and> qh_cluster h = new_redis_cluster ''10.0.0.9:80''"
proof -
  obtain h where h: "Init sample_service_env (GenerateAbsolutePath (GetParentDir ''/etc/qkpack.conf'' @ ''/'') ''acl.json'') ''10.0.0.9:80''
      (int 20) (int 3) = Inr (QKPACK_OK, Some h)"
    using sample_service by auto
  have dec: "dec_nat 20 = ''20''" "dec_nat 3 = ''3''" by code_simp+
  have content: "he_file sample_service_env (c_str ''/etc/qkpack.conf'') = Some (config_text sample_kvs)"
    by (simp add: sample_service_env_def c_str_def NUL_def)
  have ok: "list_all entry_ok sample_kvs" by code_simp
  show ?thesis
    using InitProcess_configured [OF content ok refl _ _ _ _ _ _ _ _ h, where sv = "\<lparr>sv_handler = None\<rparr>"]
    by (simp add: sample_kvs_def dec)
qed

end
